(* ===== verification/Prelude.thy ===== *)
theory Prelude
  imports Main "HOL-Library.Sublist"
begin

text \<open>
  Shared vocabulary of the development: Go's time values, maps as association lists in the
  iteration order the runtime picks, and the generic lemmas on lists, options and sums that
  the component theories use.

  \<^item> A \<open>time.Time\<close> is its number of nanoseconds since the Unix epoch, an \<open>int\<close>; a
    \<open>time.Duration\<close> is a number of nanoseconds.
  \<^item> A Go map value is an association list with distinct keys; the order of the list is the
    order in which a \<open>range\<close> loop happens to visit it, so a statement over every such list
    is a statement over every iteration order.
  \<^item> A call that returns \<open>(T, error)\<close> is a sum \<open>'e + 'a\<close>: \<open>Inl\<close> is a non-nil error.
\<close>

named_theorems go_simps \<open>computation rules for the modelled Go library functions\<close>
named_theorems go_intros \<open>introduction rules for well-formed model states\<close>

type_synonym time = int
type_synonym duration = int
type_synonym go_map = "(string \<times> string) list"

definition nanosecond :: duration where "nanosecond = 1"
definition millisecond :: duration where "millisecond = 1000000"
definition second :: duration where "second = 1000000000"
definition minute :: duration where "minute = 60000000000"

lemmas duration_defs [go_simps] = nanosecond_def millisecond_def second_def minute_def

text \<open>\<open>time.Time{}\<close>, the zero time, is the first of January of year 1 in UTC.\<close>

definition zeroTime :: time where
  "zeroTime = - 62135596800000000000"

definition Time_IsZero :: "time \<Rightarrow> bool" where
  "Time_IsZero t \<longleftrightarrow> t = zeroTime"

definition Time_Unix :: "time \<Rightarrow> int" where
  "Time_Unix t = t div 1000000000"

lemma Time_Unix_le: "Time_Unix t * 1000000000 \<le> t"
  unfolding Time_Unix_def by presburger

lemma Time_Unix_mono: "s \<le> t \<Longrightarrow> Time_Unix s \<le> Time_Unix t"
  unfolding Time_Unix_def by (rule zdiv_mono1) simp_all

lemma Time_Unix_less: "t < (Time_Unix t + 1) * 1000000000"
  unfolding Time_Unix_def by presburger

subsection \<open>Maps as association lists\<close>

text \<open>
  A \<open>range\<close> loop over a map that returns false at the first key whose claim differs:
  the loop of \<open>Rule.matches\<close> and of \<open>Verifier.Verify\<close>. The result is the offending key.
\<close>

fun first_mismatch :: "(string \<Rightarrow> string option) \<Rightarrow> go_map \<Rightarrow> string option" where
  "first_mismatch got [] = None"
| "first_mismatch got ((k, want) # rest) =
     (case got k of
        None \<Rightarrow> Some k
      | Some v \<Rightarrow> if v \<noteq> want then Some k else first_mismatch got rest)"

lemma first_mismatch_None_iff:
  "first_mismatch got m = None \<longleftrightarrow> (\<forall>(k, want) \<in> set m. got k = Some want)"
  by (induction got m rule: first_mismatch.induct) (auto split: option.splits)

lemma first_mismatch_Some:
  "first_mismatch got m = Some k \<Longrightarrow> \<exists>want. (k, want) \<in> set m \<and> got k \<noteq> Some want"
  by (induction got m rule: first_mismatch.induct) (auto split: option.splits if_splits)

text \<open>Whether the loop passes does not depend on the iteration order.\<close>

lemma first_mismatch_order:
  "set m = set m' \<Longrightarrow> (first_mismatch got m = None) = (first_mismatch got m' = None)"
  by (simp add: first_mismatch_None_iff)

subsection \<open>Lists\<close>

lemma hd_filter_split:
  "filter P xs = y # ys \<Longrightarrow> \<exists>us vs. xs = us @ y # vs \<and> (\<forall>u \<in> set us. \<not> P u) \<and> P y"
  by (auto simp: filter_eq_Cons_iff)

lemma set_concat_map: "set (concat (map f xs)) = (\<Union>x \<in> set xs. set (f x))"
  by auto

lemma concat_map_eq_Nil: "concat (map f xs) = [] \<longleftrightarrow> (\<forall>x \<in> set xs. f x = [])"
  by auto

lemma take_length_prefix: "take (length p) s = p \<longleftrightarrow> prefix p s"
  by (metis append_eq_conv_conj append_take_drop_id prefixE prefixI)

subsection \<open>Transition systems\<close>

text \<open>
  A transition system and an inductive invariant of it. The laws are the two obligations of an
  invariant proof; the lemmas carry the invariant to every reachable state. The JWKS cache and the
  authorizer with its reloads are interpretations.
\<close>

locale transition_system =
  fixes initial :: "'s \<Rightarrow> bool" and step :: "'s \<Rightarrow> 's \<Rightarrow> bool"
begin

definition reachable :: "'s \<Rightarrow> bool" where
  "reachable s \<longleftrightarrow> (\<exists>s0. initial s0 \<and> step\<^sup>*\<^sup>* s0 s)"

lemma reachable_initial: "initial s \<Longrightarrow> reachable s"
  by (auto simp: reachable_def)

lemma reachable_step: "reachable s \<Longrightarrow> step s t \<Longrightarrow> reachable t"
  by (auto simp: reachable_def intro: rtranclp.rtrancl_into_rtrancl)

lemma reachable_steps: "reachable s \<Longrightarrow> step\<^sup>*\<^sup>* s t \<Longrightarrow> reachable t"
  by (auto simp: reachable_def)

end

locale invariant_system = transition_system initial step
  for initial :: "'s \<Rightarrow> bool" and step :: "'s \<Rightarrow> 's \<Rightarrow> bool" +
  fixes inv :: "'s \<Rightarrow> bool"
  assumes inv_initial: "initial s \<Longrightarrow> inv s"
    and inv_step: "inv s \<Longrightarrow> step s t \<Longrightarrow> inv t"
begin

lemma inv_steps: "step\<^sup>*\<^sup>* s t \<Longrightarrow> inv s \<Longrightarrow> inv t"
  by (induction rule: rtranclp_induct) (auto intro: inv_step)

lemma inv_reachable: "reachable s \<Longrightarrow> inv s"
  by (auto simp: reachable_def intro: inv_steps inv_initial)

end

end
