(* ===== verification/GoStrings.thy ===== *)
theory GoStrings
  imports Prelude
begin

text \<open>
  The functions of Go's \<open>strings\<close>, \<open>strconv\<close> and \<open>path\<close> packages that the program calls. A Go
  string is its sequence of bytes, a \<open>char list\<close>. Separators in the program are always one
  byte long (\<open>"."\<close>, \<open>":"\<close>, \<open>"*"\<close>, \<open>"/"\<close>), so the splitting functions take a \<open>char\<close>.
\<close>

definition strings_HasPrefix :: "string \<Rightarrow> string \<Rightarrow> bool" where
  "strings_HasPrefix s p \<longleftrightarrow> take (length p) s = p"

definition strings_HasSuffix :: "string \<Rightarrow> string \<Rightarrow> bool" where
  "strings_HasSuffix s p \<longleftrightarrow> length p \<le> length s \<and> drop (length s - length p) s = p"

definition strings_CutPrefix :: "string \<Rightarrow> string \<Rightarrow> string option" where
  "strings_CutPrefix s p = (if strings_HasPrefix s p then Some (drop (length p) s) else None)"

definition strings_TrimSuffix :: "string \<Rightarrow> string \<Rightarrow> string" where
  "strings_TrimSuffix s p = (if strings_HasSuffix s p then take (length s - length p) s else s)"

fun strings_Contains :: "string \<Rightarrow> string \<Rightarrow> bool" where
  "strings_Contains [] sub \<longleftrightarrow> sub = []"
| "strings_Contains (c # s) sub \<longleftrightarrow> strings_HasPrefix (c # s) sub \<or> strings_Contains s sub"

definition strings_ContainsAny :: "string \<Rightarrow> string \<Rightarrow> bool" where
  "strings_ContainsAny s chars \<longleftrightarrow> list_ex (\<lambda>c. c \<in> set chars) s"

fun strings_Split :: "string \<Rightarrow> char \<Rightarrow> string list" where
  "strings_Split [] sep = [[]]"
| "strings_Split (c # s) sep =
     (if c = sep then [] # strings_Split s sep
      else case strings_Split s sep of
             [] \<Rightarrow> [[c]]
           | w # ws \<Rightarrow> (c # w) # ws)"

text \<open>\<open>strings.SplitN s sep n\<close> for \<open>n > 0\<close>: at most \<open>n\<close> parts, the last one unsplit.\<close>

fun strings_SplitN :: "string \<Rightarrow> char \<Rightarrow> nat \<Rightarrow> string list" where
  "strings_SplitN s sep 0 = []"
| "strings_SplitN s sep (Suc 0) = [s]"
| "strings_SplitN [] sep (Suc (Suc n)) = [[]]"
| "strings_SplitN (c # s) sep (Suc (Suc n)) =
     (if c = sep then [] # strings_SplitN s sep (Suc n)
      else case strings_SplitN s sep (Suc (Suc n)) of
             [] \<Rightarrow> [[c]]
           | w # ws \<Rightarrow> (c # w) # ws)"

fun strings_Join :: "string list \<Rightarrow> string \<Rightarrow> string" where
  "strings_Join [] sep = []"
| "strings_Join [w] sep = w"
| "strings_Join (w # ws) sep = w @ sep @ strings_Join ws sep"

text \<open>Decimal rendering of a non-negative integer, as \<open>fmt\<close>'s \<open>%d\<close> prints it.\<close>

definition digit_char :: "nat \<Rightarrow> char" where
  "digit_char d = char_of (48 + d)"

fun itoa :: "nat \<Rightarrow> string" where
  "itoa n = (if n < 10 then [digit_char n] else itoa (n div 10) @ [digit_char (n mod 10)])"

declare itoa.simps [simp del]

subsection \<open>Laws\<close>

lemma HasPrefix_iff_prefix: "strings_HasPrefix s p \<longleftrightarrow> prefix p s"
  by (simp add: strings_HasPrefix_def take_length_prefix)

lemma HasPrefix_append [simp]: "strings_HasPrefix (p @ s) p"
  by (simp add: strings_HasPrefix_def)

lemma HasSuffix_append [simp]: "strings_HasSuffix (s @ p) p"
  by (simp add: strings_HasSuffix_def)

lemma HasSuffix_iff_suffix: "strings_HasSuffix s p \<longleftrightarrow> suffix p s"
proof
  assume "strings_HasSuffix s p"
  then show "suffix p s"
    by (metis strings_HasSuffix_def suffix_drop)
next
  assume "suffix p s"
  then show "strings_HasSuffix s p" by (auto simp: suffix_def)
qed

lemma TrimSuffix_append [simp]: "strings_TrimSuffix (s @ p) p = s"
  by (simp add: strings_TrimSuffix_def)

lemma CutPrefix_Some_iff: "strings_CutPrefix s p = Some r \<longleftrightarrow> s = p @ r"
  unfolding strings_CutPrefix_def strings_HasPrefix_def
  by (metis append_eq_conv_conj option.distinct(1) option.inject)

lemma CutPrefix_None_iff: "strings_CutPrefix s p = None \<longleftrightarrow> \<not> strings_HasPrefix s p"
  by (simp add: strings_CutPrefix_def)

lemma Contains_single: "strings_Contains s [c] \<longleftrightarrow> c \<in> set s"
  by (induction s) (auto simp: strings_HasPrefix_def)

lemma Contains_iff_sublist: "strings_Contains s sub \<longleftrightarrow> sublist sub s"
  by (induction s) (auto simp: HasPrefix_iff_prefix sublist_Cons_right)

lemma ContainsAny_iff: "strings_ContainsAny s cs \<longleftrightarrow> (\<exists>c \<in> set s. c \<in> set cs)"
  by (auto simp: strings_ContainsAny_def list_ex_iff)

lemma Split_ne [simp]: "strings_Split s c \<noteq> []"
  by (cases s) (auto split: list.splits)

lemma SplitN_ne [simp]: "0 < n \<Longrightarrow> strings_SplitN s c n \<noteq> []"
  by (induction s c n rule: strings_SplitN.induct) (auto split: list.splits)

text \<open>Splitting and joining on the same separator is the identity.\<close>

lemma Join_Cons: "ws \<noteq> [] \<Longrightarrow> strings_Join (w # ws) sep = w @ sep @ strings_Join ws sep"
  by (cases ws) auto

lemma Join_Cons_char: "strings_Join ((c # w) # ws) sep = c # strings_Join (w # ws) sep"
  by (cases ws) auto

lemma Join_Split: "strings_Join (strings_Split s c) [c] = s"
  by (induction s) (auto simp: Join_Cons Join_Cons_char split: list.splits)

lemma Join_SplitN: "0 < n \<Longrightarrow> strings_Join (strings_SplitN s c n) [c] = s"
  by (induction s c n rule: strings_SplitN.induct)
     (auto simp: Join_Cons Join_Cons_char split: list.splits)

lemma Split_no_sep: "w \<in> set (strings_Split s c) \<Longrightarrow> c \<notin> set w"
  by (induction s arbitrary: w) (auto split: list.splits if_splits)

lemma length_SplitN_le: "length (strings_SplitN s c n) \<le> n"
  by (induction s c n rule: strings_SplitN.induct) (auto split: list.splits)

lemma SplitN_append:
  "c \<notin> set w \<Longrightarrow> strings_SplitN (w @ c # s) c (Suc (Suc n)) = w # strings_SplitN s c (Suc n)"
  by (induction w) auto

lemma SplitN_no_sep: "c \<notin> set w \<Longrightarrow> strings_SplitN w c (Suc (Suc n)) = [w]"
  by (induction w) auto

lemma Split_plain: "sep \<notin> set s \<Longrightarrow> strings_Split s sep = [s]"
  by (induction s sep rule: strings_Split.induct) auto

lemma Split_append:
  "sep \<notin> set s \<Longrightarrow> strings_Split (s @ sep # t) sep = s # strings_Split t sep"
  by (induction s sep rule: strings_Split.induct) auto

end
