(* ===== verification/GoUtf8.thy ===== *)
theory GoUtf8
  imports GoStrings
begin

text \<open>
  UTF-8 as the \<open>unicode/utf8\<close> package and the runtime's conversions treat it: encoding of a code
  point, decoding of the next rune of a byte string, and the sequence of runes of a string, where
  every byte that does not belong to a well-formed sequence counts as one U+FFFD. The lemmas say
  that decoding splits at every byte that is not a continuation byte, that it commutes with edits
  of the ASCII bytes, and that a valid string is the encoding of its runes.
\<close>

definition byte :: "char \<Rightarrow> nat" where "byte c = of_char c"

definition utf8_encode :: "nat \<Rightarrow> string" where
  "utf8_encode r =
     (if r < 128 then [char_of r]
      else if r < 2048 then [char_of (192 + r div 64), char_of (128 + r mod 64)]
      else if r < 65536
      then [char_of (224 + r div 4096), char_of (128 + r div 64 mod 64), char_of (128 + r mod 64)]
      else [char_of (240 + r div 262144), char_of (128 + r div 4096 mod 64),
            char_of (128 + r div 64 mod 64), char_of (128 + r mod 64)])"

text \<open>Length of the well-formed multi-byte sequence a string starts with; 0 if there is none.\<close>

definition utf8_len :: "string \<Rightarrow> nat" where
  "utf8_len s =
     (let b = (\<lambda>i. byte (s ! i)); n = length s; tail = (\<lambda>i. 128 \<le> b i \<and> b i \<le> 191)
      in if n = 0 then 0
         else if 194 \<le> b 0 \<and> b 0 \<le> 223 then (if 2 \<le> n \<and> tail 1 then 2 else 0)
         else if 224 \<le> b 0 \<and> b 0 \<le> 239
         then (if 3 \<le> n \<and> tail 1 \<and> tail 2 \<and> (b 0 = 224 \<longrightarrow> 160 \<le> b 1) \<and> (b 0 = 237 \<longrightarrow> b 1 \<le> 159)
               then 3 else 0)
         else if 240 \<le> b 0 \<and> b 0 \<le> 244
         then (if 4 \<le> n \<and> tail 1 \<and> tail 2 \<and> tail 3 \<and> (b 0 = 240 \<longrightarrow> 144 \<le> b 1) \<and> (b 0 = 244 \<longrightarrow> b 1 \<le> 143)
               then 4 else 0)
         else 0)"

definition RuneError :: nat where "RuneError = 65533"

text \<open>The first rune of a string and its width in bytes.\<close>

definition DecodeRuneInString :: "string \<Rightarrow> nat \<times> nat" where
  "DecodeRuneInString s =
     (let b = (\<lambda>i. byte (s ! i))
      in if s = [] then (RuneError, 0)
         else if b 0 < 128 then (b 0, 1)
         else if utf8_len s = 2 then ((b 0 - 192) * 64 + (b 1 - 128), 2)
         else if utf8_len s = 3 then ((b 0 - 224) * 4096 + (b 1 - 128) * 64 + (b 2 - 128), 3)
         else if utf8_len s = 4
         then ((b 0 - 240) * 262144 + (b 1 - 128) * 4096 + (b 2 - 128) * 64 + (b 3 - 128), 4)
         else (RuneError, 1))"

lemma utf8_len_cases:
  "utf8_len s = 0 \<or> utf8_len s = 2 \<or> utf8_len s = 3 \<or> utf8_len s = 4"
  by (simp add: utf8_len_def Let_def)

lemma utf8_len_le: "utf8_len s \<le> length s"
  by (simp add: utf8_len_def Let_def)

lemma rune_width:
  "s \<noteq> [] \<Longrightarrow> 0 < snd (DecodeRuneInString s) \<and> snd (DecodeRuneInString s) \<le> length s"
  using utf8_len_le [of s] by (auto simp: DecodeRuneInString_def Let_def Suc_le_eq)

text \<open>The runes of a string with their widths.\<close>

function decode :: "string \<Rightarrow> (nat \<times> nat) list" where
  "decode s =
     (if s = [] then []
      else DecodeRuneInString s # decode (drop (snd (DecodeRuneInString s)) s))"
  by pat_completeness auto
termination
  by (relation "measure length") (auto simp: rune_width)

declare decode.simps [simp del]

definition runes :: "string \<Rightarrow> nat list" where
  "runes s = map fst (decode s)"

definition valid_utf8 :: "string \<Rightarrow> bool" where
  "valid_utf8 s \<longleftrightarrow> (RuneError, 1) \<notin> set (decode s)"

text \<open>The byte offset of the rune at index \<open>i\<close>.\<close>

definition rune_offset :: "string \<Rightarrow> nat \<Rightarrow> nat" where
  "rune_offset s i = sum_list (map snd (take i (decode s)))"

subsection \<open>Widths and offsets\<close>

lemma decode_Nil [simp]: "decode [] = []"
  by (simp add: decode.simps)

lemma decode_eq_Nil [simp]: "decode s = [] \<longleftrightarrow> s = []"
  by (subst decode.simps) simp

lemma decode_widths: "\<forall>(r, n) \<in> set (decode s). 0 < n"
proof (induction s rule: decode.induct)
  case (1 s)
  show ?case
  proof (cases "s = []")
    case False
    with 1 [OF False] rune_width [OF False] show ?thesis
      by (subst decode.simps) (auto split: prod.splits)
  qed simp
qed

lemma sum_widths: "sum_list (map snd (decode s)) = length s"
proof (induction s rule: decode.induct)
  case (1 s)
  show ?case
  proof (cases "s = []")
    case False
    with 1 [OF False] rune_width [OF False] show ?thesis
      by (subst decode.simps) simp
  qed simp
qed

lemma sum_list_take_less:
  fixes xs :: "nat list"
  assumes "\<forall>x \<in> set xs. 0 < x" and "i < length xs"
  shows "sum_list (take i xs) < sum_list xs"
proof -
  from assms(2) have "xs ! i \<in> set xs" by simp
  with assms(1) have "0 < xs ! i" by blast
  moreover have "sum_list xs = sum_list (take i xs) + (xs ! i + sum_list (drop (Suc i) xs))"
    using assms(2) by (metis Cons_nth_drop_Suc append_take_drop_id sum_list.Cons sum_list_append)
  ultimately show ?thesis by simp
qed

lemma rune_offset_0 [simp]: "rune_offset s 0 = 0"
  by (simp add: rune_offset_def)

lemma rune_offset_end [simp]: "rune_offset s (length (runes s)) = length s"
  by (simp add: rune_offset_def runes_def sum_widths)

lemma rune_offset_less: "i < length (runes s) \<Longrightarrow> rune_offset s i < length s"
  using sum_list_take_less [of "map snd (decode s)" i] decode_widths [of s]
  by (fastforce simp: rune_offset_def runes_def take_map sum_widths)

lemma rune_offset_eq_length: "i \<le> length (runes s) \<Longrightarrow> rune_offset s i = length s \<longleftrightarrow> i = length (runes s)"
  using rune_offset_less [of i s] by (cases "i = length (runes s)") auto

lemma rune_offset_mono: "i \<le> j \<Longrightarrow> rune_offset s i \<le> rune_offset s j"
  unfolding rune_offset_def
  by (metis le_add1 le_add_diff_inverse map_append sum_list_append take_add)

lemma rune_offset_eq_0: "i \<le> length (runes s) \<Longrightarrow> rune_offset s i = 0 \<longleftrightarrow> i = 0"
proof (cases "decode s")
  case (Cons x xs)
  with decode_widths [of s] show ?thesis by (cases i) (auto simp: rune_offset_def)
qed (simp add: runes_def)

subsection \<open>Where decoding splits\<close>

definition continuation :: "char \<Rightarrow> bool" where
  "continuation c \<longleftrightarrow> 128 \<le> byte c \<and> byte c \<le> 191"

definition rune_start :: "string \<Rightarrow> bool" where
  "rune_start s \<longleftrightarrow> (s \<noteq> [] \<longrightarrow> \<not> continuation (hd s))"

definition is_ascii :: "char \<Rightarrow> bool" where
  "is_ascii c \<longleftrightarrow> byte c < 128"

lemma rune_start_ascii: "is_ascii c \<Longrightarrow> rune_start (c # s)"
  by (simp add: rune_start_def is_ascii_def continuation_def)

lemma char_of_byte [simp]: "char_of (byte c) = c"
  by (simp add: byte_def)

lemma list_4_cases:
  obtains "s = []" | a where "s = [a]" | a b where "s = [a, b]" | a b c where "s = [a, b, c]"
  | a b c d t where "s = a # b # c # d # t"
proof -
  have "s = [] \<or> (\<exists>a. s = [a]) \<or> (\<exists>a b. s = [a, b]) \<or> (\<exists>a b c. s = [a, b, c]) \<or>
      (\<exists>a b c d t. s = a # b # c # d # t)"
    by (rule list.exhaust [of s], blast, rename_tac a t, case_tac t, blast, rename_tac b u, case_tac u,
        blast, rename_tac c v, case_tac v, blast, blast)
  then show thesis using that by blast
qed

lemma utf8_len_alt:
  "utf8_len s =
     (let b = byte (s ! 0); t = (\<lambda>i. i < length s \<and> continuation (s ! i))
      in if s = [] then 0
         else if 194 \<le> b \<and> b \<le> 223 then (if t 1 then 2 else 0)
         else if 224 \<le> b \<and> b \<le> 239
         then (if t 1 \<and> t 2 \<and> (b = 224 \<longrightarrow> 160 \<le> byte (s ! 1)) \<and> (b = 237 \<longrightarrow> byte (s ! 1) \<le> 159)
               then 3 else 0)
         else if 240 \<le> b \<and> b \<le> 244
         then (if t 1 \<and> t 2 \<and> t 3 \<and> (b = 240 \<longrightarrow> 144 \<le> byte (s ! 1)) \<and> (b = 244 \<longrightarrow> byte (s ! 1) \<le> 143)
               then 4 else 0)
         else 0)"
  unfolding utf8_len_def Let_def continuation_def by (intro if_cong refl) auto

lemma utf8_len_append:
  assumes "u \<noteq> []" and "rune_start v"
  shows "utf8_len (u @ v) = utf8_len u"
  using assms
  by (cases u rule: list_4_cases; cases v) (simp_all add: utf8_len_alt Let_def rune_start_def)

lemma utf8_len_2: "utf8_len s = 2 \<Longrightarrow> 194 \<le> byte (s ! 0) \<and> byte (s ! 0) \<le> 223 \<and> continuation (s ! 1)"
  by (simp add: utf8_len_alt Let_def split: if_splits)

lemma utf8_len_3: "utf8_len s = 3 \<Longrightarrow> 224 \<le> byte (s ! 0) \<and> byte (s ! 0) \<le> 239 \<and>
    continuation (s ! 1) \<and> continuation (s ! 2) \<and> (byte (s ! 0) = 224 \<longrightarrow> 160 \<le> byte (s ! 1))"
  by (simp add: utf8_len_alt Let_def split: if_splits)

lemma utf8_len_4: "utf8_len s = 4 \<Longrightarrow> 240 \<le> byte (s ! 0) \<and> byte (s ! 0) \<le> 244 \<and>
    continuation (s ! 1) \<and> continuation (s ! 2) \<and> continuation (s ! 3) \<and>
    (byte (s ! 0) = 240 \<longrightarrow> 144 \<le> byte (s ! 1)) \<and> (byte (s ! 0) = 244 \<longrightarrow> byte (s ! 1) \<le> 143)"
  by (simp add: utf8_len_alt Let_def split: if_splits)

lemma rune_append:
  assumes "u \<noteq> []" and "rune_start v"
  shows "DecodeRuneInString (u @ v) = DecodeRuneInString u"
proof -
  have "(u @ v) ! i = u ! i" if "i < utf8_len u" for i
    using that utf8_len_le [of u] by (simp add: nth_append)
  moreover have "(u @ v) ! 0 = u ! 0" using assms(1) by (simp add: nth_append)
  ultimately show ?thesis
    using assms(1) by (simp add: DecodeRuneInString_def Let_def utf8_len_append [OF assms])
qed

lemma decode_append: "rune_start v \<Longrightarrow> decode (u @ v) = decode u @ decode v"
proof (induction u rule: decode.induct)
  case (1 u)
  show ?case
  proof (cases "u = []")
    case False
    let ?n = "snd (DecodeRuneInString u)"
    have "drop ?n (u @ v) = drop ?n u @ v" using rune_width [OF False] by simp
    with False 1 rune_append [OF False 1(2)] show ?thesis
      by (subst (1 2) decode.simps) simp
  qed simp
qed

lemma decode_ascii [simp]: "is_ascii c \<Longrightarrow> decode (c # s) = (byte c, 1) # decode s"
  by (subst decode.simps) (simp add: DecodeRuneInString_def is_ascii_def)

lemma decode_at_ascii: "is_ascii c \<Longrightarrow> decode (u @ c # v) = decode u @ (byte c, 1) # decode v"
  by (simp add: decode_append rune_start_ascii)

lemma decode_all_ascii: "list_all is_ascii s \<Longrightarrow> decode s = map (\<lambda>c. (byte c, 1)) s"
  by (induction s) simp_all

lemma decode_ascii_append: "list_all is_ascii u \<Longrightarrow> decode (u @ v) = map (\<lambda>c. (byte c, 1)) u @ decode v"
  by (induction u) simp_all

lemma rune_non_ascii:
  assumes "s \<noteq> []" and "\<not> is_ascii (hd s)"
  shows "128 \<le> fst (DecodeRuneInString s)"
proof -
  have b: "128 \<le> byte (s ! 0)" using assms by (simp add: is_ascii_def hd_conv_nth)
  consider "utf8_len s = 0" | "utf8_len s = 2" | "utf8_len s = 3" | "utf8_len s = 4"
    using utf8_len_cases [of s] by metis
  then show ?thesis
  proof cases
    case 1
    with assms b show ?thesis by (simp add: DecodeRuneInString_def RuneError_def Let_def)
  next
    case 2
    with utf8_len_2 [OF 2] assms b show ?thesis by (auto simp: DecodeRuneInString_def Let_def)
  next
    case 3
    with utf8_len_3 [OF 3] assms b show ?thesis
      by (cases "byte (s ! 0) = 224") (auto simp: DecodeRuneInString_def Let_def)
  next
    case 4
    with utf8_len_4 [OF 4] assms b show ?thesis
      by (cases "byte (s ! 0) = 240") (auto simp: DecodeRuneInString_def Let_def)
  qed
qed

lemma decode_non_ascii: "\<forall>c \<in> set s. \<not> is_ascii c \<Longrightarrow> \<forall>(r, n) \<in> set (decode s). 128 \<le> r"
proof (induction s rule: decode.induct)
  case (1 s)
  show ?case
  proof (cases "s = []")
    case False
    let ?t = "drop (snd (DecodeRuneInString s)) s"
    have "\<forall>c \<in> set ?t. \<not> is_ascii c" using 1(2) by (meson in_set_dropD)
    then have t: "\<forall>(r, n) \<in> set (decode ?t). 128 \<le> r" by (rule 1(1) [OF False])
    have "128 \<le> fst (DecodeRuneInString s)" using rune_non_ascii [OF False] 1(2) False by simp
    moreover have "decode s = DecodeRuneInString s # decode ?t"
      using False by (subst decode.simps) simp
    ultimately show ?thesis using t by (simp add: case_prod_unfold)
  qed simp
qed

text \<open>A string is a run of non-ASCII bytes, possibly followed by an ASCII byte and another string.\<close>

lemma ascii_split_induct [case_names none split]:
  assumes "\<And>u. \<forall>c \<in> set u. \<not> is_ascii c \<Longrightarrow> P u"
    and "\<And>u c v. \<forall>x \<in> set u. \<not> is_ascii x \<Longrightarrow> is_ascii c \<Longrightarrow> P v \<Longrightarrow> P (u @ c # v)"
  shows "P s"
proof (induction "length s" arbitrary: s rule: less_induct)
  case less
  show ?case
  proof (cases "\<exists>c \<in> set s. is_ascii c")
    case True
    then have "\<exists>u c v. s = u @ c # v \<and> is_ascii c \<and> (\<forall>x \<in> set u. \<not> is_ascii x)"
      by (rule split_list_first_prop)
    then obtain u c v where s: "s = u @ c # v" and c: "is_ascii c" and u: "\<forall>x \<in> set u. \<not> is_ascii x"
      by blast
    have "P v" by (rule less) (simp add: s)
    then show ?thesis unfolding s by (rule assms(2) [OF u c])
  qed (simp add: assms(1))
qed

text \<open>Editing the ASCII bytes of a string edits the ASCII runes.\<close>

lemma decode_edit:
  assumes "\<And>c. is_ascii c \<Longrightarrow> f c \<noteq> [] \<and> list_all is_ascii (f c)" and "\<And>c. \<not> is_ascii c \<Longrightarrow> f c = [c]"
  shows "decode (concat (map f s)) =
    concat (map (\<lambda>(r, n). if r < 128 then map (\<lambda>c. (byte c, 1)) (f (char_of r)) else [(r, n)]) (decode s))"
    (is "_ = concat (map ?g _)")
proof (induction s rule: ascii_split_induct)
  case (none u)
  then have "concat (map f u) = u" by (induction u) (simp_all add: assms(2))
  moreover have "concat (map ?g xs) = xs" if "\<forall>(r, n) \<in> set xs. 128 \<le> r" for xs
    using that by (induction xs) auto
  ultimately show ?case using decode_non_ascii [OF none] by simp
next
  case (split u c v)
  from split(1) have u: "concat (map f u) = u" by (induction u) (simp_all add: assms(2))
  have g: "concat (map ?g xs) = xs" if "\<forall>(r, n) \<in> set xs. 128 \<le> r" for xs
    using that by (induction xs) auto
  from assms(1) [OF split(2)] obtain d ds where fc: "f c = d # ds" and d: "is_ascii d"
    and all: "list_all is_ascii (f c)" by (cases "f c") auto
  have "decode (concat (map f (u @ c # v))) = decode u @ decode (f c @ concat (map f v))"
    using u by (simp add: fc decode_at_ascii [OF d] d)
  also have "\<dots> = decode u @ map (\<lambda>c. (byte c, 1)) (f c) @ decode (concat (map f v))"
    by (simp only: decode_ascii_append [OF all])
  finally show ?case
    using split g [OF decode_non_ascii [OF split(1)]] split(2)
    by (simp add: decode_at_ascii is_ascii_def)
qed

subsection \<open>A valid string is the encoding of its runes\<close>

lemma char_of_add_byte: "n \<le> byte c \<Longrightarrow> char_of (n + (byte c - n)) = c"
  by simp

lemma continuationD: "continuation c \<Longrightarrow> 128 \<le> byte c \<and> byte c - 128 < 64"
  by (auto simp: continuation_def)

lemma div_mod_64:
  fixes x y :: nat
  assumes "y < 64"
  shows "(x * 64 + y) div 64 = x" and "(x * 64 + y) mod 64 = y"
  using assms by simp_all

lemma encode_2:
  assumes "2 \<le> x" and "x < 32" and "y < 64"
  shows "utf8_encode (x * 64 + y) = [char_of (192 + x), char_of (128 + y)]"
proof -
  from assms have "128 \<le> x * 64 + y" "x * 64 + y < 2048" by linarith+
  with assms(3) show ?thesis by (simp add: utf8_encode_def div_mod_64)
qed

lemma encode_3:
  assumes "x < 16" and "y < 64" and "z < 64" and "x = 0 \<longrightarrow> 32 \<le> y"
  shows "utf8_encode (x * 4096 + y * 64 + z) = [char_of (224 + x), char_of (128 + y), char_of (128 + z)]"
proof -
  define r where "r = x * 4096 + y * 64 + z"
  have r: "r = (x * 64 + y) * 64 + z" by (simp add: r_def)
  have low: "r div 64 = x * 64 + y" "r mod 64 = z"
    using assms(3) unfolding r by (simp_all only: div_mod_64)
  have "r div 4096 = r div 64 div 64" by (simp add: div_mult2_eq [symmetric])
  then have high: "r div 4096 = x" "r div 64 mod 64 = y"
    using assms(2) unfolding low by (simp_all only: div_mod_64)
  from assms have "x \<le> 15" "y \<le> 63" "z \<le> 63" "1 \<le> x \<or> 32 \<le> y" by auto
  then have "2048 \<le> r" "r < 65536" unfolding r_def by auto
  with low high show ?thesis unfolding r_def [symmetric] by (simp add: utf8_encode_def)
qed

lemma encode_4:
  assumes "x < 8" and "y < 64" and "z < 64" and "w < 64" and "x = 0 \<longrightarrow> 16 \<le> y"
  shows "utf8_encode (x * 262144 + y * 4096 + z * 64 + w) =
    [char_of (240 + x), char_of (128 + y), char_of (128 + z), char_of (128 + w)]"
proof -
  define q where "q = (x * 64 + y) * 64 + z"
  define r where "r = x * 262144 + y * 4096 + z * 64 + w"
  have r: "r = q * 64 + w" by (simp add: r_def q_def)
  have low: "r div 64 = q" "r mod 64 = w"
    using assms(4) unfolding r by (simp_all only: div_mod_64)
  have mid: "q div 64 = x * 64 + y" "q mod 64 = z"
    using assms(3) unfolding q_def by (simp_all only: div_mod_64)
  have "r div 4096 = r div 64 div 64" "r div 262144 = r div 64 div 64 div 64"
    by (simp_all add: div_mult2_eq [symmetric])
  then have "r div 262144 = x" "r div 4096 mod 64 = y" "r div 64 mod 64 = z"
    using assms(2) unfolding low mid by (simp_all only: div_mod_64)
  moreover from assms(5) have "1 \<le> x \<or> 16 \<le> y" by auto
  then have "65536 \<le> r" unfolding r_def by auto
  ultimately show ?thesis using low unfolding r_def [symmetric] by (simp add: utf8_encode_def)
qed

lemma take_nth_2: "2 \<le> length s \<Longrightarrow> take 2 s = [s ! 0, s ! 1]"
  by (cases s rule: list_4_cases) simp_all

lemma take_nth_3: "3 \<le> length s \<Longrightarrow> take 3 s = [s ! 0, s ! 1, s ! 2]"
  by (cases s rule: list_4_cases) simp_all

lemma take_nth_4: "4 \<le> length s \<Longrightarrow> take 4 s = [s ! 0, s ! 1, s ! 2, s ! 3]"
  by (cases s rule: list_4_cases) simp_all

lemma rune_encode:
  assumes "s \<noteq> []" and "DecodeRuneInString s \<noteq> (RuneError, 1)"
  shows "utf8_encode (fst (DecodeRuneInString s)) = take (snd (DecodeRuneInString s)) s"
proof (cases "byte (s ! 0) < 128")
  case True
  with assms(1) show ?thesis
    by (cases s) (simp_all add: DecodeRuneInString_def utf8_encode_def)
next
  case False
  with assms consider "utf8_len s = 2" | "utf8_len s = 3" | "utf8_len s = 4"
    using utf8_len_cases [of s] by (auto simp: DecodeRuneInString_def Let_def)
  then show ?thesis
  proof cases
    case 1
    have d: "DecodeRuneInString s =
        ((byte (s ! 0) - 192) * 64 + (byte (s ! 1) - 128), 2)"
      using 1 False assms(1) by (simp add: DecodeRuneInString_def Let_def)
    from utf8_len_2 [OF 1] have "utf8_encode (fst (DecodeRuneInString s)) = [s ! 0, s ! 1]"
      unfolding d fst_conv by (subst encode_2) (auto simp: char_of_add_byte dest!: continuationD)
    then show ?thesis using d take_nth_2 [of s] utf8_len_le [of s] 1 by simp
  next
    case 2
    have d: "DecodeRuneInString s =
        ((byte (s ! 0) - 224) * 4096 + (byte (s ! 1) - 128) * 64 + (byte (s ! 2) - 128), 3)"
      using 2 False assms(1) by (simp add: DecodeRuneInString_def Let_def)
    from utf8_len_3 [OF 2] have "utf8_encode (fst (DecodeRuneInString s)) = [s ! 0, s ! 1, s ! 2]"
      unfolding d fst_conv by (subst encode_3) (auto simp: char_of_add_byte dest!: continuationD)
    then show ?thesis using d take_nth_3 [of s] utf8_len_le [of s] 2 by simp
  next
    case 3
    have d: "DecodeRuneInString s =
        ((byte (s ! 0) - 240) * 262144 + (byte (s ! 1) - 128) * 4096 + (byte (s ! 2) - 128) * 64 + (byte (s ! 3) - 128), 4)"
      using 3 False assms(1) by (simp add: DecodeRuneInString_def Let_def)
    from utf8_len_4 [OF 3] have "utf8_encode (fst (DecodeRuneInString s)) = [s ! 0, s ! 1, s ! 2, s ! 3]"
      unfolding d fst_conv by (subst encode_4) (auto simp: char_of_add_byte dest!: continuationD)
    then show ?thesis using d take_nth_4 [of s] utf8_len_le [of s] 3 by simp
  qed
qed

lemma encode_runes: "valid_utf8 s \<Longrightarrow> concat (map utf8_encode (runes s)) = s"
proof (induction s rule: decode.induct)
  case (1 s)
  show ?case
  proof (cases "s = []")
    case False
    let ?d = "DecodeRuneInString s"
    have step: "decode s = ?d # decode (drop (snd ?d) s)"
      using False by (subst decode.simps) simp
    with 1(2) have ok: "?d \<noteq> (RuneError, 1)" and v: "valid_utf8 (drop (snd ?d) s)"
      by (auto simp: valid_utf8_def)
    from 1(1) [OF False v] rune_encode [OF False ok] show ?thesis
      by (simp add: runes_def step)
  qed (simp add: runes_def)
qed

lemma runes_inject: "valid_utf8 s \<Longrightarrow> valid_utf8 t \<Longrightarrow> runes s = runes t \<Longrightarrow> s = t"
  by (metis encode_runes)

subsection \<open>Runes and ASCII\<close>

lemma runes_Nil [simp]: "runes [] = []"
  by (simp add: runes_def)

lemma runes_Cons [simp]: "is_ascii c \<Longrightarrow> runes (c # s) = byte c # runes s"
  by (simp add: runes_def)

lemma runes_at_ascii: "is_ascii c \<Longrightarrow> runes (u @ c # v) = runes u @ byte c # runes v"
  by (simp add: runes_def decode_at_ascii)

lemma runes_all_ascii: "list_all is_ascii s \<Longrightarrow> runes s = map byte s"
  by (simp add: runes_def decode_all_ascii)

lemma valid_all_ascii: "list_all is_ascii s \<Longrightarrow> valid_utf8 s"
  by (auto simp: valid_utf8_def decode_all_ascii list_all_iff is_ascii_def RuneError_def)

text \<open>The ASCII runes of a string are its ASCII bytes.\<close>

lemma runes_member_ascii: "is_ascii c \<Longrightarrow> byte c \<in> set (runes s) \<longleftrightarrow> c \<in> set s"
proof (induction s rule: ascii_split_induct)
  case (none u)
  then show ?case using decode_non_ascii [OF none(1)] by (fastforce simp: runes_def is_ascii_def)
next
  case (split u d v)
  then show ?case
    using decode_non_ascii [OF split(1)]
    by (fastforce simp: runes_def decode_at_ascii is_ascii_def byte_def)
qed

lemma all_runes_ascii: "\<forall>r \<in> set (runes s). r < 128 \<Longrightarrow> list_all is_ascii s"
proof (induction s rule: ascii_split_induct)
  case (none u)
  then show ?case
    using decode_non_ascii [OF none(1)] by (cases "decode u") (fastforce simp: runes_def)+
next
  case (split u c v)
  from split(4) have "\<forall>r \<in> set (runes u). r < 128" and v: "\<forall>r \<in> set (runes v). r < 128"
    by (simp_all add: runes_at_ascii split(2))
  with decode_non_ascii [OF split(1)] have "decode u = []"
    by (cases "decode u") (fastforce simp: runes_def)+
  with split(2) split(3) [OF v] show ?case by simp
qed

text \<open>A string whose runes are those of an ASCII string is that string.\<close>

lemma runes_eq_ascii:
  assumes "runes s = runes a" and "list_all is_ascii a"
  shows "s = a"
proof -
  from assms have eq: "runes s = map byte a" by (simp add: runes_all_ascii)
  with assms(2) have "\<forall>r \<in> set (runes s). r < 128" by (auto simp: list_all_iff is_ascii_def)
  then have "list_all is_ascii s" by (rule all_runes_ascii)
  then have "map byte s = map byte a" using eq by (simp add: runes_all_ascii)
  then have "map char_of (map byte s) = map char_of (map byte a)" by simp
  then show ?thesis by (simp add: comp_def)
qed

text \<open>Where the runes of a string can be split at an ASCII rune, so can the string.\<close>

lemma runes_splitE:
  assumes "runes s = u @ byte c # v" and "is_ascii c"
  obtains x y where "s = x @ c # y" and "runes x = u" and "runes y = v"
proof -
  have "\<exists>x y. s = x @ c # y \<and> runes x = u \<and> runes y = v"
    using assms(1)
  proof (induction s arbitrary: u rule: ascii_split_induct)
    case (none w)
    from none(2) have "byte c \<in> set (runes w)" by simp
    with runes_member_ascii [OF assms(2), of w] none(1) assms(2) show ?case by blast
  next
    case (split w d z)
    have w: "byte c \<notin> set (runes w)" using runes_member_ascii [OF assms(2), of w] split(1) assms(2) by blast
    have eq: "runes w @ byte d # runes z = u @ byte c # v"
      using split(4) by (simp add: runes_at_ascii [OF split(2)])
    then consider (here) "runes w = u" | (before) u' where "runes w = u @ byte c # u'"
      | (after) u' where "u = runes w @ byte d # u'" "runes z = u' @ byte c # v"
      by (auto simp: append_eq_append_conv2 Cons_eq_append_conv append_eq_Cons_conv)
    then show ?case
    proof cases
      case here
      with eq have "c = d" "runes z = v" by (simp_all add: byte_def)
      with here show ?thesis by blast
    next
      case before
      with w show ?thesis by simp
    next
      case (after u')
      from split(3) [OF after(2)] obtain x y where "z = x @ c # y" "runes x = u'" "runes y = v" by blast
      then have "w @ d # z = (w @ d # x) @ c # y" and "runes (w @ d # x) = u"
        using after(1) by (simp_all add: runes_at_ascii [OF split(2)])
      with \<open>runes y = v\<close> show ?thesis by blast
    qed
  qed
  with that show thesis by blast
qed

end
