(* ===== verification/GoJson.thy ===== *)
theory GoJson
  imports GoUtf8 "HOL-Library.AList"
begin

text \<open>
  The part of \<open>encoding/json\<close> and \<open>encoding/base64\<close> the program uses to read tokens: a JSON
  reader that produces the tree of a value (numbers kept as their literal, as with
  \<open>UseNumber\<close>), the decoding of objects into Go maps and into struct fields, and unpadded URL
  base64. Strings are byte sequences; escapes produce UTF-8 and invalid UTF-8 is replaced by
  U+FFFD, as the package does.
\<close>

datatype json =
    JNull
  | JBool bool
  | JNum string
  | JStr string
  | JArr "json list"
  | JObj "(string \<times> json) list"

definition json_space :: "char \<Rightarrow> bool" where
  "json_space c \<longleftrightarrow> c \<in> set [CHR 0x20, CHR 0x09, CHR 0x0D, CHR 0x0A]"

definition skip_ws :: "string \<Rightarrow> string" where
  "skip_ws s = dropWhile json_space s"

definition json_digit :: "char \<Rightarrow> bool" where
  "json_digit c \<longleftrightarrow> 48 \<le> byte c \<and> byte c \<le> 57"

definition hex_value :: "char \<Rightarrow> nat option" where
  "hex_value c =
     (if 48 \<le> byte c \<and> byte c \<le> 57 then Some (byte c - 48)
      else if 97 \<le> byte c \<and> byte c \<le> 102 then Some (byte c - 87)
      else if 65 \<le> byte c \<and> byte c \<le> 70 then Some (byte c - 55)
      else None)"

subsection \<open>Strings\<close>

definition prepend :: "string \<Rightarrow> (string \<times> string) option \<Rightarrow> (string \<times> string) option" where
  "prepend p r = map_option (\<lambda>(body, rest). (p @ body, rest)) r"

text \<open>The body of a string literal up to its closing quote, escapes checked but not resolved.\<close>

function scan_body :: "string \<Rightarrow> (string \<times> string) option" where
  "scan_body s =
     (case s of
        [] \<Rightarrow> None
      | c # cs \<Rightarrow>
          if c = CHR 0x22 then Some ([], cs)
          else if c = CHR 0x5C
          then (case cs of
                  [] \<Rightarrow> None
                | e # ds \<Rightarrow>
                    if e \<in> set [CHR 0x22, CHR 0x5C, CHR ''/'', CHR ''b'', CHR ''f'', CHR ''n'', CHR ''r'', CHR ''t'']
                    then prepend [c, e] (scan_body ds)
                    else if e = CHR ''u'' \<and> 4 \<le> length ds \<and> list_all (\<lambda>h. hex_value h \<noteq> None) (take 4 ds)
                    then prepend (c # e # take 4 ds) (scan_body (drop 4 ds))
                    else None)
          else if byte c < 32 then None
          else prepend [c] (scan_body cs))"
  by pat_completeness auto
termination
  by (relation "measure length") auto

declare scan_body.simps [simp del]

definition getu4 :: "string \<Rightarrow> nat option" where
  "getu4 s =
     (if 6 \<le> length s \<and> take 2 s = [CHR 0x5C, CHR ''u''] \<and>
         list_all (\<lambda>h. hex_value h \<noteq> None) (take 4 (drop 2 s))
      then Some (foldl (\<lambda>n h. 16 * n + the (hex_value h)) 0 (take 4 (drop 2 s)))
      else None)"

definition replacement :: string where "replacement = utf8_encode 65533"

definition surrogate :: "nat \<Rightarrow> bool" where
  "surrogate r \<longleftrightarrow> 55296 \<le> r \<and> r < 57344"

definition utf16_DecodeRune :: "nat \<Rightarrow> nat \<Rightarrow> nat option" where
  "utf16_DecodeRune r1 r2 =
     (if 55296 \<le> r1 \<and> r1 < 56320 \<and> 56320 \<le> r2 \<and> r2 < 57344
      then Some ((r1 - 55296) * 1024 + (r2 - 56320) + 65536) else None)"

definition escape_byte :: "char \<Rightarrow> char" where
  "escape_byte e =
     (if e = CHR ''b'' then CHR 0x08
      else if e = CHR ''f'' then CHR 0x0C
      else if e = CHR ''n'' then CHR 0x0A
      else if e = CHR ''r'' then CHR 0x0D
      else if e = CHR ''t'' then CHR 0x09
      else e)"

text \<open>The string a scanned body denotes.\<close>

function unquote :: "string \<Rightarrow> string" where
  "unquote s =
     (case s of
        [] \<Rightarrow> []
      | c # cs \<Rightarrow>
          if c = CHR 0x5C
          then (case getu4 s of
                  Some r \<Rightarrow>
                    if surrogate r
                    then (case getu4 (drop 6 s) of
                            Some r' \<Rightarrow>
                              (case utf16_DecodeRune r r' of
                                 Some d \<Rightarrow> utf8_encode d @ unquote (drop 12 s)
                               | None \<Rightarrow> replacement @ unquote (drop 6 s))
                          | None \<Rightarrow> replacement @ unquote (drop 6 s))
                    else utf8_encode r @ unquote (drop 6 s)
                | None \<Rightarrow>
                    (case cs of [] \<Rightarrow> [] | e # ds \<Rightarrow> escape_byte e # unquote ds))
          else if byte c < 128 then c # unquote cs
          else if utf8_len s = 0 then replacement @ unquote cs
          else take (utf8_len s) s @ unquote (drop (utf8_len s) s))"
  by pat_completeness auto
termination
  by (relation "measure length") auto

declare unquote.simps [simp del]

subsection \<open>Numbers and values\<close>

text \<open>A number literal: sign, integer part without leading zeros, fraction, exponent.\<close>

definition digits_of :: "string \<Rightarrow> string \<times> string" where
  "digits_of s = (takeWhile json_digit s, dropWhile json_digit s)"

definition sign_part :: "string \<Rightarrow> string \<Rightarrow> string \<times> string" where
  "sign_part signs s = (if s \<noteq> [] \<and> hd s \<in> set signs then ([hd s], tl s) else ([], s))"

definition int_part :: "string \<Rightarrow> (string \<times> string) option" where
  "int_part s =
     (if s \<noteq> [] \<and> hd s = CHR ''0'' then Some (''0'', tl s)
      else if fst (digits_of s) = [] then None
      else Some (digits_of s))"

definition frac_part :: "string \<Rightarrow> (string \<times> string) option" where
  "frac_part s =
     (if s \<noteq> [] \<and> hd s = CHR ''.''
      then (if fst (digits_of (tl s)) = [] then None
            else Some (CHR ''.'' # fst (digits_of (tl s)), snd (digits_of (tl s))))
      else Some ([], s))"

definition exp_part :: "string \<Rightarrow> (string \<times> string) option" where
  "exp_part s =
     (if s \<noteq> [] \<and> hd s \<in> set ''eE''
      then (case sign_part ''+-'' (tl s) of
              (sg, t) \<Rightarrow>
                if fst (digits_of t) = [] then None
                else Some (hd s # sg @ fst (digits_of t), snd (digits_of t)))
      else Some ([], s))"

definition json_number :: "string \<Rightarrow> (string \<times> string) option" where
  "json_number s =
     (case sign_part ''-'' s of
        (sg, s1) \<Rightarrow>
          (case int_part s1 of
             None \<Rightarrow> None
           | Some (ip, s2) \<Rightarrow>
               (case frac_part s2 of
                  None \<Rightarrow> None
                | Some (fp, s3) \<Rightarrow>
                    map_option (\<lambda>(ep, s4). (sg @ ip @ fp @ ep, s4)) (exp_part s3))))"

text \<open>
  The reader. \<open>n\<close> is fuel (at most two calls are made between two consumed characters, so
  one more than twice the length of the input is enough, see \<open>parse_fuel\<close>) and \<open>d\<close> the nesting depth still allowed, at most 10000 in Go.
\<close>

fun parse_value :: "nat \<Rightarrow> nat \<Rightarrow> string \<Rightarrow> (json \<times> string) option"
  and parse_members :: "nat \<Rightarrow> nat \<Rightarrow> (string \<times> json) list \<Rightarrow> string \<Rightarrow> (json \<times> string) option"
  and parse_elems :: "nat \<Rightarrow> nat \<Rightarrow> json list \<Rightarrow> string \<Rightarrow> (json \<times> string) option" where
  "parse_value 0 d s = None"
| "parse_value (Suc n) d s =
     (case skip_ws s of
        [] \<Rightarrow> None
      | c # t \<Rightarrow>
          if c = CHR ''{''
          then (if d = 0 then None
                else (case skip_ws t of
                       [] \<Rightarrow> None
                     | e # u \<Rightarrow> if e = CHR ''}'' then Some (JObj [], u) else parse_members n (d - 1) [] t))
          else if c = CHR ''[''
          then (if d = 0 then None
                else (case skip_ws t of
                       [] \<Rightarrow> None
                     | e # u \<Rightarrow> if e = CHR '']'' then Some (JArr [], u) else parse_elems n (d - 1) [] t))
          else if c = CHR 0x22
          then map_option (\<lambda>(b, u). (JStr (unquote b), u)) (scan_body t)
          else if take 4 (c # t) = ''true'' then Some (JBool True, drop 3 t)
          else if take 5 (c # t) = ''false'' then Some (JBool False, drop 4 t)
          else if take 4 (c # t) = ''null'' then Some (JNull, drop 3 t)
          else map_option (\<lambda>(l, u). (JNum l, u)) (json_number (c # t)))"
| "parse_members 0 d acc s = None"
| "parse_members (Suc n) d acc s =
     (case skip_ws s of
        [] \<Rightarrow> None
      | c # t \<Rightarrow>
          if c \<noteq> CHR 0x22 then None
          else (case scan_body t of
                 None \<Rightarrow> None
               | Some (k, u) \<Rightarrow>
                   (case skip_ws u of
                      [] \<Rightarrow> None
                    | e # v \<Rightarrow>
                        if e \<noteq> CHR '':'' then None
                        else (case parse_value n d v of
                               None \<Rightarrow> None
                             | Some (x, w) \<Rightarrow>
                                 (case skip_ws w of
                                    [] \<Rightarrow> None
                                  | g # r \<Rightarrow>
                                      if g = CHR ''}'' then Some (JObj (rev ((unquote k, x) # acc)), r)
                                      else if g = CHR '','' then parse_members n d ((unquote k, x) # acc) r
                                      else None)))))"
| "parse_elems 0 d acc s = None"
| "parse_elems (Suc n) d acc s =
     (case parse_value n d s of
        None \<Rightarrow> None
      | Some (x, w) \<Rightarrow>
          (case skip_ws w of
             [] \<Rightarrow> None
           | g # r \<Rightarrow>
               if g = CHR '']'' then Some (JArr (rev (x # acc)), r)
               else if g = CHR '','' then parse_elems n d (x # acc) r
               else None))"

definition maxNestingDepth :: nat where "maxNestingDepth = 10000"

text \<open>\<open>Decoder.Decode\<close> reads one value and leaves what follows; \<open>Unmarshal\<close> wants the whole input.\<close>

definition json_Decode :: "string \<Rightarrow> json option" where
  "json_Decode s = map_option fst (parse_value (Suc (2 * length s)) maxNestingDepth s)"

definition json_Unmarshal :: "string \<Rightarrow> json option" where
  "json_Unmarshal s =
     (case parse_value (Suc (2 * length s)) maxNestingDepth s of
        None \<Rightarrow> None
      | Some (v, rest) \<Rightarrow> if skip_ws rest = [] then Some v else None)"

subsection \<open>Objects as Go maps and struct fields\<close>

text \<open>Decoding into \<open>map[string]any\<close>: a repeated key keeps its last value, at every level.\<close>

definition go_dedup :: "(string \<times> json) list \<Rightarrow> (string \<times> json) list" where
  "go_dedup kvs = foldl (\<lambda>m (k, v). AList.update k v m) [] kvs"

primrec go_any :: "json \<Rightarrow> json" where
  "go_any JNull = JNull"
| "go_any (JBool b) = JBool b"
| "go_any (JNum l) = JNum l"
| "go_any (JStr s) = JStr s"
| "go_any (JArr xs) = JArr (map go_any xs)"
| "go_any (JObj kvs) = JObj (go_dedup (map (map_prod id go_any) kvs))"

text \<open>
  A member is stored in a struct field when its key equals the field's name or folds to it;
  the only non-ASCII characters that fold to ASCII letters are U+017F and U+212A.
\<close>

fun fold_name :: "string \<Rightarrow> string" where
  "fold_name [] = []"
| "fold_name (c # cs) =
     (if c = CHR 0xC5 \<and> take 1 cs = [CHR 0xBF] then CHR ''S'' # fold_name (drop 1 cs)
      else if c = CHR 0xE2 \<and> take 2 cs = [CHR 0x84, CHR 0xAA] then CHR ''K'' # fold_name (drop 2 cs)
      else (if 97 \<le> byte c \<and> byte c \<le> 122 then char_of (byte c - 32) else c) # fold_name cs)"

definition names_field :: "string \<Rightarrow> string \<Rightarrow> bool" where
  "names_field field k \<longleftrightarrow> k = field \<or> fold_name k = fold_name field"

text \<open>
  The members an object stores into one field, in order. A \<open>string\<close> field takes the last of
  them: null leaves it alone, another type is an error.
\<close>

definition field_values :: "string \<Rightarrow> (string \<times> json) list \<Rightarrow> json list" where
  "field_values field kvs = map snd (filter (\<lambda>(k, _). names_field field k) kvs)"

fun string_field :: "json list \<Rightarrow> string \<Rightarrow> string option" where
  "string_field [] cur = Some cur"
| "string_field (JNull # vs) cur = string_field vs cur"
| "string_field (JStr s # vs) cur = string_field vs s"
| "string_field (v # vs) cur = None"

subsection \<open>Unpadded URL base64\<close>

definition b64_value :: "char \<Rightarrow> nat option" where
  "b64_value c =
     (if 65 \<le> byte c \<and> byte c \<le> 90 then Some (byte c - 65)
      else if 97 \<le> byte c \<and> byte c \<le> 122 then Some (byte c - 71)
      else if 48 \<le> byte c \<and> byte c \<le> 57 then Some (byte c + 4)
      else if c = CHR ''-'' then Some 62
      else if c = CHR ''_'' then Some 63
      else None)"

fun b64_values :: "string \<Rightarrow> nat list option" where
  "b64_values [] = Some []"
| "b64_values (c # cs) =
     (case b64_value c of
        None \<Rightarrow> None
      | Some v \<Rightarrow> map_option ((#) v) (b64_values cs))"

fun b64_bytes :: "nat list \<Rightarrow> string option" where
  "b64_bytes [] = Some []"
| "b64_bytes [a] = None"
| "b64_bytes [a, b] = Some [char_of (a * 4 + b div 16)]"
| "b64_bytes [a, b, c] = Some [char_of (a * 4 + b div 16), char_of (b mod 16 * 16 + c div 4)]"
| "b64_bytes (a # b # c # d # vs) =
     map_option (\<lambda>r. char_of (a * 4 + b div 16) # char_of (b mod 16 * 16 + c div 4) #
       char_of (c mod 4 * 64 + d) # r) (b64_bytes vs)"

text \<open>\<open>base64.RawURLEncoding.DecodeString\<close>: carriage returns and newlines are skipped.\<close>

definition b64_DecodeString :: "string \<Rightarrow> string option" where
  "b64_DecodeString s =
     (case b64_values (filter (\<lambda>c. c \<noteq> CHR 0x0D \<and> c \<noteq> CHR 0x0A) s) of
        None \<Rightarrow> None
      | Some vs \<Rightarrow> b64_bytes vs)"

definition b64_char :: "nat \<Rightarrow> char" where
  "b64_char v =
     (if v < 26 then char_of (v + 65)
      else if v < 52 then char_of (v + 71)
      else if v < 62 then char_of (v - 4)
      else if v = 62 then CHR ''-''
      else CHR ''_'')"

fun b64_EncodeToString :: "string \<Rightarrow> string" where
  "b64_EncodeToString [] = []"
| "b64_EncodeToString [x] = [b64_char (byte x div 4), b64_char (byte x mod 4 * 16)]"
| "b64_EncodeToString [x, y] =
     [b64_char (byte x div 4), b64_char (byte x mod 4 * 16 + byte y div 16), b64_char (byte y mod 16 * 4)]"
| "b64_EncodeToString (x # y # z # s) =
     b64_char (byte x div 4) # b64_char (byte x mod 4 * 16 + byte y div 16) #
     b64_char (byte y mod 16 * 4 + byte z div 64) # b64_char (byte z mod 64) # b64_EncodeToString s"

subsection \<open>The reader consumes input, and its fuel is enough\<close>

lemma skip_ws_length: "length (skip_ws s) \<le> length s"
  by (simp add: skip_ws_def length_dropWhile_le)

lemma skip_ws_Cons: "skip_ws s = c # t \<Longrightarrow> length t < length s"
  using skip_ws_length [of s] by simp

lemma scan_body_length: "scan_body s = Some (b, t) \<Longrightarrow> length t < length s"
proof (induction "length s" arbitrary: s b t rule: less_induct)
  case less
  have IH: "prepend p (scan_body u) = Some (b, t) \<Longrightarrow> length u < length s \<Longrightarrow> length t < length u" for p u
    using less.hyps [of u] by (auto simp: prepend_def)
  show ?case
  proof (cases s)
    case Nil
    with less.prems show ?thesis by (simp add: scan_body.simps)
  next
    case (Cons c cs)
    show ?thesis
    proof (cases cs)
      case Nil
      with less.prems Cons show ?thesis
        by (auto simp: scan_body.simps [of "[c]"] scan_body.simps [of "[]"] prepend_def split: if_splits)
    next
      case (Cons e ds)
      with less.prems \<open>s = c # cs\<close> IH [of _ ds] IH [of _ "drop 4 ds"] IH [of _ cs] show ?thesis
        by (fastforce simp: scan_body.simps [of "c # e # ds"] split: if_splits)
    qed
  qed
qed

lemma sign_part_length: "sign_part sg s = (l, t) \<Longrightarrow> length t \<le> length s"
  by (auto simp: sign_part_def split: if_splits)

lemma digits_of_length: "length (snd (digits_of s)) \<le> length s"
  by (simp add: digits_of_def length_dropWhile_le)

lemma digits_of_shorter: "fst (digits_of s) \<noteq> [] \<Longrightarrow> length (snd (digits_of s)) < length s"
  by (cases s) (auto simp: digits_of_def length_dropWhile_le le_imp_less_Suc split: if_splits)

lemma int_part_length: "int_part s = Some (l, t) \<Longrightarrow> length t < length s"
  using digits_of_shorter [of s] by (auto simp: int_part_def split: if_splits)

lemma frac_part_length: "frac_part s = Some (l, t) \<Longrightarrow> length t \<le> length s"
  using digits_of_length [of "tl s"] by (auto simp: frac_part_def split: if_splits)

lemma exp_part_length: "exp_part s = Some (l, t) \<Longrightarrow> length t \<le> length s"
proof (cases "s \<noteq> [] \<and> hd s \<in> set ''eE''")
  case True
  assume e: "exp_part s = Some (l, t)"
  obtain sg u where su: "sign_part ''+-'' (tl s) = (sg, u)" by fastforce
  with e True have "t = snd (digits_of u)" by (auto simp: exp_part_def split: if_splits)
  with digits_of_length [of u] sign_part_length [OF su] show ?thesis by simp
qed (auto simp: exp_part_def)

lemma json_number_length:
  assumes "json_number s = Some (l, t)"
  shows "length t < length s"
proof -
  from assms obtain sg s1 ip s2 fp s3 ep where
      "sign_part ''-'' s = (sg, s1)" "int_part s1 = Some (ip, s2)"
      "frac_part s2 = Some (fp, s3)" "exp_part s3 = Some (ep, t)"
    by (auto simp: json_number_def split: prod.splits option.splits)
  then show ?thesis
    by (fastforce dest!: sign_part_length int_part_length frac_part_length exp_part_length)
qed

lemma parse_length:
  "(\<forall>d s v t. parse_value n d s = Some (v, t) \<longrightarrow> length t < length s) \<and>
   (\<forall>d acc s v t. parse_members n d acc s = Some (v, t) \<longrightarrow> length t < length s) \<and>
   (\<forall>d xs s v t. parse_elems n d xs s = Some (v, t) \<longrightarrow> length t < length s)"
proof (induction n)
  case (Suc n)
  then have v: "parse_value n d s = Some (v, t) \<Longrightarrow> length t < length s"
    and m: "parse_members n d acc s = Some (v, t) \<Longrightarrow> length t < length s"
    and e: "parse_elems n d xs s = Some (v, t) \<Longrightarrow> length t < length s" for d s v t acc xs
    by blast+
  note lengths = skip_ws_Cons scan_body_length json_number_length v m e
  show ?case
  proof (intro conjI allI impI)
    fix d s v t assume "parse_value (Suc n) d s = Some (v, t)"
    then show "length t < length s"
      by (auto split: list.splits if_splits dest!: lengths)
  next
    fix d acc s v t assume "parse_members (Suc n) d acc s = Some (v, t)"
    then show "length t < length s"
      by (auto split: list.splits if_splits option.splits dest!: lengths)
  next
    fix d xs s v t assume "parse_elems (Suc n) d xs s = Some (v, t)"
    then show "length t < length s"
      by (auto split: list.splits if_splits option.splits dest!: lengths)
  qed
qed simp

lemmas parse_value_length = parse_length [THEN conjunct1, rule_format]

text \<open>Any fuel above twice the length of the input gives the same result.\<close>

lemma parse_fuel:
  "(\<forall>m d s. 2 * length s < n \<longrightarrow> 2 * length s < m \<longrightarrow> parse_value n d s = parse_value m d s) \<and>
   (\<forall>m d acc s. 2 * length s < n \<longrightarrow> 2 * length s < m \<longrightarrow>
      parse_members n d acc s = parse_members m d acc s) \<and>
   (\<forall>m d xs s. 2 * length s + 1 < n \<longrightarrow> 2 * length s + 1 < m \<longrightarrow>
      parse_elems n d xs s = parse_elems m d xs s)"
proof (induction n)
  case (Suc n)
  then have v: "2 * length s < n \<Longrightarrow> 2 * length s < m \<Longrightarrow> parse_value n d s = parse_value m d s"
    and mb: "2 * length s < n \<Longrightarrow> 2 * length s < m \<Longrightarrow>
      parse_members n d acc s = parse_members m d acc s"
    and el: "2 * length s + 1 < n \<Longrightarrow> 2 * length s + 1 < m \<Longrightarrow>
      parse_elems n d xs s = parse_elems m d xs s" for m d s acc xs
    by blast+
  show ?case
  proof (intro conjI allI impI)
    fix k d and s :: string assume len: "2 * length s < Suc n" "2 * length s < k"
    then obtain m where k: "k = Suc m" by (cases k) auto
    have "skip_ws s = c # t \<Longrightarrow> parse_members n d' [] t = parse_members m d' [] t \<and>
        parse_elems n d' [] t = parse_elems m d' [] t" for c t d'
      using len k by (auto dest!: skip_ws_Cons intro!: mb el)
    then show "parse_value (Suc n) d s = parse_value k d s"
      by (auto simp: k split: list.splits)
  next
    fix k d acc and s :: string assume len: "2 * length s < Suc n" "2 * length s < k"
    then obtain m where k: "k = Suc m" by (cases k) auto
    have sub: "length u < length s \<Longrightarrow> parse_value n d u = parse_value m d u \<and>
        parse_members n d acc' u = parse_members m d acc' u" for u acc'
      using len k by (auto intro!: v mb)
    show "parse_members (Suc n) d acc s = parse_members k d acc s"
    proof (cases "\<exists>c t l u e v. skip_ws s = c # t \<and> scan_body t = Some (l, u) \<and> skip_ws u = e # v")
      case True
      then obtain c t l u e v where eqs: "skip_ws s = c # t" "scan_body t = Some (l, u)" "skip_ws u = e # v"
        by blast
      have "length t < length s" "length u < length t" "length v < length u"
        using eqs skip_ws_Cons scan_body_length by blast+
      then have pv: "parse_value n d v = parse_value m d v" and lv: "length v < length s"
        using sub by auto
      have "parse_members n d acc' r = parse_members m d acc' r"
        if "parse_value m d v = Some (x, w)" and "skip_ws w = g # r" for x w g r acc'
        using parse_value_length [OF that(1)] skip_ws_Cons [OF that(2)] lv sub by auto
      then show ?thesis by (auto simp: k eqs pv split: option.splits list.splits)
    qed (auto simp: k split: list.splits option.splits)
  next
    fix k d xs and s :: string assume len: "2 * length s + 1 < Suc n" "2 * length s + 1 < k"
    then obtain m where k: "k = Suc m" by (cases k) auto
    have sub: "parse_value n d s = parse_value m d s"
      using len k by (auto intro!: v)
    have "length u < length s \<Longrightarrow> parse_elems n d ys u = parse_elems m d ys u" for u ys
      using len k by (auto intro!: el)
    then show "parse_elems (Suc n) d xs s = parse_elems k d xs s"
      by (auto simp: k sub split: list.splits option.splits dest!: skip_ws_Cons parse_value_length)
  qed
qed simp

subsection \<open>Maps\<close>

lemma go_dedup_map_of: "map_of (go_dedup kvs) = map_of (rev kvs)"
  unfolding go_dedup_def
  by (induction kvs rule: rev_induct) (auto simp: update_conv' split: prod.splits)

lemma go_dedup_distinct: "distinct (map fst (go_dedup kvs))"
  unfolding go_dedup_def
  by (induction kvs rule: rev_induct) (auto simp: distinct_update split: prod.splits)

subsection \<open>Base64 round trip\<close>

lemma byte_char_of: "byte (char_of n) = n mod 256"
  by (simp add: byte_def)

lemma byte_less: "byte c < 256"
  by (simp add: byte_def)

lemma char_of_eq_byte: "n = byte c \<Longrightarrow> char_of n = c"
  by (simp add: byte_def)

lemma b64_value_char: "v < 64 \<Longrightarrow> b64_value (b64_char v) = Some v"
  by (auto simp: b64_char_def b64_value_def byte_char_of byte_def)

lemma b64_char_no_break: "v < 64 \<Longrightarrow> b64_char v \<noteq> CHR 0x0D \<and> b64_char v \<noteq> CHR 0x0A"
proof -
  have "list_all (\<lambda>v. b64_char v \<noteq> CHR 0x0D \<and> b64_char v \<noteq> CHR 0x0A) [0..<64]" by code_simp
  then show "v < 64 \<Longrightarrow> ?thesis" by (simp add: list_all_iff)
qed

lemma b64_sextets:
  "byte x div 4 < 64" "byte x mod 4 * 16 + byte y div 16 < 64"
  "byte y mod 16 * 4 + byte z div 64 < 64" "byte z mod 64 < 64"
  "byte x mod 4 * 16 < 64" "byte y mod 16 * 4 < 64"
  using byte_less [of x] byte_less [of y] byte_less [of z] by auto

lemma b64_octets:
  "byte x div 4 * 4 + (byte x mod 4 * 16 + byte y div 16) div 16 = byte x \<and>
   (byte x mod 4 * 16 + byte y div 16) mod 16 * 16 + (byte y mod 16 * 4 + byte z div 64) div 4 = byte y \<and>
   (byte y mod 16 * 4 + byte z div 64) mod 4 * 64 + byte z mod 64 = byte z"
  using byte_less [of y] byte_less [of z] by auto

lemma b64_octets_tail:
  "byte x div 4 * 4 + byte x mod 4 * 16 div 16 = byte x \<and>
   (byte x mod 4 * 16 + byte y div 16) mod 16 * 16 + byte y mod 16 * 4 div 4 = byte y"
  using byte_less [of y] by auto

lemma b64_values_Encode:
  "\<exists>vs. b64_values (b64_EncodeToString s) = Some vs \<and> b64_bytes vs = Some s"
proof (induction s rule: b64_EncodeToString.induct)
  case (4 x y z s)
  then show ?case
    using b64_octets [of x y z] by (auto simp: b64_value_char b64_sextets char_of_eq_byte)
next
  case (3 x y)
  then show ?case
    using b64_octets [of x y x] b64_octets_tail [of x y]
    by (auto simp: b64_value_char b64_sextets char_of_eq_byte)
next
  case (2 x)
  then show ?case
    using b64_octets_tail [of x x] by (simp add: b64_value_char b64_sextets char_of_eq_byte)
qed simp

lemma Encode_no_break: "filter (\<lambda>c. c \<noteq> CHR 0x0D \<and> c \<noteq> CHR 0x0A) (b64_EncodeToString s) = b64_EncodeToString s"
  by (induction s rule: b64_EncodeToString.induct) (simp_all add: b64_char_no_break b64_sextets)

lemma b64_Decode_Encode: "b64_DecodeString (b64_EncodeToString s) = Some s"
  using b64_values_Encode [of s] by (auto simp: b64_DecodeString_def Encode_no_break)

end
