(* ===== verification/Identity.thy ===== *)
theory Identity
  imports GoJson "HOL-Library.Multiset"
begin

text \<open>
  Package \<open>internal/identity\<close>: the provider-neutral identity and the flattening of a verified
  token's payload into the claim map the policy matches on. The claim map is a partial
  function. \<open>Parse\<close> takes the order in which the runtime visits the decoded maps as an
  argument \<open>ord\<close>: \<open>ord v\<close> is \<open>v\<close> with the members of every object in visiting order.
\<close>

subsection \<open>Model\<close>

definition Namespace :: string where "Namespace = ''https://sts.amazonaws.com/''"

definition awsPrefix :: string where "awsPrefix = ''aws''"

definition reserved :: "string list" where
  "reserved = [''iss'', ''sub'', ''aud'', ''exp'', ''nbf'', ''iat'']"

record Identity =
  Id_Issuer :: string
  Id_Subject :: string
  Id_Audience :: "string list"
  Id_Expiry :: time
  Id_claims :: "string \<rightharpoonup> string"

definition identity_New :: "string \<Rightarrow> (string \<rightharpoonup> string) option \<Rightarrow> Identity" where
  "identity_New subject claims =
     \<lparr>Id_Issuer = [], Id_Subject = subject, Id_Audience = [], Id_Expiry = zeroTime,
      Id_claims = (case claims of None \<Rightarrow> Map.empty | Some m \<Rightarrow> m)\<rparr>"

definition Claim :: "Identity \<Rightarrow> string \<Rightarrow> string option" where
  "Claim i name = Id_claims i name"

definition Claims :: "Identity \<Rightarrow> (string \<rightharpoonup> string)" where
  "Claims i = Id_claims i"

definition FormatBool :: "bool \<Rightarrow> string" where
  "FormatBool b = (if b then ''true'' else ''false'')"

fun flatten :: "string \<Rightarrow> json \<Rightarrow> (string \<rightharpoonup> string) \<Rightarrow> (string \<rightharpoonup> string)"
  and flatten_entries :: "string \<Rightarrow> (string \<times> json) list \<Rightarrow> (string \<rightharpoonup> string) \<Rightarrow> (string \<rightharpoonup> string)" where
  "flatten pre (JObj kvs) out = flatten_entries pre kvs out"
| "flatten pre (JStr s) out = out(pre \<mapsto> s)"
| "flatten pre (JNum l) out = out(pre \<mapsto> l)"
| "flatten pre (JBool b) out = out(pre \<mapsto> FormatBool b)"
| "flatten pre (JArr xs) out = out"
| "flatten pre JNull out = out"
| "flatten_entries pre [] out = out"
| "flatten_entries pre ((k, child) # rest) out =
     flatten_entries pre rest (flatten (pre @ ''.'' @ k) child out)"

text \<open>The loop of \<open>Parse\<close> over the top-level members.\<close>

definition claim_prefix :: "string \<Rightarrow> string" where
  "claim_prefix k = (if k = Namespace then awsPrefix else k)"

fun parse_claims :: "(string \<times> json) list \<Rightarrow> (string \<rightharpoonup> string) \<Rightarrow> (string \<rightharpoonup> string)" where
  "parse_claims [] claims = claims"
| "parse_claims ((k, v) # rest) claims =
     (if k \<in> set reserved then parse_claims rest claims
      else parse_claims rest (flatten (claim_prefix k) v claims))"

datatype identity_error = DecodeTokenClaims

text \<open>Decoding into \<open>map[string]any\<close>: an object or null; anything else is a type error.\<close>

definition decode_claims :: "string \<Rightarrow> json option" where
  "decode_claims payload =
     (case json_Decode payload of
        Some (JObj kvs) \<Rightarrow> Some (go_any (JObj kvs))
      | Some JNull \<Rightarrow> Some (JObj [])
      | _ \<Rightarrow> None)"

definition members :: "json \<Rightarrow> (string \<times> json) list" where
  "members v = (case v of JObj kvs \<Rightarrow> kvs | _ \<Rightarrow> [])"

definition Parse :: "(json \<Rightarrow> json) \<Rightarrow> string \<Rightarrow> identity_error + Identity" where
  "Parse ord payload =
     (case decode_claims payload of
        None \<Rightarrow> Inl DecodeTokenClaims
      | Some raw \<Rightarrow>
          Inr \<lparr>Id_Issuer = [], Id_Subject = [], Id_Audience = [], Id_Expiry = zeroTime,
               Id_claims = parse_claims (members (ord raw)) Map.empty\<rparr>)"

text \<open>Two trees that hold the same maps: equal up to the order of object members.\<close>

inductive same_map :: "json \<Rightarrow> json \<Rightarrow> bool" where
  same_leaf: "same_map v v"
| same_obj: "list_all2 (\<lambda>x y. fst x = fst y \<and> same_map (snd x) (snd y)) kvs us \<Longrightarrow>
     mset us = mset ws \<Longrightarrow> same_map (JObj kvs) (JObj ws)"

inductive_cases same_map_ObjE: "same_map (JObj kvs) w"

definition visits :: "(json \<Rightarrow> json) \<Rightarrow> bool" where
  "visits ord \<longleftrightarrow> (\<forall>v. same_map v (ord v))"

subsection \<open>What a payload says: its scalar leaves\<close>

fun leaves :: "string \<Rightarrow> json \<Rightarrow> (string \<times> string) list"
  and entry_leaves :: "string \<Rightarrow> (string \<times> json) list \<Rightarrow> (string \<times> string) list" where
  "leaves pre (JObj kvs) = entry_leaves pre kvs"
| "leaves pre (JStr s) = [(pre, s)]"
| "leaves pre (JNum l) = [(pre, l)]"
| "leaves pre (JBool b) = [(pre, FormatBool b)]"
| "leaves pre (JArr xs) = []"
| "leaves pre JNull = []"
| "entry_leaves pre [] = []"
| "entry_leaves pre ((k, child) # rest) = leaves (pre @ ''.'' @ k) child @ entry_leaves pre rest"

definition top_leaves :: "string \<times> json \<Rightarrow> (string \<times> string) list" where
  "top_leaves e = (if fst e \<in> set reserved then [] else leaves (claim_prefix (fst e)) (snd e))"

definition claim_leaves :: "(string \<times> json) list \<Rightarrow> (string \<times> string) list" where
  "claim_leaves kvs = concat (map top_leaves kvs)"

text \<open>The loops write the leaves one after the other, so the last writer of a key wins.\<close>

lemma flatten_leaves:
  "flatten pre v out = out ++ map_of (rev (leaves pre v))"
  "flatten_entries pre kvs out = out ++ map_of (rev (entry_leaves pre kvs))"
proof (induction pre v out and pre kvs out rule: flatten_flatten_entries.induct)
  case (8 pre k child rest out)
  then show ?case by simp
qed (simp_all add: fun_eq_iff map_add_def)

lemma parse_claims_leaves: "parse_claims kvs out = out ++ map_of (rev (claim_leaves kvs))"
  by (induction kvs out rule: parse_claims.induct)
     (auto simp: claim_leaves_def top_leaves_def flatten_leaves)

lemma entry_leaves_concat:
  "entry_leaves pre kvs = concat (map (\<lambda>e. leaves (pre @ ''.'' @ fst e) (snd e)) kvs)"
  by (induction kvs) auto

lemma leaves_key:
  "(key, val) \<in> set (leaves pre v) \<Longrightarrow> key = pre \<or> (\<exists>rest. key = pre @ ''.'' @ rest)"
  "(key, val) \<in> set (entry_leaves pre kvs) \<Longrightarrow> \<exists>rest. key = pre @ ''.'' @ rest"
  by (induction pre v and pre kvs rule: leaves_entry_leaves.induct) auto

lemma claim_leaves_origin:
  assumes "(key, val) \<in> set (claim_leaves kvs)"
  obtains k v where "(k, v) \<in> set kvs" and "k \<notin> set reserved"
    and "key = claim_prefix k \<or> (\<exists>rest. key = claim_prefix k @ ''.'' @ rest)"
    and "(key, val) \<in> set (leaves (claim_prefix k) v)"
  using assms leaves_key(1) by (fastforce simp: claim_leaves_def top_leaves_def split: if_splits)

subsection \<open>Reserved claims\<close>

lemma reserved_no_dot: "k \<in> set reserved \<Longrightarrow> CHR ''.'' \<notin> set k"
  by (auto simp: reserved_def)

lemma claim_prefix_not_reserved: "k \<notin> set reserved \<Longrightarrow> claim_prefix k \<notin> set reserved"
  by (auto simp: claim_prefix_def awsPrefix_def reserved_def)

lemma claim_leaves_not_reserved:
  assumes "(key, val) \<in> set (claim_leaves kvs)"
  shows "key \<notin> set reserved"
  using assms
proof (cases rule: claim_leaves_origin)
  case (1 k v)
  then show ?thesis
    using claim_prefix_not_reserved [of k] reserved_no_dot [of key] by auto
qed

lemma claims_not_reserved:
  assumes "key \<in> set reserved"
  shows "parse_claims kvs Map.empty key = None"
proof -
  have "key \<notin> fst ` set (claim_leaves kvs)"
    using claim_leaves_not_reserved assms by fastforce
  then show ?thesis by (simp add: parse_claims_leaves map_of_eq_None_iff)
qed

subsection \<open>Iteration order\<close>

lemma mset_concat_map: "mset xs = mset ys \<Longrightarrow> mset (concat (map f xs)) = mset (concat (map f ys))"
  by (simp add: mset_concat) (metis mset_map sum_mset_sum_list)

lemma list_all2_mset_concat:
  "list_all2 (\<lambda>x y. mset (f x) = mset (f y)) xs ys \<Longrightarrow> mset (concat (map f xs)) = mset (concat (map f ys))"
  by (induction rule: list_all2_induct) auto

lemma same_map_leaves: "same_map v w \<Longrightarrow> mset (leaves pre v) = mset (leaves pre w)"
proof (induction arbitrary: pre rule: same_map.induct)
  case (same_obj kvs us ws)
  let ?f = "\<lambda>e. leaves (pre @ ''.'' @ fst e) (snd e)"
  from same_obj(1) have "list_all2 (\<lambda>x y. mset (?f x) = mset (?f y)) kvs us"
    by (rule list_all2_mono) auto
  then have "mset (concat (map ?f kvs)) = mset (concat (map ?f us))"
    by (rule list_all2_mset_concat)
  also have "\<dots> = mset (concat (map ?f ws))"
    using same_obj(2) by (rule mset_concat_map)
  finally show ?case by (simp add: entry_leaves_concat)
qed simp

lemma same_map_claim_leaves:
  assumes "same_map v w"
  shows "mset (claim_leaves (members v)) = mset (claim_leaves (members w))"
  using assms
proof (cases rule: same_map.cases)
  case (same_obj kvs us ws)
  have "list_all2 (\<lambda>x y. mset (top_leaves x) = mset (top_leaves y)) kvs us"
    using same_obj(3) by (rule list_all2_mono) (auto simp: top_leaves_def same_map_leaves)
  then have "mset (claim_leaves kvs) = mset (claim_leaves us)"
    unfolding claim_leaves_def by (rule list_all2_mset_concat)
  also have "\<dots> = mset (claim_leaves ws)"
    unfolding claim_leaves_def using same_obj(4) by (rule mset_concat_map)
  finally show ?thesis using same_obj(1,2) by (simp add: members_def)
qed simp



subsection \<open>Properties of Parse\<close>

lemma Parse_InrE:
  assumes "Parse ord payload = Inr i"
  obtains raw where "decode_claims payload = Some raw"
    and "Id_claims i = parse_claims (members (ord raw)) Map.empty"
  using assms by (auto simp: Parse_def split: option.splits)

lemma visits_same: "visits ord \<Longrightarrow> same_map v (ord v)"
  by (simp add: visits_def)

lemma same_map_set_leaves:
  "same_map v w \<Longrightarrow> set (claim_leaves (members w)) = set (claim_leaves (members v))"
  using same_map_claim_leaves by (metis mset_eq_setD)

text \<open>An example of a visiting order: the members of the top-level object in reverse.\<close>

definition rev_top :: "json \<Rightarrow> json" where
  "rev_top v = (case v of JObj kvs \<Rightarrow> JObj (rev kvs) | _ \<Rightarrow> v)"

lemma visits_id: "visits (\<lambda>v. v)"
  by (simp add: visits_def same_leaf)

lemma visits_rev_top: "visits rev_top"
proof -
  have "same_map (JObj kvs) (JObj (rev kvs))" for kvs
    by (rule same_obj [of kvs kvs]) (auto simp: list_all2_same same_leaf)
  then show ?thesis by (auto simp: visits_def rev_top_def same_leaf split: json.splits)
qed

text \<open>C19: whatever a token's payload holds and in whatever order its members are visited, the
  registered claims iss, sub, aud, exp, nbf and iat never appear in the matchable claim map,
  neither from the top level nor from a nested object.\<close>

theorem Parse_excludes_reserved:
  assumes "Parse ord payload = Inr i" and "k \<in> set reserved"
  shows "Claim i k = None"
  using assms(1)
proof (rule Parse_InrE)
  fix raw assume "Id_claims i = parse_claims (members (ord raw)) Map.empty"
  with claims_not_reserved [OF assms(2)] show ?thesis by (simp add: Claim_def)
qed

text \<open>JSON text for the examples: \<open>js s\<close> is the string literal of a plain \<open>s\<close>.\<close>

definition js :: "string \<Rightarrow> string" where
  "js s = CHR 0x22 # s @ [CHR 0x22]"

definition example_payload :: string where
  "example_payload =
     ''{'' @ js ''sub'' @ '':'' @ js ''u'' @ '','' @ js ''a'' @ '':{'' @ js ''b'' @
     '':12345678901234567890},'' @ js ''c'' @ '':true}''"

lemma example_payload_decoded:
  "decode_claims example_payload =
     Some (JObj [(''sub'', JStr ''u''), (''a'', JObj [(''b'', JNum ''12345678901234567890'')]), (''c'', JBool True)])"
  by code_simp

definition example_identity :: Identity where
  "example_identity =
     \<lparr>Id_Issuer = [], Id_Subject = [], Id_Audience = [], Id_Expiry = zeroTime,
      Id_claims = [''a.b'' \<mapsto> ''12345678901234567890'', ''c'' \<mapsto> ''true'']\<rparr>"

lemma example_parsed: "Parse (\<lambda>v. v) example_payload = Inr example_identity"
  by (simp add: Parse_def example_payload_decoded members_def reserved_def claim_prefix_def
      Namespace_def FormatBool_def example_identity_def)

theorem Parse_excludes_reserved_witness:
  "Parse (\<lambda>v. v) example_payload = Inr example_identity \<and> ''sub'' \<in> set reserved \<and>
   Claim example_identity ''sub'' = None"
proof -
  have "''sub'' \<in> set reserved" by (simp add: reserved_def)
  with Parse_excludes_reserved [OF example_parsed this] example_parsed show ?thesis by simp
qed



lemma dotted_prefix_aws:
  assumes "prefix (k @ ''.'') (awsPrefix @ ''.'' @ x)"
  shows "k = awsPrefix \<or> prefix (awsPrefix @ ''.'') k"
proof -
  from assms have "prefix k ((awsPrefix @ ''.'') @ x)" by (auto dest: append_prefixD)
  then have "prefix k (awsPrefix @ ''.'') \<or> prefix (awsPrefix @ ''.'') k"
    using prefix_same_cases [of k _ "awsPrefix @ ''.''"] by auto
  then show ?thesis using assms by (auto simp: awsPrefix_def prefix_Cons)
qed

text \<open>A matchable claim under the aws prefix comes from the AWS namespace object, provided the
  payload has no top-level member named aws or starting with aws and a dot.\<close>

theorem aws_claims_from_namespace:
  assumes "visits ord" and "Parse ord payload = Inr i" and "decode_claims payload = Some raw"
    and "\<forall>(k, _) \<in> set (members raw). k \<noteq> awsPrefix \<and> \<not> strings_HasPrefix k (awsPrefix @ ''.'')"
    and "Claim i (awsPrefix @ ''.'' @ x) = Some v"
  shows "\<exists>ns. (Namespace, ns) \<in> set (members raw) \<and>
    (awsPrefix @ ''.'' @ x, v) \<in> set (leaves awsPrefix ns)"
proof -
  let ?key = "awsPrefix @ ''.'' @ x"
  have "Id_claims i = parse_claims (members (ord raw)) Map.empty"
    using assms(2,3) by (auto elim: Parse_InrE)
  with assms(5) have "(?key, v) \<in> set (claim_leaves (members (ord raw)))"
    by (auto simp: Claim_def parse_claims_leaves dest: map_of_SomeD)
  then have "(?key, v) \<in> set (claim_leaves (members raw))"
    using same_map_set_leaves [OF visits_same [OF assms(1)]] by simp
  then show ?thesis
  proof (cases rule: claim_leaves_origin)
    case (1 k w)
    show ?thesis
    proof (cases "k = Namespace")
      case True
      with 1 show ?thesis by (auto simp: claim_prefix_def)
    next
      case False
      then have p: "claim_prefix k = k" by (simp add: claim_prefix_def)
      from 1(1) assms(4) have "k \<noteq> awsPrefix" "\<not> prefix (awsPrefix @ ''.'') k"
        by (auto simp: HasPrefix_iff_prefix)
      moreover have "k = ?key \<or> prefix (k @ ''.'') ?key"
        using 1(3) p by auto
      ultimately show ?thesis using dotted_prefix_aws [of k x] by auto
    qed
  qed
qed

definition aws_payload :: string where
  "aws_payload = ''{'' @ js Namespace @ '':{'' @ js ''aws_account'' @ '':'' @ js ''123456789012'' @ ''}}''"

lemma aws_payload_decoded:
  "decode_claims aws_payload = Some (JObj [(Namespace, JObj [(''aws_account'', JStr ''123456789012'')])])"
  by code_simp

theorem aws_claims_from_namespace_witness:
  "\<exists>ns. (Namespace, ns) \<in> set (members (JObj [(Namespace, JObj [(''aws_account'', JStr ''123456789012'')])])) \<and>
     (awsPrefix @ ''.'' @ ''aws_account'', ''123456789012'') \<in> set (leaves awsPrefix ns)"
proof -
  let ?i = "\<lparr>Id_Issuer = [], Id_Subject = [], Id_Audience = [], Id_Expiry = zeroTime,
      Id_claims = [''aws.aws_account'' \<mapsto> ''123456789012'']\<rparr> :: Identity"
  have parsed: "Parse (\<lambda>v. v) aws_payload = Inr ?i"
    by (simp add: Parse_def aws_payload_decoded members_def reserved_def claim_prefix_def
        Namespace_def awsPrefix_def)
  have pre: "\<forall>(k, _) \<in> set (members (JObj [(Namespace, JObj [(''aws_account'', JStr ''123456789012'')])])).
      k \<noteq> awsPrefix \<and> \<not> strings_HasPrefix k (awsPrefix @ ''.'')"
    by (simp add: members_def Namespace_def awsPrefix_def strings_HasPrefix_def)
  have claim: "Claim ?i (awsPrefix @ ''.'' @ ''aws_account'') = Some ''123456789012''"
    by (simp add: Claim_def awsPrefix_def)
  show ?thesis by (rule aws_claims_from_namespace [OF visits_id parsed aws_payload_decoded pre claim])
qed

definition collision_payload :: string where
  "collision_payload =
     ''{'' @ js ''aws'' @ '':{'' @ js ''aws_account'' @ '':'' @ js ''111111111111'' @ ''},'' @
     js Namespace @ '':{'' @ js ''aws_account'' @ '':'' @ js ''222222222222'' @ ''}}''"

lemma collision_payload_decoded:
  "decode_claims collision_payload =
     Some (JObj [(''aws'', JObj [(''aws_account'', JStr ''111111111111'')]),
                 (Namespace, JObj [(''aws_account'', JStr ''222222222222'')])])"
  by code_simp

text \<open>The aws prefix is not reserved for the AWS namespace. A payload with both a top-level member
  named aws and the AWS namespace object has a claim aws.aws\_account whose value depends on the order
  in which the runtime visits the map: one visiting order gives the first account, another the second.\<close>

theorem aws_prefix_collision:
  "visits (\<lambda>v. v) \<and> visits rev_top \<and>
   map_sum id (\<lambda>i. Claim i ''aws.aws_account'') (Parse (\<lambda>v. v) collision_payload) = Inr (Some ''222222222222'') \<and>
   map_sum id (\<lambda>i. Claim i ''aws.aws_account'') (Parse rev_top collision_payload) = Inr (Some ''111111111111'')"
  by (simp add: visits_id visits_rev_top)
     (simp add: Parse_def collision_payload_decoded members_def reserved_def claim_prefix_def
      Namespace_def awsPrefix_def rev_top_def Claim_def)

end
