(* ===== verification/KeySet.thy ===== *)
theory KeySet
  imports GoStrings
begin

text \<open>
  Package \<open>internal/verifier\<close>, file \<open>keyset.go\<close>: the throttled JWKS cache. The critical sections of
  the code are functions on the cache record; the interleavings of the requests that call
  \<open>VerifySignature\<close> and of the goroutine that \<open>refresh\<close> starts are the step relation \<open>kstep\<close>, one
  rule per critical section or channel operation.

  go-jose and the HTTP client are the arguments \<open>jose\<close> and \<open>http\<close>. A \<open>*refreshResult\<close> is an address
  of the heap \<open>results\<close> (its channel \<open>done\<close> is the flag \<open>closed\<close>), so that two requests that wait for the same refresh share it. The fields
  \<open>starts\<close>, \<open>fetched\<close> and \<open>answers\<close> of the system state only record history: the start time of every fetch, every key set
  a fetch returned, and every HTTP exchange the fetches made.
\<close>

subsection \<open>Model\<close>

definition DefaultJWKSRefreshInterval :: duration where
  "DefaultJWKSRefreshInterval = 30 * second"

definition maxJWKSSize :: nat where "maxJWKSSize = 2 ^ 20"

record http_transport =
  Proxy_FromEnvironment :: bool
  TLS_RootCAs :: string
  TLS_MinVersion :: nat

record http_client =
  Client_Timeout :: duration
  Client_Transport :: "http_transport option"

record 'key keySet =
  jwksURL :: string
  client :: http_client
  algs :: "string list"
  interval :: duration
  keys :: "'key list"
  lastFetch :: time
  inflight :: "nat option"

datatype fetch_error =
    BuildRequest string | FetchJWKS string | UnexpectedStatus nat | DecodeJWKS string

record refreshResult =
  closed :: bool
  Result_err :: "fetch_error option"

text \<open>The calls of go-jose: signatures of a parsed token are represented by their key ids.\<close>

record ('jws, 'key) jose_lib =
  ParseSigned :: "string \<Rightarrow> string list \<Rightarrow> string + 'jws"
  Signature_KeyIDs :: "'jws \<Rightarrow> string list"
  KeyID :: "'key \<Rightarrow> string"
  jws_Verify :: "'jws \<Rightarrow> 'key \<Rightarrow> string option"
  JSONWebKeySet_Decode :: "string \<Rightarrow> string + 'key list"

record http_request =
  Req_Method :: string
  Req_URL :: string
  Req_Header :: "(string \<times> string) list"

record http_response =
  StatusCode :: nat
  Body :: string

record http_lib =
  http_NewRequest :: "string \<Rightarrow> string \<Rightarrow> string option"
  http_Do :: "http_client \<Rightarrow> http_request \<Rightarrow> string + http_response"

datatype ks_error =
    MalformedJWT string | NotOneSignature | RefreshThrottled | ContextDone
  | RefreshError fetch_error | BadSignature

definition newKeySet :: "string \<Rightarrow> http_client \<Rightarrow> string list \<Rightarrow> duration \<Rightarrow> 'key keySet" where
  "newKeySet url c as i =
     \<lparr>jwksURL = url, client = c, algs = as,
      interval = (if i \<le> 0 then DefaultJWKSRefreshInterval else i),
      keys = [], lastFetch = zeroTime, inflight = None\<rparr>"

fun verifyWith :: "('jws, 'key) jose_lib \<Rightarrow> 'jws \<Rightarrow> string \<Rightarrow> 'key list \<Rightarrow> string option" where
  "verifyWith jose jws kid [] = None"
| "verifyWith jose jws kid (k # ks) =
     (if kid \<noteq> [] \<and> KeyID jose k \<noteq> kid then verifyWith jose jws kid ks
      else case jws_Verify jose jws k of
             Some payload \<Rightarrow> Some payload
           | None \<Rightarrow> verifyWith jose jws kid ks)"

definition jwks_request :: "'key keySet \<Rightarrow> http_request" where
  "jwks_request k = \<lparr>Req_Method = ''GET'', Req_URL = jwksURL k, Req_Header = [(''Cache-Control'', ''no-cache'')]\<rparr>"

definition fetch :: "('jws, 'key) jose_lib \<Rightarrow> http_lib \<Rightarrow> 'key keySet \<Rightarrow> fetch_error + 'key list" where
  "fetch jose http k =
     (case http_NewRequest http ''GET'' (jwksURL k) of
        Some e \<Rightarrow> Inl (BuildRequest e)
      | None \<Rightarrow>
          (case http_Do http (client k) (jwks_request k) of
             Inl e \<Rightarrow> Inl (FetchJWKS e)
           | Inr resp \<Rightarrow>
               if StatusCode resp \<noteq> 200 then Inl (UnexpectedStatus (StatusCode resp))
               else (case JSONWebKeySet_Decode jose (take maxJWKSSize (Body resp)) of
                       Inl e \<Rightarrow> Inl (DecodeJWKS e)
                     | Inr ks \<Rightarrow> Inr ks)))"

text \<open>The exchange a fetch makes, if the request could be built and was answered.\<close>

definition exchange :: "http_lib \<Rightarrow> 'key keySet \<Rightarrow> (http_client \<times> http_request \<times> http_response) list" where
  "exchange http k =
     (case http_NewRequest http ''GET'' (jwksURL k) of
        Some _ \<Rightarrow> []
      | None \<Rightarrow>
          (case http_Do http (client k) (jwks_request k) of
             Inl _ \<Rightarrow> []
           | Inr resp \<Rightarrow> [(client k, jwks_request k, resp)]))"

text \<open>
  The critical section of \<open>refresh\<close>. \<open>since\<close> is the reading of \<open>time.Since\<close>'s clock, \<open>start\<close> that
  of the following \<open>time.Now\<close>, and \<open>new\<close> the address of a freshly allocated result. The request is
  throttled, or waits for a running refresh, or starts one and waits for it.
\<close>

datatype refresh_action = Throttled | Join nat | Start nat

definition refresh_section :: "time \<Rightarrow> time \<Rightarrow> nat \<Rightarrow> 'key keySet \<Rightarrow> 'key keySet \<times> refresh_action" where
  "refresh_section since start new k =
     (case inflight k of
        Some r \<Rightarrow> if length (keys k) > 0 then (k, Throttled) else (k, Join r)
      | None \<Rightarrow>
          if \<not> Time_IsZero (lastFetch k) \<and> since - lastFetch k < interval k then (k, Throttled)
          else (k\<lparr>inflight := Some new, lastFetch := start\<rparr>, Start new))"

text \<open>The critical section of the goroutine, once its fetch has returned.\<close>

definition refresh_publish :: "fetch_error + 'key list \<Rightarrow> 'key keySet \<Rightarrow> 'key keySet" where
  "refresh_publish res k =
     (case res of
        Inl _ \<Rightarrow> k\<lparr>inflight := None\<rparr>
      | Inr ks \<Rightarrow> k\<lparr>keys := ks, inflight := None\<rparr>)"

definition fetch_err :: "fetch_error + 'key list \<Rightarrow> fetch_error option" where
  "fetch_err res = (case res of Inl e \<Rightarrow> Some e | Inr _ \<Rightarrow> None)"

text \<open>Where a call of \<open>VerifySignature\<close> is, and where a refresh goroutine is.\<close>

datatype 'jws pc =
    ReadKeys 'jws string
  | CallRefresh 'jws string
  | Waiting 'jws string nat
  | Reread 'jws string
  | Done "ks_error + string"

datatype 'key goroutine = Fetching | Fetched "fetch_error + 'key list" | Closing "fetch_error option"

definition VerifySignature_parse :: "('jws, 'key) jose_lib \<Rightarrow> 'key keySet \<Rightarrow> string \<Rightarrow> 'jws pc" where
  "VerifySignature_parse jose k rawToken =
     (case ParseSigned jose rawToken (algs k) of
        Inl e \<Rightarrow> Done (Inl (MalformedJWT e))
      | Inr jws \<Rightarrow>
          if length (Signature_KeyIDs jose jws) \<noteq> 1 then Done (Inl NotOneSignature)
          else ReadKeys jws (Signature_KeyIDs jose jws ! 0))"

definition VerifySignature_cached :: "('jws, 'key) jose_lib \<Rightarrow> 'key keySet \<Rightarrow> 'jws \<Rightarrow> string \<Rightarrow> 'jws pc" where
  "VerifySignature_cached jose k jws kid =
     (case verifyWith jose jws kid (keys k) of
        Some payload \<Rightarrow> Done (Inr payload)
      | None \<Rightarrow> CallRefresh jws kid)"

definition VerifySignature_final :: "('jws, 'key) jose_lib \<Rightarrow> 'key keySet \<Rightarrow> 'jws \<Rightarrow> string \<Rightarrow> 'jws pc" where
  "VerifySignature_final jose k jws kid =
     (case verifyWith jose jws kid (keys k) of
        Some payload \<Rightarrow> Done (Inr payload)
      | None \<Rightarrow> Done (Inl BadSignature))"

definition refresh_result :: "'jws \<Rightarrow> string \<Rightarrow> refreshResult \<Rightarrow> 'jws pc" where
  "refresh_result jws kid r =
     (case Result_err r of
        None \<Rightarrow> Reread jws kid
      | Some e \<Rightarrow> Done (Inl (RefreshError e)))"

record ('jws, 'key) sys =
  kset :: "'key keySet"
  sys_now :: time
  results :: "nat \<rightharpoonup> refreshResult"
  goroutines :: "nat \<rightharpoonup> 'key goroutine"
  reqs :: "nat \<rightharpoonup> string \<times> 'jws pc"
  starts :: "time list"
  fetched :: "'key list list"
  answers :: "(http_client \<times> http_request \<times> http_response) list"

definition sys_init :: "'key keySet \<Rightarrow> time \<Rightarrow> ('jws, 'key) sys" where
  "sys_init k t = \<lparr>kset = k, sys_now = t, results = Map.empty, goroutines = Map.empty, reqs = Map.empty,
     starts = [], fetched = [], answers = []\<rparr>"

text \<open>The critical section as a step of request \<open>q\<close>: what it does to the whole system.\<close>

definition do_refresh ::
    "time \<Rightarrow> time \<Rightarrow> nat \<Rightarrow> nat \<Rightarrow> string \<Rightarrow> 'jws \<Rightarrow> string \<Rightarrow> ('jws, 'key) sys \<Rightarrow> ('jws, 'key) sys" where
  "do_refresh since start new q raw jws kid s =
     (case refresh_section since start new (kset s) of
        (k, Throttled) \<Rightarrow> s\<lparr>kset := k, sys_now := start, reqs := (reqs s)(q \<mapsto> (raw, Done (Inl RefreshThrottled)))\<rparr>
      | (k, Join r) \<Rightarrow> s\<lparr>kset := k, sys_now := start, reqs := (reqs s)(q \<mapsto> (raw, Waiting jws kid r))\<rparr>
      | (k, Start r) \<Rightarrow>
          s\<lparr>kset := k, sys_now := start, results := (results s)(r \<mapsto> \<lparr>closed = False, Result_err = None\<rparr>),
            goroutines := (goroutines s)(r \<mapsto> Fetching), reqs := (reqs s)(q \<mapsto> (raw, Waiting jws kid r)),
            starts := start # starts s\<rparr>)"

inductive kstep :: "('jws, 'key) jose_lib \<Rightarrow> ('jws, 'key) sys \<Rightarrow> ('jws, 'key) sys \<Rightarrow> bool"
  for jose :: "('jws, 'key) jose_lib" where
  Call: "reqs s q = None \<Longrightarrow>
     kstep jose s (s\<lparr>reqs := (reqs s)(q \<mapsto> (raw, VerifySignature_parse jose (kset s) raw))\<rparr>)"
| Read: "reqs s q = Some (raw, ReadKeys jws kid) \<Longrightarrow>
     kstep jose s (s\<lparr>reqs := (reqs s)(q \<mapsto> (raw, VerifySignature_cached jose (kset s) jws kid))\<rparr>)"
| Refresh: "reqs s q = Some (raw, CallRefresh jws kid) \<Longrightarrow> sys_now s \<le> since \<Longrightarrow> since \<le> start \<Longrightarrow>
     results s new = None \<Longrightarrow> kstep jose s (do_refresh since start new q raw jws kid s)"
| Fetch: "goroutines s r = Some Fetching \<Longrightarrow>
     kstep jose s (s\<lparr>goroutines := (goroutines s)(r \<mapsto> Fetched (fetch jose http (kset s))),
       answers := exchange http (kset s) @ answers s\<rparr>)"
| Publish: "goroutines s r = Some (Fetched res) \<Longrightarrow>
     kstep jose s (s\<lparr>kset := refresh_publish res (kset s),
       goroutines := (goroutines s)(r \<mapsto> Closing (fetch_err res)),
       fetched := (case res of Inl _ \<Rightarrow> fetched s | Inr ks \<Rightarrow> ks # fetched s)\<rparr>)"
| Close: "goroutines s r = Some (Closing e) \<Longrightarrow>
     kstep jose s (s\<lparr>results := (results s)(r \<mapsto> \<lparr>closed = True, Result_err = e\<rparr>),
       goroutines := (goroutines s)(r := None)\<rparr>)"
| Wake: "reqs s q = Some (raw, Waiting jws kid r) \<Longrightarrow> results s r = Some res \<Longrightarrow> closed res \<Longrightarrow>
     kstep jose s (s\<lparr>reqs := (reqs s)(q \<mapsto> (raw, refresh_result jws kid res))\<rparr>)"
| Cancel: "reqs s q = Some (raw, Waiting jws kid r) \<Longrightarrow>
     kstep jose s (s\<lparr>reqs := (reqs s)(q \<mapsto> (raw, Done (Inl ContextDone)))\<rparr>)"
| Final: "reqs s q = Some (raw, Reread jws kid) \<Longrightarrow>
     kstep jose s (s\<lparr>reqs := (reqs s)(q \<mapsto> (raw, VerifySignature_final jose (kset s) jws kid))\<rparr>)"
| Tick: "sys_now s \<le> t \<Longrightarrow> kstep jose s (s\<lparr>sys_now := t\<rparr>)"

inductive_cases kstep_cases: "kstep jose s s'"

text \<open>
  The runs of one cache start in the state \<open>newKeySet\<close> creates, at a time \<open>t0\<close> after the zero time. The
  HTTP responses vary from fetch to fetch (\<open>http\<close> is free in \<open>Fetch\<close>).
\<close>

definition cache_start :: "'key keySet \<Rightarrow> time \<Rightarrow> ('jws, 'key) sys \<Rightarrow> bool" where
  "cache_start k0 t0 s \<longleftrightarrow> zeroTime < t0 \<and> (\<exists>url c as i. k0 = newKeySet url c as i) \<and> s = sys_init k0 t0"

definition kreach :: "('jws, 'key) jose_lib \<Rightarrow> 'key keySet \<Rightarrow> time \<Rightarrow> ('jws, 'key) sys \<Rightarrow> bool" where
  "kreach jose k0 t0 s \<longleftrightarrow> (\<exists>s0. cache_start k0 t0 s0 \<and> (kstep jose)\<^sup>*\<^sup>* s0 s)"

text \<open>The step relation as a function of the scheduler's choice, for running schedules.\<close>

datatype event =
    ECall nat string
  | ERead nat
  | ERefresh nat time time nat
  | EFetch nat http_lib
  | EPublish nat
  | EClose nat
  | EWake nat
  | ECancel nat
  | EFinal nat
  | ETick time

fun sched :: "('jws, 'key) jose_lib \<Rightarrow> event \<Rightarrow> ('jws, 'key) sys \<Rightarrow> ('jws, 'key) sys option" where
  "sched jose (ECall q raw) s =
     (if reqs s q = None
      then Some (s\<lparr>reqs := (reqs s)(q \<mapsto> (raw, VerifySignature_parse jose (kset s) raw))\<rparr>) else None)"
| "sched jose (ERead q) s =
     (case reqs s q of
        Some (raw, ReadKeys jws kid) \<Rightarrow>
          Some (s\<lparr>reqs := (reqs s)(q \<mapsto> (raw, VerifySignature_cached jose (kset s) jws kid))\<rparr>)
      | _ \<Rightarrow> None)"
| "sched jose (ERefresh q since start new) s =
     (case reqs s q of
        Some (raw, CallRefresh jws kid) \<Rightarrow>
          if sys_now s \<le> since \<and> since \<le> start \<and> results s new = None
          then Some (do_refresh since start new q raw jws kid s) else None
      | _ \<Rightarrow> None)"
| "sched jose (EFetch r http) s =
     (case goroutines s r of
        Some Fetching \<Rightarrow>
          Some (s\<lparr>goroutines := (goroutines s)(r \<mapsto> Fetched (fetch jose http (kset s))),
            answers := exchange http (kset s) @ answers s\<rparr>)
      | _ \<Rightarrow> None)"
| "sched jose (EPublish r) s =
     (case goroutines s r of
        Some (Fetched res) \<Rightarrow>
          Some (s\<lparr>kset := refresh_publish res (kset s),
            goroutines := (goroutines s)(r \<mapsto> Closing (fetch_err res)),
            fetched := (case res of Inl _ \<Rightarrow> fetched s | Inr ks \<Rightarrow> ks # fetched s)\<rparr>)
      | _ \<Rightarrow> None)"
| "sched jose (EClose r) s =
     (case goroutines s r of
        Some (Closing e) \<Rightarrow>
          Some (s\<lparr>results := (results s)(r \<mapsto> \<lparr>closed = True, Result_err = e\<rparr>),
            goroutines := (goroutines s)(r := None)\<rparr>)
      | _ \<Rightarrow> None)"
| "sched jose (EWake q) s =
     (case reqs s q of
        Some (raw, Waiting jws kid r) \<Rightarrow>
          (case results s r of
             Some res \<Rightarrow>
               if closed res then Some (s\<lparr>reqs := (reqs s)(q \<mapsto> (raw, refresh_result jws kid res))\<rparr>) else None
           | None \<Rightarrow> None)
      | _ \<Rightarrow> None)"
| "sched jose (ECancel q) s =
     (case reqs s q of
        Some (raw, Waiting jws kid r) \<Rightarrow> Some (s\<lparr>reqs := (reqs s)(q \<mapsto> (raw, Done (Inl ContextDone)))\<rparr>)
      | _ \<Rightarrow> None)"
| "sched jose (EFinal q) s =
     (case reqs s q of
        Some (raw, Reread jws kid) \<Rightarrow>
          Some (s\<lparr>reqs := (reqs s)(q \<mapsto> (raw, VerifySignature_final jose (kset s) jws kid))\<rparr>)
      | _ \<Rightarrow> None)"
| "sched jose (ETick t) s = (if sys_now s \<le> t then Some (s\<lparr>sys_now := t\<rparr>) else None)"

fun schedule :: "('jws, 'key) jose_lib \<Rightarrow> event list \<Rightarrow> ('jws, 'key) sys \<Rightarrow> ('jws, 'key) sys option" where
  "schedule jose [] s = Some s"
| "schedule jose (e # es) s = (case sched jose e s of None \<Rightarrow> None | Some s' \<Rightarrow> schedule jose es s')"

lemma sched_sound: "sched jose e s = Some s' \<Longrightarrow> kstep jose s s'"
  by (induction jose e s rule: sched.induct)
     (auto split: if_splits option.splits pc.splits goroutine.splits intro: kstep.intros)

lemma sched_complete: "kstep jose s s' \<Longrightarrow> \<exists>e. sched jose e s = Some s'"
proof (induction rule: kstep.induct)
  case (Call s q raw) then show ?case by (intro exI [of _ "ECall q raw"]) simp
next
  case (Read s q raw jws kid) then show ?case by (intro exI [of _ "ERead q"]) simp
next
  case (Refresh s q raw jws kid since start new)
  then show ?case by (intro exI [of _ "ERefresh q since start new"]) simp
next
  case (Fetch s r http) then show ?case by (intro exI [of _ "EFetch r http"]) simp
next
  case (Publish s r res) then show ?case by (intro exI [of _ "EPublish r"]) simp
next
  case (Close s r e) then show ?case by (intro exI [of _ "EClose r"]) simp
next
  case (Wake s q raw jws kid r res) then show ?case by (intro exI [of _ "EWake q"]) simp
next
  case (Cancel s q raw jws kid r) then show ?case by (intro exI [of _ "ECancel q"]) simp
next
  case (Final s q raw jws kid) then show ?case by (intro exI [of _ "EFinal q"]) simp
next
  case (Tick s t) then show ?case by (intro exI [of _ "ETick t"]) simp
qed

lemma schedule_sound: "schedule jose es s = Some s' \<Longrightarrow> (kstep jose)\<^sup>*\<^sup>* s s'"
  by (induction jose es s rule: schedule.induct)
     (auto split: option.splits intro: converse_rtranclp_into_rtranclp dest: sched_sound)

lemma schedule_append:
  "schedule jose (es @ fs) s = (case schedule jose es s of None \<Rightarrow> None | Some s' \<Rightarrow> schedule jose fs s')"
  by (induction jose es s rule: schedule.induct) (auto split: option.splits)

interpretation cache: transition_system "cache_start k0 t0" "kstep jose" for k0 t0 jose .

lemma kreach_reachable: "kreach jose k0 t0 s \<longleftrightarrow> cache.reachable k0 t0 jose s"
  by (simp add: kreach_def cache.reachable_def)

end
