(* ===== verification/Verifier.thy ===== *)
theory Verifier
  imports Identity KeySet
begin

text \<open>
  Package \<open>internal/verifier\<close>, file \<open>verifier.go\<close>: building the verifier of every configured issuer, and the
  verification of one token. go-oidc is the argument \<open>oidc\<close>: its calls reach the network and the key set of the
  issuer, so they act on a world \<open>'w\<close> that \<open>Verify\<close> and \<open>New\<close> thread through. A context is represented by its
  deadline.
\<close>

subsection \<open>Model\<close>

record 'v issuerEntry =
  verifier :: 'v
  requireClaims :: go_map

record 'v Verifier =
  issuers :: "string \<rightharpoonup> 'v issuerEntry"
  audiences :: "string set"

record IssuerOption =
  URL :: string
  RequireClaims :: go_map

record Options =
  Opt_Issuers :: "IssuerOption list"
  Opt_Audiences :: "string list"
  SigningAlgs :: "string list"
  HTTPTimeout :: duration
  RootCAs :: "string option"
  JWKSRefreshInterval :: duration

record 'c IDToken =
  Tok_Issuer :: string
  Tok_Subject :: string
  Tok_Audience :: "string list"
  Tok_Expiry :: time
  Tok_claims :: 'c

record oidc_config =
  SkipClientIDCheck :: bool
  SupportedSigningAlgs :: "string list"

text \<open>
  The go-oidc calls: discovery, the \<open>jwks_uri\<close> of a provider (empty when the document has none), the construction
  of an ID token verifier on a key set, verification, and the raw claims of a verified token.
\<close>

record ('prov, 'key, 'v, 'c, 'w) oidc_lib =
  NewProvider :: "http_client \<Rightarrow> string \<Rightarrow> 'w \<Rightarrow> (string + 'prov) \<times> 'w"
  Provider_jwks_uri :: "'prov \<Rightarrow> string + string"
  NewVerifier :: "string \<Rightarrow> 'key keySet \<Rightarrow> oidc_config \<Rightarrow> 'w \<Rightarrow> 'v \<times> 'w"
  IDTokenVerifier_Verify :: "'v \<Rightarrow> time \<Rightarrow> string \<Rightarrow> 'w \<Rightarrow> (string + 'c IDToken) \<times> 'w"
  IDToken_Claims :: "'c \<Rightarrow> string + string"

datatype verify_error =
    EmptyToken
  | ExpectedThreeSegments
  | MalformedPayload
  | NoIssuer
  | ErrUntrustedIssuer
  | TokenVerificationFailed string
  | AudienceNotAllowed "string list"
  | ReadTokenClaims string
  | IdentityError identity_error
  | RequiredClaimMismatch string

definition unverifiedIssuer :: "string \<Rightarrow> verify_error + string" where
  "unverifiedIssuer rawToken =
     (let parts = strings_Split rawToken CHR ''.''
      in if length parts \<noteq> 3 then Inl ExpectedThreeSegments
         else case b64_DecodeString (parts ! 1) of
                None \<Rightarrow> Inl MalformedPayload
              | Some payload \<Rightarrow>
                  (case (case json_Unmarshal payload of
                           Some (JObj kvs) \<Rightarrow> string_field (field_values ''iss'' kvs) []
                         | Some JNull \<Rightarrow> Some []
                         | _ \<Rightarrow> None) of
                     None \<Rightarrow> Inl MalformedPayload
                   | Some iss \<Rightarrow> if iss = [] then Inl NoIssuer else Inr iss))"

fun audienceAllowed :: "'v Verifier \<Rightarrow> string list \<Rightarrow> bool" where
  "audienceAllowed v [] = False"
| "audienceAllowed v (aud # auds) = (if aud \<in> audiences v then True else audienceAllowed v auds)"

definition Verify ::
    "('prov, 'key, 'v, 'c, 'w) oidc_lib \<Rightarrow> (json \<Rightarrow> json) \<Rightarrow> 'v Verifier \<Rightarrow> time \<Rightarrow> string \<Rightarrow> 'w \<Rightarrow>
     (verify_error + Identity) \<times> 'w" where
  "Verify oidc ord v ctx rawToken w =
     (if rawToken = [] then (Inl EmptyToken, w)
      else (case unverifiedIssuer rawToken of
        Inl e \<Rightarrow> (Inl e, w)
      | Inr iss \<Rightarrow>
        (case issuers v iss of
           None \<Rightarrow> (Inl ErrUntrustedIssuer, w)
         | Some entry \<Rightarrow>
           (case IDTokenVerifier_Verify oidc (verifier entry) ctx rawToken w of
              (Inl e, w') \<Rightarrow> (Inl (TokenVerificationFailed e), w')
            | (Inr idToken, w') \<Rightarrow>
              if \<not> audienceAllowed v (Tok_Audience idToken) then (Inl (AudienceNotAllowed (Tok_Audience idToken)), w')
              else (case IDToken_Claims oidc (Tok_claims idToken) of
                Inl e \<Rightarrow> (Inl (ReadTokenClaims e), w')
              | Inr raw \<Rightarrow>
                (case Parse ord raw of
                   Inl e \<Rightarrow> (Inl (IdentityError e), w')
                 | Inr i0 \<Rightarrow>
                   (let i = i0\<lparr>Id_Issuer := Tok_Issuer idToken, Id_Subject := Tok_Subject idToken,
                               Id_Audience := Tok_Audience idToken, Id_Expiry := Tok_Expiry idToken\<rparr>
                    in case first_mismatch (Claim i) (requireClaims entry) of
                         Some k \<Rightarrow> (Inl (RequiredClaimMismatch k), w')
                       | None \<Rightarrow> (Inr i, w'))))))))"

datatype new_error =
    NoIssuers | NoAudiences | NoSigningAlgs | DuplicateIssuer string
  | OIDCDiscovery string string | NoJWKSURI string

definition discovery_client :: "Options \<Rightarrow> http_client" where
  "discovery_client opts =
     \<lparr>Client_Timeout = (if HTTPTimeout opts = 0 then 10 * second else HTTPTimeout opts),
      Client_Transport = map_option (\<lambda>pool. \<lparr>Proxy_FromEnvironment = True, TLS_RootCAs = pool, TLS_MinVersion = 12\<rparr>)
        (RootCAs opts)\<rparr>"

text \<open>The loop over the configured issuers; the map is the part of \<open>v.issuers\<close> filled so far.\<close>

fun new_issuers ::
    "('prov, 'key, 'v, 'c, 'w) oidc_lib \<Rightarrow> Options \<Rightarrow> http_client \<Rightarrow> IssuerOption list \<Rightarrow>
     (string \<rightharpoonup> 'v issuerEntry) \<Rightarrow> 'w \<Rightarrow> (new_error + (string \<rightharpoonup> 'v issuerEntry)) \<times> 'w" where
  "new_issuers oidc opts c [] m w = (Inr m, w)"
| "new_issuers oidc opts c (iss # rest) m w =
     (if m (URL iss) \<noteq> None then (Inl (DuplicateIssuer (URL iss)), w)
      else case NewProvider oidc c (URL iss) w of
        (Inl e, w1) \<Rightarrow> (Inl (OIDCDiscovery (URL iss) e), w1)
      | (Inr provider, w1) \<Rightarrow>
        (case Provider_jwks_uri oidc provider of
           Inl e \<Rightarrow> (Inl (NoJWKSURI (URL iss)), w1)
         | Inr jwks \<Rightarrow>
           if jwks = [] then (Inl (NoJWKSURI (URL iss)), w1)
           else (let ks = newKeySet jwks c (SigningAlgs opts) (JWKSRefreshInterval opts);
                     (ov, w2) = NewVerifier oidc (URL iss) ks
                       \<lparr>SkipClientIDCheck = True, SupportedSigningAlgs = SigningAlgs opts\<rparr> w1
                 in new_issuers oidc opts c rest
                      (m(URL iss \<mapsto> \<lparr>verifier = ov, requireClaims = RequireClaims iss\<rparr>)) w2)))"

definition verifier_New ::
    "('prov, 'key, 'v, 'c, 'w) oidc_lib \<Rightarrow> Options \<Rightarrow> 'w \<Rightarrow> (new_error + 'v Verifier) \<times> 'w" where
  "verifier_New oidc opts w =
     (if Opt_Issuers opts = [] then (Inl NoIssuers, w)
      else if Opt_Audiences opts = [] then (Inl NoAudiences, w)
      else if SigningAlgs opts = [] then (Inl NoSigningAlgs, w)
      else case new_issuers oidc opts (discovery_client opts) (Opt_Issuers opts) Map.empty w of
        (Inl e, w') \<Rightarrow> (Inl e, w')
      | (Inr m, w') \<Rightarrow> (Inr \<lparr>issuers = m, audiences = set (Opt_Audiences opts)\<rparr>, w'))"

subsection \<open>The unverified issuer\<close>

lemma b64_char_no_dot: "b64_char v \<noteq> CHR ''.''"
proof
  assume "b64_char v = CHR ''.''"
  then have "byte (b64_char v) = 46" by (simp add: byte_def)
  then show False by (auto simp: b64_char_def byte_def split: if_splits)
qed

lemma b64_Encode_no_dot: "CHR ''.'' \<notin> set (b64_EncodeToString s)"
  by (induction s rule: b64_EncodeToString.induct) (use b64_char_no_dot in \<open>auto dest: sym\<close>)

lemma audienceAllowed_iff: "audienceAllowed v auds \<longleftrightarrow> (\<exists>aud \<in> set auds. aud \<in> audiences v)"
  by (induction v auds rule: audienceAllowed.induct) auto

end
