(* ===== verification/VerifierProps.thy ===== *)
theory VerifierProps
  imports Verifier
begin

text \<open>
  The guarantees of the token verifier: what acceptance means, that an untrusted issuer never causes any
  activity, and that construction is all or nothing.
\<close>

subsection \<open>Example: one issuer whose ID token verifier accepts one token\<close>

text \<open>The world of the example counts the calls of go-oidc.\<close>

definition example_claims :: string where
  "example_claims = ''{'' @ js ''iss'' @ '':'' @ js ''https://i'' @ '','' @ js ''team'' @ '':'' @ js ''a'' @ ''}''"

definition example_token :: string where
  "example_token = ''h.'' @ b64_EncodeToString example_claims @ ''.s''"

definition example_IDToken :: "string IDToken" where
  "example_IDToken = \<lparr>Tok_Issuer = ''https://i'', Tok_Subject = ''arn:aws:iam::123456789012:role/app'',
     Tok_Audience = [''x'', ''nats''], Tok_Expiry = 900 * second, Tok_claims = example_claims\<rparr>"

definition example_oidc :: "(string, string, string, string, nat) oidc_lib" where
  "example_oidc = \<lparr>NewProvider = (\<lambda>c url w. (Inr url, Suc w)), Provider_jwks_uri = (\<lambda>url. Inr (url @ ''/jwks'')),
     NewVerifier = (\<lambda>url ks cfg w. (url, w)),
     IDTokenVerifier_Verify = (\<lambda>v ctx raw w.
       (if raw = example_token \<and> v = ''https://i'' then Inr example_IDToken else Inl ''bad signature'', Suc w)),
     IDToken_Claims = Inr\<rparr>"

definition example_verifier :: "string Verifier" where
  "example_verifier = \<lparr>issuers = [''https://i'' \<mapsto> \<lparr>verifier = ''https://i'', requireClaims = [(''team'', ''a'')]\<rparr>],
     audiences = {''nats''}\<rparr>"

definition verified_identity :: Identity where
  "verified_identity = \<lparr>Id_Issuer = ''https://i'', Id_Subject = ''arn:aws:iam::123456789012:role/app'',
     Id_Audience = [''x'', ''nats''], Id_Expiry = 900 * second, Id_claims = [''team'' \<mapsto> ''a'']\<rparr>"

subsection \<open>The unverified issuer\<close>

text \<open>The issuer used to select a verifier is the one the token's payload states: for a well-formed token, whose
  middle segment is the unpadded URL encoding of a JSON object, it is the string stored by the last member that names
  the iss field, whatever the header and the signature are.\<close>

theorem unverifiedIssuer_reads_payload:
  assumes "CHR ''.'' \<notin> set header" and "CHR ''.'' \<notin> set sig"
    and "json_Unmarshal payload = Some (JObj kvs)"
    and "string_field (field_values ''iss'' kvs) [] = Some iss" and "iss \<noteq> []"
  shows "unverifiedIssuer (header @ ''.'' @ b64_EncodeToString payload @ ''.'' @ sig) = Inr iss"
proof -
  have "strings_Split (header @ CHR ''.'' # b64_EncodeToString payload @ CHR ''.'' # sig) CHR ''.'' =
      [header, b64_EncodeToString payload, sig]"
    using assms(1,2) by (simp add: Split_append Split_plain b64_Encode_no_dot)
  with assms(3-5) show ?thesis by (simp add: unverifiedIssuer_def b64_Decode_Encode)
qed

lemma example_claims_json:
  "json_Unmarshal example_claims = Some (JObj [(''iss'', JStr ''https://i''), (''team'', JStr ''a'')])"
  by code_simp

lemma example_token_issuer: "unverifiedIssuer example_token = Inr ''https://i''"
proof -
  have "string_field (field_values ''iss'' [(''iss'', JStr ''https://i''), (''team'', JStr ''a'')]) [] = Some ''https://i''"
    by code_simp
  moreover have "strings_Split example_token CHR ''.'' = [''h'', b64_EncodeToString example_claims, ''s'']"
    by (simp add: example_token_def Split_append Split_plain b64_Encode_no_dot)
  ultimately show ?thesis
    by (simp add: unverifiedIssuer_def b64_Decode_Encode example_claims_json)
qed

subsection \<open>Acceptance\<close>

text \<open>The identity \<open>Verify\<close> assembles from a verified token and its parsed payload.\<close>

definition identity_of :: "'c IDToken \<Rightarrow> Identity \<Rightarrow> Identity" where
  "identity_of tok i0 = i0\<lparr>Id_Issuer := Tok_Issuer tok, Id_Subject := Tok_Subject tok,
     Id_Audience := Tok_Audience tok, Id_Expiry := Tok_Expiry tok\<rparr>"

lemma Verify_Inr:
  "Verify oidc ord v ctx raw w = (Inr i, w') \<longleftrightarrow>
     raw \<noteq> [] \<and>
     (\<exists>iss entry tok payload i0.
        unverifiedIssuer raw = Inr iss \<and> issuers v iss = Some entry \<and>
        IDTokenVerifier_Verify oidc (verifier entry) ctx raw w = (Inr tok, w') \<and>
        (\<exists>aud \<in> set (Tok_Audience tok). aud \<in> audiences v) \<and>
        IDToken_Claims oidc (Tok_claims tok) = Inr payload \<and> Parse ord payload = Inr i0 \<and>
        i = identity_of tok i0 \<and> (\<forall>(k, want) \<in> set (requireClaims entry). Claim i k = Some want))"
  by (auto simp: Verify_def Let_def audienceAllowed_iff identity_of_def first_mismatch_None_iff
      split: sum.splits option.splits prod.splits if_splits) (fastforce dest: first_mismatch_Some)

lemma identity_of_iff:
  "i = identity_of tok i0 \<longleftrightarrow>
     Id_claims i = Id_claims i0 \<and> Id_Issuer i = Tok_Issuer tok \<and> Id_Subject i = Tok_Subject tok \<and>
     Id_Audience i = Tok_Audience tok \<and> Id_Expiry i = Tok_Expiry tok"
  by (auto simp: identity_of_def)

text \<open>C8: a token is accepted exactly when its stated issuer is configured, go-oidc verified it with that
  issuer's verifier, one of the verified audiences is on the allowlist, the verified payload parses and every required
  claim of the issuer has its required value, in whatever order the required claims are visited. The
  issuer, subject, audience and expiry of the returned identity are those go-oidc verified.\<close>

theorem Verify_accepts_iff:
  "Verify oidc ord v ctx raw w = (Inr i, w') \<longleftrightarrow>
     raw \<noteq> [] \<and>
     (\<exists>iss entry tok payload i0.
        unverifiedIssuer raw = Inr iss \<and> issuers v iss = Some entry \<and>
        IDTokenVerifier_Verify oidc (verifier entry) ctx raw w = (Inr tok, w') \<and>
        (\<exists>aud \<in> set (Tok_Audience tok). aud \<in> audiences v) \<and>
        IDToken_Claims oidc (Tok_claims tok) = Inr payload \<and> Parse ord payload = Inr i0 \<and>
        Id_claims i = Id_claims i0 \<and> Id_Issuer i = Tok_Issuer tok \<and> Id_Subject i = Tok_Subject tok \<and>
        Id_Audience i = Tok_Audience tok \<and> Id_Expiry i = Tok_Expiry tok \<and>
        (\<forall>(k, want) \<in> set (requireClaims entry). Claim i k = Some want))"
  unfolding Verify_Inr identity_of_iff by simp

lemma example_claims_parse: "Parse (\<lambda>v. v) example_claims =
    Inr \<lparr>Id_Issuer = [], Id_Subject = [], Id_Audience = [], Id_Expiry = zeroTime, Id_claims = [''team'' \<mapsto> ''a'']\<rparr>"
proof -
  have "decode_claims example_claims = Some (JObj [(''iss'', JStr ''https://i''), (''team'', JStr ''a'')])"
    by code_simp
  then show ?thesis by (simp add: Parse_def members_def reserved_def claim_prefix_def Namespace_def)
qed

lemma example_Verify: "Verify example_oidc (\<lambda>v. v) example_verifier ctx example_token w = (Inr verified_identity, Suc w)"
proof -
  have "example_token \<noteq> []" by (simp add: example_token_def)
  moreover have "IDTokenVerifier_Verify example_oidc ''https://i'' ctx example_token w = (Inr example_IDToken, Suc w)"
    by (simp add: example_oidc_def)
  ultimately show ?thesis
    by (simp add: Verify_def example_token_issuer example_verifier_def example_IDToken_def Let_def
        example_claims_parse Claim_def verified_identity_def)
       (simp add: example_oidc_def example_claims_parse example_IDToken_def Claim_def)
qed

theorem Verify_accepts_iff_witness:
  "\<exists>iss entry tok. unverifiedIssuer example_token = Inr iss \<and> issuers example_verifier iss = Some entry \<and>
     IDTokenVerifier_Verify example_oidc (verifier entry) 0 example_token 0 = (Inr tok, 1) \<and>
     Claim verified_identity ''team'' = Some ''a''"
proof -
  have "Verify example_oidc (\<lambda>v. v) example_verifier 0 example_token 0 = (Inr verified_identity, 1)"
    by (simp add: example_Verify)
  from this [unfolded Verify_accepts_iff] have "\<exists>iss entry tok. unverifiedIssuer example_token = Inr iss \<and>
      issuers example_verifier iss = Some entry \<and>
      IDTokenVerifier_Verify example_oidc (verifier entry) 0 example_token 0 = (Inr tok, 1)" by blast
  then show ?thesis by (simp add: verified_identity_def Claim_def)
qed

text \<open>C9: a token whose stated issuer is not configured, or that states none, causes no activity at all: the
  world is unchanged (no discovery, no key fetch, no go-oidc call) and the token is refused. This holds for every
  go-oidc implementation.\<close>

theorem untrusted_issuer_untouched:
  assumes "\<And>iss. unverifiedIssuer raw = Inr iss \<Longrightarrow> issuers v iss = None"
  shows "snd (Verify oidc ord v ctx raw w) = w \<and> (\<exists>e. fst (Verify oidc ord v ctx raw w) = Inl e)"
  using assms by (auto simp: Verify_def split: sum.splits)

theorem untrusted_issuer_untouched_witness:
  "snd (Verify example_oidc (\<lambda>v. v) (example_verifier\<lparr>issuers := Map.empty\<rparr>) 0 example_token 5) = 5 \<and>
   (\<exists>e. fst (Verify example_oidc (\<lambda>v. v) (example_verifier\<lparr>issuers := Map.empty\<rparr>) 0 example_token 5) = Inl e)"
  by (rule untrusted_issuer_untouched) simp

text \<open>An accepted identity never exposes a reserved name (iss, sub, aud, exp, nbf, iat) as a claim, and if
  go-oidc returns only tokens of the issuer its verifier was built for, which it documents, the identity's issuer is
  one of the configured issuers and every claim required for that issuer holds.\<close>

theorem verified_identity_sound:
  assumes "Verify oidc ord v ctx raw w = (Inr i, w')"
    and "\<And>iss entry u tok u'. issuers v iss = Some entry \<Longrightarrow>
       IDTokenVerifier_Verify oidc (verifier entry) ctx raw u = (Inr tok, u') \<Longrightarrow> Tok_Issuer tok = iss"
  shows "(\<exists>entry. issuers v (Id_Issuer i) = Some entry \<and>
      (\<forall>(k, want) \<in> set (requireClaims entry). Claim i k = Some want)) \<and>
    (\<exists>aud \<in> set (Id_Audience i). aud \<in> audiences v) \<and> (\<forall>k \<in> set reserved. Claim i k = None)"
proof -
  from assms(1) obtain iss entry tok payload i0 where e: "issuers v iss = Some entry"
    and t: "IDTokenVerifier_Verify oidc (verifier entry) ctx raw w = (Inr tok, w')"
    and a: "\<exists>aud \<in> set (Tok_Audience tok). aud \<in> audiences v" and p: "Parse ord payload = Inr i0"
    and i: "i = identity_of tok i0" and r: "\<forall>(k, want) \<in> set (requireClaims entry). Claim i k = Some want"
    unfolding Verify_Inr by blast
  have iss: "Id_Issuer i = iss" using assms(2) [OF e t] i by (simp add: identity_of_def)
  have "Claim i0 k = None" if "k \<in> set reserved" for k
    using p that by (auto elim!: Parse_InrE simp: claims_not_reserved Claim_def)
  with i have "\<forall>k \<in> set reserved. Claim i k = None" by (simp add: identity_of_def Claim_def)
  with e a r i iss show ?thesis by (auto simp: identity_of_def)
qed

subsection \<open>Construction\<close>

text \<open>The entry an issuer gets: a verifier for its own URL, on a fresh throttled key set at the advertised address.\<close>

definition built ::
    "('prov, 'key, 'v, 'c, 'w) oidc_lib \<Rightarrow> Options \<Rightarrow> http_client \<Rightarrow> IssuerOption \<Rightarrow> 'v issuerEntry \<Rightarrow> bool" where
  "built oidc opts c iss entry \<longleftrightarrow>
     requireClaims entry = RequireClaims iss \<and>
     (\<exists>provider jwks u1 u2 u3 u4.
        NewProvider oidc c (URL iss) u1 = (Inr provider, u2) \<and>
        Provider_jwks_uri oidc provider = Inr jwks \<and> jwks \<noteq> [] \<and>
        NewVerifier oidc (URL iss) (newKeySet jwks c (SigningAlgs opts) (JWKSRefreshInterval opts))
          \<lparr>SkipClientIDCheck = True, SupportedSigningAlgs = SigningAlgs opts\<rparr> u3 = (verifier entry, u4))"

lemma new_issuers_Inr:
  "new_issuers oidc opts c isss m w = (Inr m', w') \<Longrightarrow>
     distinct (map URL isss) \<and> (\<forall>iss \<in> set isss. m (URL iss) = None) \<and>
     dom m' = dom m \<union> URL ` set isss \<and> (\<forall>u \<in> dom m. m' u = m u) \<and>
     (\<forall>iss \<in> set isss. \<exists>entry. m' (URL iss) = Some entry \<and> built oidc opts c iss entry)"
proof (induction isss arbitrary: m w)
  case (Cons iss rest)
  let ?ks = "\<lambda>jwks. newKeySet jwks c (SigningAlgs opts) (JWKSRefreshInterval opts)"
  from Cons.prems obtain provider w1 jwks ov w2 where fresh: "m (URL iss) = None"
    and p: "NewProvider oidc c (URL iss) w = (Inr provider, w1)"
    and j: "Provider_jwks_uri oidc provider = Inr jwks" "jwks \<noteq> []"
    and v: "NewVerifier oidc (URL iss) (?ks jwks)
        \<lparr>SkipClientIDCheck = True, SupportedSigningAlgs = SigningAlgs opts\<rparr> w1 = (ov, w2)"
    and rest: "new_issuers oidc opts c rest
        (m(URL iss \<mapsto> \<lparr>verifier = ov, requireClaims = RequireClaims iss\<rparr>)) w2 = (Inr m', w')"
    by (auto simp: Let_def split: if_splits sum.splits prod.splits)
  note IH = Cons.IH [OF rest]
  let ?e = "\<lparr>verifier = ov, requireClaims = RequireClaims iss\<rparr>"
  have "built oidc opts c iss ?e" using p j v by (auto simp: built_def)
  moreover have kept: "m' u = (m(URL iss \<mapsto> ?e)) u" if "(m(URL iss \<mapsto> ?e)) u \<noteq> None" for u
    using IH that unfolding dom_def by blast
  moreover have "m' (URL iss) = Some ?e" using kept [of "URL iss"] by simp
  moreover have "\<forall>u \<in> dom m. m' u = m u" using kept fresh by (auto split: if_splits)
  moreover have "URL iss \<notin> URL ` set rest" "\<forall>r \<in> set rest. m (URL r) = None"
    using IH by (auto split: if_splits)
  moreover have "dom m' = insert (URL iss) (dom m \<union> URL ` set rest)"
    using IH dom_fun_upd [of m "URL iss" "Some ?e"] by auto
  moreover have "distinct (map URL rest)"
    "\<forall>iss \<in> set rest. \<exists>entry. m' (URL iss) = Some entry \<and> built oidc opts c iss entry" using IH by blast+
  ultimately show ?case using fresh by simp
qed simp

text \<open>C20: construction is all or nothing. When it succeeds, the configured issuer URLs are pairwise different and are
  exactly the trusted ones, the audience allowlist and the algorithm allowlist are not empty, and every issuer has a
  verifier for its own URL, restricted to the configured algorithms, on a throttled key set at the address its own
  discovery document advertised, with its own required claims.\<close>

theorem verifier_New_trust_set:
  assumes "verifier_New oidc opts w = (Inr v, w')"
  shows "distinct (map URL (Opt_Issuers opts)) \<and> dom (issuers v) = URL ` set (Opt_Issuers opts) \<and>
    dom (issuers v) \<noteq> {} \<and> audiences v = set (Opt_Audiences opts) \<and> audiences v \<noteq> {} \<and> SigningAlgs opts \<noteq> [] \<and>
    (\<forall>iss \<in> set (Opt_Issuers opts). \<exists>entry. issuers v (URL iss) = Some entry \<and>
       built oidc opts (discovery_client opts) iss entry)"
proof -
  from assms obtain m where ne: "Opt_Issuers opts \<noteq> []" "Opt_Audiences opts \<noteq> []" "SigningAlgs opts \<noteq> []"
    and m: "new_issuers oidc opts (discovery_client opts) (Opt_Issuers opts) Map.empty w = (Inr m, w')"
    and v: "v = \<lparr>issuers = m, audiences = set (Opt_Audiences opts)\<rparr>"
    by (auto simp: verifier_New_def split: if_splits prod.splits sum.splits)
  from new_issuers_Inr [OF m] ne v show ?thesis by simp
qed

definition example_options :: Options where
  "example_options = \<lparr>Opt_Issuers = [\<lparr>URL = ''https://i'', RequireClaims = [(''team'', ''a'')]\<rparr>],
     Opt_Audiences = [''nats''], SigningAlgs = [''RS256''], HTTPTimeout = 0, RootCAs = None, JWKSRefreshInterval = 0\<rparr>"

lemma example_New: "verifier_New example_oidc example_options 0 = (Inr example_verifier, 1)"
  by (simp add: verifier_New_def example_options_def example_oidc_def example_verifier_def)

theorem verifier_New_trust_set_witness:
  "dom (issuers example_verifier) = {''https://i''} \<and> audiences example_verifier = {''nats''}"
  using verifier_New_trust_set [OF example_New] by (simp add: example_options_def)

end
