(* ===== verification/GoRegexp.thy ===== *)
theory GoRegexp
  imports GoUtf8
begin

text \<open>
  The part of Go's \<open>regexp\<close> package that the policy engine relies on: \<open>Compile\<close> (a lexer and
  a stack parser for RE2 syntax), \<open>QuoteMeta\<close>, \<open>FindStringIndex\<close> and \<open>MatchString\<close>, with
  the package's leftmost-first match selection and its default flags (\<open>^\<close> and \<open>$\<close> match at the
  two ends of the text only, \<open>.\<close> does not match a newline, a negated class does). Patterns and texts
  are matched rune by rune: a pattern must be valid UTF-8, every stray byte of a text counts as one
  U+FFFD, and the positions of a match are byte offsets.

  The supported syntax is: literals, \<open>.\<close>, classes with ranges and negation, the Perl classes
  \<open>\d \s \w\<close> and the POSIX classes with their negations, escaped punctuation, control characters,
  octal and hexadecimal escapes, \<open>\Q..\E\<close>, capturing and non-capturing groups, alternation, greedy
  and lazy \<open>*\<close>, \<open>+\<close>, \<open>?\<close> and counted repetition with the limit of 1000 on nested counts, \<open>^\<close>, \<open>$\<close>,
  \<open>\A\<close>, \<open>\z\<close>, \<open>\b\<close>, \<open>\B\<close>. Unicode classes \<open>\p\<close>, inline flags and named groups are reported as
  \<open>UnsupportedSyntax\<close>; the limits on the size and the nesting depth of an expression are not modelled.
\<close>

type_synonym rune = nat

subsection \<open>Syntax trees\<close>

datatype re =
    REmpty
  | RLit rune
  | RAny
  | RClass bool "(rune \<times> rune) list"  \<comment> \<open>negated, ranges\<close>
  | RBegin
  | REnd
  | RWordB
  | RNoWordB
  | RCat re re
  | RAlt re re
  | RStar bool re                      \<comment> \<open>greedy\<close>
  | RPlus bool re
  | RQuest bool re
  | RRepeat nat "nat option" bool re

datatype re_error =
    InvalidUTF8
  | TrailingBackslash
  | InvalidEscape
  | MissingBracket
  | InvalidCharRange
  | InvalidRepeatSize
  | InvalidRepeatOp
  | MissingRepeatArgument
  | MissingParen
  | UnexpectedParen
  | UnsupportedSyntax

datatype rep = RepStar | RepPlus | RepQuest | RepRange nat "nat option"

datatype tok = TAtom re | TOpen | TClose | TBar | TRep rep bool | TErr re_error

lemma byte_literal [simp]:
  "byte (Char b0 b1 b2 b3 b4 b5 b6 b7) = horner_sum of_bool 2 [b0, b1, b2, b3, b4, b5, b6, b7]"
  by (simp add: byte_def)

subsection \<open>Matching: the ends of a match, best first\<close>

definition newline :: rune where "newline = 10"

definition in_class :: "bool \<Rightarrow> (rune \<times> rune) list \<Rightarrow> rune \<Rightarrow> bool" where
  "in_class neg rs c \<longleftrightarrow> (neg \<noteq> list_ex (\<lambda>(lo, hi). lo \<le> c \<and> c \<le> hi) rs)"

definition perl_word :: "(rune \<times> rune) list" where
  "perl_word = [(48, 57), (65, 90), (95, 95), (97, 122)]"

definition word_at :: "rune list \<Rightarrow> nat \<Rightarrow> bool" where
  "word_at s i \<longleftrightarrow> i < length s \<and> in_class False perl_word (s ! i)"

definition at_boundary :: "rune list \<Rightarrow> nat \<Rightarrow> bool" where
  "at_boundary s i \<longleftrightarrow> (0 < i \<and> word_at s (i - 1)) \<noteq> word_at s i"

text \<open>
  \<open>loop_ends g f n j\<close> are the ends reachable from the head of a loop at position \<open>j\<close> in the order
  the matcher prefers them; an iteration that consumes nothing is not taken again. Every
  iteration moves forward, so \<open>n = length s\<close> iterations are enough.
\<close>

primrec loop_ends :: "bool \<Rightarrow> (nat \<Rightarrow> nat list) \<Rightarrow> nat \<Rightarrow> nat \<Rightarrow> nat list" where
  "loop_ends g f 0 j = [j]"
| "loop_ends g f (Suc n) j =
     (let more = concat (map (\<lambda>k. if j < k then loop_ends g f n k else []) (f j))
      in if g then more @ [j] else j # more)"

definition plus_ends :: "bool \<Rightarrow> (nat \<Rightarrow> nat list) \<Rightarrow> nat \<Rightarrow> nat \<Rightarrow> nat list" where
  "plus_ends g f n i = concat (map (\<lambda>k. if i < k then loop_ends g f n k else [k]) (f i))"

definition opt_ends :: "bool \<Rightarrow> (nat \<Rightarrow> nat list) \<Rightarrow> nat \<Rightarrow> nat list" where
  "opt_ends g f i = (if g then f i @ [i] else i # f i)"

text \<open>A counted repetition is the copies it stands for: \<open>x{2,4}\<close> is \<open>xx(x(x)?)?\<close>, \<open>x{2,}\<close> is \<open>xx+\<close>.\<close>

primrec pow_ends :: "nat \<Rightarrow> (nat \<Rightarrow> nat list) \<Rightarrow> nat \<Rightarrow> nat list" where
  "pow_ends 0 f i = [i]"
| "pow_ends (Suc n) f i = concat (map (pow_ends n f) (f i))"

primrec upto_ends :: "nat \<Rightarrow> bool \<Rightarrow> (nat \<Rightarrow> nat list) \<Rightarrow> nat \<Rightarrow> nat list" where
  "upto_ends 0 g f i = [i]"
| "upto_ends (Suc n) g f i = opt_ends g (\<lambda>i. concat (map (upto_ends n g f) (f i))) i"

definition repeat_ends :: "nat \<Rightarrow> nat option \<Rightarrow> bool \<Rightarrow> (nat \<Rightarrow> nat list) \<Rightarrow> nat \<Rightarrow> nat \<Rightarrow> nat list" where
  "repeat_ends lo hi g f n i =
     (case hi of
        None \<Rightarrow>
          if lo = 0 then opt_ends g (plus_ends g f n) i
          else concat (map (plus_ends g f n) (pow_ends (lo - 1) f i))
      | Some m \<Rightarrow> concat (map (upto_ends (m - lo) g f) (pow_ends lo f i)))"

fun ends :: "rune list \<Rightarrow> re \<Rightarrow> nat \<Rightarrow> nat list" where
  "ends s REmpty i = [i]"
| "ends s (RLit c) i = (if i < length s \<and> s ! i = c then [Suc i] else [])"
| "ends s RAny i = (if i < length s \<and> s ! i \<noteq> newline then [Suc i] else [])"
| "ends s (RClass neg rs) i = (if i < length s \<and> in_class neg rs (s ! i) then [Suc i] else [])"
| "ends s RBegin i = (if i = 0 then [i] else [])"
| "ends s REnd i = (if i = length s then [i] else [])"
| "ends s RWordB i = (if at_boundary s i then [i] else [])"
| "ends s RNoWordB i = (if at_boundary s i then [] else [i])"
| "ends s (RCat a b) i = concat (map (ends s b) (ends s a i))"
| "ends s (RAlt a b) i = ends s a i @ ends s b i"
| "ends s (RStar g a) i = opt_ends g (plus_ends g (ends s a) (length s)) i"
| "ends s (RPlus g a) i = plus_ends g (ends s a) (length s) i"
| "ends s (RQuest g a) i = opt_ends g (ends s a) i"
| "ends s (RRepeat lo hi g a) i = repeat_ends lo hi g (ends s a) (length s) i"

definition find_runes :: "re \<Rightarrow> rune list \<Rightarrow> (nat \<times> nat) option" where
  "find_runes r s =
     (case filter (\<lambda>i. ends s r i \<noteq> []) [0..<Suc (length s)] of
        [] \<Rightarrow> None
      | i # _ \<Rightarrow> Some (i, hd (ends s r i)))"

definition FindStringIndex :: "re \<Rightarrow> string \<Rightarrow> (nat \<times> nat) option" where
  "FindStringIndex r s =
     map_option (\<lambda>(i, j). (rune_offset s i, rune_offset s j)) (find_runes r (runes s))"

definition MatchString :: "re \<Rightarrow> string \<Rightarrow> bool" where
  "MatchString r s \<longleftrightarrow> FindStringIndex r s \<noteq> None"

subsection \<open>Escapes and classes\<close>

definition MaxRune :: rune where "MaxRune = 1114111"

text \<open>The lexer sees a byte of the pattern that is not part of valid UTF-8 as \<open>BadRune\<close>.\<close>

definition BadRune :: rune where "BadRune = 1114112"

definition pattern_runes :: "string \<Rightarrow> rune list" where
  "pattern_runes s = map (\<lambda>d. if d = (RuneError, 1) then BadRune else fst d) (decode s)"

definition isalnum :: "rune \<Rightarrow> bool" where
  "isalnum c \<longleftrightarrow> in_class False [(48, 57), (65, 90), (97, 122)] c"

definition unhex :: "rune \<Rightarrow> nat option" where
  "unhex c =
     (if 48 \<le> c \<and> c \<le> 57 then Some (c - 48)
      else if 97 \<le> c \<and> c \<le> 102 then Some (c - 87)
      else if 65 \<le> c \<and> c \<le> 70 then Some (c - 55)
      else None)"

text \<open>The digits of \<open>\x{...}\<close>, up to the closing brace.\<close>

fun hex_digits :: "nat \<Rightarrow> nat \<Rightarrow> rune list \<Rightarrow> re_error + rune \<times> rune list" where
  "hex_digits r n [] = Inl InvalidEscape"
| "hex_digits r n (c # t) =
     (if c = BadRune then Inl InvalidUTF8
      else if c = byte CHR ''}'' then (if n = 0 then Inl InvalidEscape else Inr (r, t))
      else case unhex c of
             None \<Rightarrow> Inl InvalidEscape
           | Some v \<Rightarrow>
               if MaxRune < 16 * r + v then Inl InvalidEscape
               else hex_digits (16 * r + v) (Suc n) t)"

definition is_octal :: "rune \<Rightarrow> bool" where
  "is_octal c \<longleftrightarrow> 48 \<le> c \<and> c \<le> 55"

fun octal_digits :: "nat \<Rightarrow> nat \<Rightarrow> rune list \<Rightarrow> rune \<times> rune list" where
  "octal_digits 0 r t = (r, t)"
| "octal_digits (Suc n) r [] = (r, [])"
| "octal_digits (Suc n) r (c # t) =
     (if is_octal c then octal_digits n (8 * r + (c - 48)) t else (r, c # t))"

definition hex_escape :: "rune list \<Rightarrow> re_error + rune \<times> rune list" where
  "hex_escape t =
     (case t of
        [] \<Rightarrow> Inl InvalidEscape
      | h # u \<Rightarrow>
          if h = BadRune then Inl InvalidUTF8
          else if h = byte CHR ''{'' then hex_digits 0 0 u
          else (case u of
                  [] \<Rightarrow> Inl InvalidEscape
                | l # v \<Rightarrow>
                    if l = BadRune then Inl InvalidUTF8
                    else (case (unhex h, unhex l) of
                            (Some x, Some y) \<Rightarrow> Inr (16 * x + y, v)
                          | _ \<Rightarrow> Inl InvalidEscape)))"

text \<open>The rune that the text after a backslash stands for.\<close>

definition parseEscape :: "rune list \<Rightarrow> re_error + rune \<times> rune list" where
  "parseEscape t =
     (case t of
        [] \<Rightarrow> Inl TrailingBackslash
      | c # u \<Rightarrow>
          if c = BadRune then Inl InvalidUTF8
          else if is_octal c
          then (if c = byte CHR ''0'' \<or> (u \<noteq> [] \<and> is_octal (hd u)) then Inr (octal_digits 2 (c - 48) u)
                else Inl InvalidEscape)
          else if c = byte CHR ''x'' then hex_escape u
          else if c = byte CHR ''a'' then Inr (7, u)
          else if c = byte CHR ''f'' then Inr (12, u)
          else if c = byte CHR ''n'' then Inr (10, u)
          else if c = byte CHR ''r'' then Inr (13, u)
          else if c = byte CHR ''t'' then Inr (9, u)
          else if c = byte CHR ''v'' then Inr (11, u)
          else if c < 128 \<and> \<not> isalnum c then Inr (c, u)
          else Inl InvalidEscape)"

fun negate_ranges :: "rune \<Rightarrow> (rune \<times> rune) list \<Rightarrow> (rune \<times> rune) list" where
  "negate_ranges next [] = (if next \<le> MaxRune then [(next, MaxRune)] else [])"
| "negate_ranges next ((lo, hi) # rs) =
     (if next < lo then (next, lo - 1) # negate_ranges (Suc hi) rs else negate_ranges (Suc hi) rs)"

definition perl_class :: "rune \<Rightarrow> (rune \<times> rune) list option" where
  "perl_class c =
     (if c = byte CHR ''d'' then Some [(48, 57)]
      else if c = byte CHR ''D'' then Some (negate_ranges 0 [(48, 57)])
      else if c = byte CHR ''s'' then Some [(9, 10), (12, 13), (32, 32)]
      else if c = byte CHR ''S'' then Some (negate_ranges 0 [(9, 10), (12, 13), (32, 32)])
      else if c = byte CHR ''w'' then Some perl_word
      else if c = byte CHR ''W'' then Some (negate_ranges 0 perl_word)
      else None)"

definition posix_table :: "(string \<times> (rune \<times> rune) list) list" where
  "posix_table =
     [(''alnum'', [(48, 57), (65, 90), (97, 122)]), (''alpha'', [(65, 90), (97, 122)]),
      (''ascii'', [(0, 127)]), (''blank'', [(9, 9), (32, 32)]), (''cntrl'', [(0, 31), (127, 127)]),
      (''digit'', [(48, 57)]), (''graph'', [(33, 126)]), (''lower'', [(97, 122)]), (''print'', [(32, 126)]),
      (''punct'', [(33, 47), (58, 64), (91, 96), (123, 126)]), (''space'', [(9, 13), (32, 32)]),
      (''upper'', [(65, 90)]), (''word'', perl_word), (''xdigit'', [(48, 57), (65, 70), (97, 102)])]"

text \<open>The class of the name between \<open>[:\<close> and \<open>:]\<close>.\<close>

definition posix_class :: "rune list \<Rightarrow> (rune \<times> rune) list option" where
  "posix_class name =
     (let look = (\<lambda>n. map_of (map (\<lambda>(k, rs). (map byte k, rs)) posix_table) n)
      in if name \<noteq> [] \<and> hd name = byte CHR ''^'' then map_option (negate_ranges 0) (look (tl name))
         else look name)"

text \<open>The text before and after the first occurrence of a two-rune mark.\<close>

fun cut_at :: "rune \<Rightarrow> rune \<Rightarrow> rune list \<Rightarrow> (rune list \<times> rune list) option" where
  "cut_at a b (c # d # t) =
     (if c = a \<and> d = b then Some ([], t)
      else map_option (\<lambda>(u, v). (c # u, v)) (cut_at a b (d # t)))"
| "cut_at a b t = None"

lemma cut_at_length: "cut_at a b t = Some (u, v) \<Longrightarrow> length v < length t"
  by (induction a b t arbitrary: u rule: cut_at.induct) (fastforce split: if_splits)+

definition class_char :: "rune list \<Rightarrow> re_error + rune \<times> rune list" where
  "class_char s =
     (case s of
        [] \<Rightarrow> Inl MissingBracket
      | c # t \<Rightarrow>
          if c = byte CHR 0x5C then parseEscape t
          else if c = BadRune then Inl InvalidUTF8
          else Inr (c, t))"

text \<open>One rune or range of a class.\<close>

definition class_range :: "rune list \<Rightarrow> re_error + (rune \<times> rune) list \<times> rune list" where
  "class_range s =
     (case class_char s of
        Inl e \<Rightarrow> Inl e
      | Inr (lo, t) \<Rightarrow>
          if 2 \<le> length t \<and> hd t = byte CHR ''-'' \<and> t ! 1 \<noteq> byte CHR '']''
          then (case class_char (tl t) of
                  Inl e \<Rightarrow> Inl e
                | Inr (hi, u) \<Rightarrow> if hi < lo then Inl InvalidCharRange else Inr ([(lo, hi)], u))
          else Inr ([(lo, lo)], t))"

text \<open>One member of a class: a POSIX class, a Perl class, a range or a single rune. A Unicode class
  is not supported.\<close>

definition class_member :: "rune list \<Rightarrow> re_error + (rune \<times> rune) list \<times> rune list" where
  "class_member s =
     (case (if 2 < length s \<and> hd s = byte CHR ''['' \<and> s ! 1 = byte CHR '':''
            then cut_at (byte CHR '':'') (byte CHR '']'') (drop 2 s) else None) of
        Some (name, t) \<Rightarrow>
          (case posix_class name of None \<Rightarrow> Inl InvalidCharRange | Some rs \<Rightarrow> Inr (rs, t))
      | None \<Rightarrow>
          if 2 \<le> length s \<and> hd s = byte CHR 0x5C
          then (if s ! 1 = byte CHR ''p'' \<or> s ! 1 = byte CHR ''P'' then Inl UnsupportedSyntax
                else case perl_class (s ! 1) of
                       Some rs \<Rightarrow> Inr (rs, drop 2 s)
                     | None \<Rightarrow> class_range s)
          else class_range s)"

lemma hex_digits_length: "hex_digits r n t = Inr (c, u) \<Longrightarrow> length u < length t"
  by (induction r n t rule: hex_digits.induct) (auto split: if_splits option.splits)

lemma octal_digits_length: "octal_digits n r t = (c, u) \<Longrightarrow> length u \<le> length t"
  by (induction n r t rule: octal_digits.induct) (auto split: if_splits)

lemma hex_escape_length: "hex_escape t = Inr (c, u) \<Longrightarrow> length u < length t"
  by (auto simp: hex_escape_def split: list.splits if_splits option.splits dest!: hex_digits_length)

lemma parseEscape_length: "parseEscape t = Inr (c, u) \<Longrightarrow> length u < length t"
  by (auto simp: parseEscape_def split: list.splits if_splits
      dest!: hex_escape_length octal_digits_length)

lemma class_char_length: "class_char s = Inr (c, t) \<Longrightarrow> length t < length s"
  by (auto simp: class_char_def split: list.splits if_splits dest!: parseEscape_length)

lemma class_range_length: "class_range s = Inr (rs, t) \<Longrightarrow> length t < length s"
  by (fastforce simp: class_range_def split: sum.splits if_splits dest!: class_char_length)

lemma class_member_length: "class_member s = Inr (rs, t) \<Longrightarrow> length t < length s"
  by (auto simp: class_member_def split: if_splits option.splits prod.splits
      dest!: class_range_length cut_at_length)

text \<open>The members up to the closing bracket; each one consumes input, so the fuel
  \<open>length s\<close> is enough.\<close>

primrec lex_class :: "nat \<Rightarrow> bool \<Rightarrow> (rune \<times> rune) list \<Rightarrow> rune list \<Rightarrow> re_error + (rune \<times> rune) list \<times> rune list" where
  "lex_class 0 first acc s = Inl MissingBracket"
| "lex_class (Suc n) first acc s =
     (if s = [] then Inl MissingBracket
      else if hd s = byte CHR '']'' \<and> \<not> first then Inr (acc, tl s)
      else case class_member s of
             Inl e \<Rightarrow> Inl e
           | Inr (rs, t) \<Rightarrow> lex_class n False (acc @ rs) t)"

lemma lex_class_length:
  "lex_class n first acc s = Inr (rs, t) \<Longrightarrow> length t < length s"
proof (induction n arbitrary: first acc s)
  case (Suc n)
  then show ?case
    by (auto split: if_splits sum.splits dest!: class_member_length Suc.IH)
qed simp

lemma lex_class_fuel:
  assumes "length s \<le> n" and "length s \<le> m"
  shows "lex_class n first acc s = lex_class m first acc s"
  using assms
proof (induction n arbitrary: m first acc s)
  case 0
  then show ?case by (cases m) auto
next
  case (Suc n)
  show ?case
  proof (cases m)
    case 0
    with Suc.prems show ?thesis by simp
  next
    case (Suc m')
    have "lex_class n False acc' t = lex_class m' False acc' t"
      if "class_member s = Inr (rs, t)" for rs t acc'
      using class_member_length [OF that] Suc.prems Suc by (intro Suc.IH) auto
    then show ?thesis using Suc by (auto split: sum.splits)
  qed
qed

text \<open>After the opening bracket: an optional \<open>^\<close>, then the members.\<close>

definition lex_bracket :: "rune list \<Rightarrow> re_error + re \<times> rune list" where
  "lex_bracket s =
     (let neg = (s \<noteq> [] \<and> hd s = byte CHR ''^''); body = (if neg then tl s else s)
      in case lex_class (length body) True [] body of
           Inl e \<Rightarrow> Inl e
         | Inr (rs, t) \<Rightarrow> Inr (RClass neg rs, t))"

lemma lex_bracket_length: "lex_bracket s = Inr (r, t) \<Longrightarrow> length t < length s"
  by (fastforce simp: lex_bracket_def Let_def split: sum.splits if_splits dest!: lex_class_length)

subsection \<open>Repetition counts\<close>

definition is_digit :: "rune \<Rightarrow> bool" where
  "is_digit c \<longleftrightarrow> in_class False [(48, 57)] c"

definition atoi :: "rune list \<Rightarrow> nat" where
  "atoi ds = foldl (\<lambda>n c. 10 * n + (c - 48)) 0 ds"

definition repeat_number :: "rune list \<Rightarrow> (nat \<times> rune list) option" where
  "repeat_number s =
     (let ds = takeWhile is_digit s
      in if ds = [] \<or> (2 \<le> length ds \<and> hd ds = byte CHR ''0'') then None
         else Some (atoi ds, dropWhile is_digit s))"

text \<open>After \<open>{\<close>: \<open>n}\<close>, \<open>n,}\<close> or \<open>n,m}\<close>; anything else makes the brace a literal.\<close>

definition parse_repeat :: "rune list \<Rightarrow> (nat \<times> nat option \<times> rune list) option" where
  "parse_repeat s =
     (case repeat_number s of
        None \<Rightarrow> None
      | Some (lo, t) \<Rightarrow>
          (case t of
             [] \<Rightarrow> None
           | c # t' \<Rightarrow>
               if c = byte CHR ''}'' then Some (lo, Some lo, t')
               else if c \<noteq> byte CHR '','' then None
               else if t' \<noteq> [] \<and> hd t' = byte CHR ''}'' then Some (lo, None, tl t')
               else (case repeat_number t' of
                       None \<Rightarrow> None
                     | Some (hi, u) \<Rightarrow>
                         if u \<noteq> [] \<and> hd u = byte CHR ''}'' then Some (lo, Some hi, tl u) else None)))"

lemma repeat_number_length: "repeat_number s = Some (n, t) \<Longrightarrow> length t \<le> length s"
  by (auto simp: repeat_number_def Let_def length_dropWhile_le split: if_splits)

lemma parse_repeat_length: "parse_repeat s = Some (lo, hi, t) \<Longrightarrow> length t < length s"
  by (auto simp: parse_repeat_def neq_Nil_conv split: option.splits list.splits if_splits
      dest!: repeat_number_length)

text \<open>Whether a repetition operator is followed by the \<open>?\<close> that makes it lazy.\<close>

definition greedy :: "rune list \<Rightarrow> bool" where
  "greedy s \<longleftrightarrow> \<not> (s \<noteq> [] \<and> hd s = byte CHR ''?'')"

definition after_rep :: "rune list \<Rightarrow> rune list" where
  "after_rep s = (if greedy s then s else tl s)"

lemma after_rep_length: "length (after_rep s) \<le> length s"
  by (simp add: after_rep_def)

subsection \<open>Tokens\<close>

definition lit_tok :: "rune \<Rightarrow> tok" where
  "lit_tok c = (if c = BadRune then TErr InvalidUTF8 else TAtom (RLit c))"

text \<open>After a backslash outside a class.\<close>

definition lex_escape :: "rune list \<Rightarrow> tok list \<times> rune list" where
  "lex_escape t =
     (case t of
        [] \<Rightarrow> ([TErr TrailingBackslash], [])
      | c # u \<Rightarrow>
          if c = byte CHR ''A'' then ([TAtom RBegin], u)
          else if c = byte CHR ''b'' then ([TAtom RWordB], u)
          else if c = byte CHR ''B'' then ([TAtom RNoWordB], u)
          else if c = byte CHR ''z'' then ([TAtom REnd], u)
          else if c = byte CHR ''Q''
          then (case cut_at (byte CHR 0x5C) (byte CHR ''E'') u of
                  None \<Rightarrow> (map lit_tok u, [])
                | Some (lit, v) \<Rightarrow> (map lit_tok lit, v))
          else if c = byte CHR ''p'' \<or> c = byte CHR ''P'' then ([TErr UnsupportedSyntax], [])
          else (case perl_class c of
                  Some rs \<Rightarrow> ([TAtom (RClass False rs)], u)
                | None \<Rightarrow>
                    (case parseEscape t of
                       Inl e \<Rightarrow> ([TErr e], [])
                     | Inr (d, v) \<Rightarrow> ([TAtom (RLit d)], v))))"

lemma lex_escape_length: "length (snd (lex_escape t)) \<le> length t"
  by (auto simp: lex_escape_def split: list.splits option.splits sum.splits
      dest!: parseEscape_length cut_at_length)

text \<open>The tokens of a pattern. An error becomes the last token, so that the parser reports whichever
  error it meets first.\<close>

function lex_re :: "rune list \<Rightarrow> tok list" where
  "lex_re [] = []"
| "lex_re (c # t) =
     (if c = byte CHR 0x5C then fst (lex_escape t) @ lex_re (snd (lex_escape t))
      else if c = byte CHR ''[''
      then (case lex_bracket t of
              Inl e \<Rightarrow> [TErr e]
            | Inr (r, u) \<Rightarrow> TAtom r # lex_re u)
      else if c = byte CHR ''(''
      then (if t \<noteq> [] \<and> hd t = byte CHR ''?''
            then (if 2 \<le> length t \<and> t ! 1 = byte CHR '':'' then TOpen # lex_re (drop 2 t)
                  else [TErr UnsupportedSyntax])
            else TOpen # lex_re t)
      else if c = byte CHR '')'' then TClose # lex_re t
      else if c = byte CHR ''|'' then TBar # lex_re t
      else if c = byte CHR ''.'' then TAtom RAny # lex_re t
      else if c = byte CHR ''^'' then TAtom RBegin # lex_re t
      else if c = byte CHR ''$'' then TAtom REnd # lex_re t
      else if c = byte CHR ''*'' then TRep RepStar (greedy t) # lex_re (after_rep t)
      else if c = byte CHR ''+'' then TRep RepPlus (greedy t) # lex_re (after_rep t)
      else if c = byte CHR ''?'' then TRep RepQuest (greedy t) # lex_re (after_rep t)
      else if c = byte CHR ''{''
      then (case parse_repeat t of
              None \<Rightarrow> lit_tok c # lex_re t
            | Some (lo, hi, u) \<Rightarrow>
                if 1000 < lo \<or> (case hi of None \<Rightarrow> False | Some m \<Rightarrow> 1000 < m \<or> m < lo)
                then [TErr InvalidRepeatSize]
                else TRep (RepRange lo hi) (greedy u) # lex_re (after_rep u))
      else lit_tok c # lex_re t)"
  by pat_completeness auto
termination
  apply (relation "measure length")
                 apply (auto simp: after_rep_def less_Suc_eq_le lex_escape_length
      dest!: parse_repeat_length lex_bracket_length)
  done

declare lex_re.simps(2) [simp del]

subsection \<open>Parsing\<close>

fun cat_of :: "re list \<Rightarrow> re" where
  "cat_of [] = REmpty"
| "cat_of [x] = x"
| "cat_of (x # xs) = RCat x (cat_of xs)"

fun alt_of :: "re list \<Rightarrow> re" where
  "alt_of [] = REmpty"
| "alt_of [x] = x"
| "alt_of (x # xs) = RAlt x (alt_of xs)"

definition apply_rep :: "rep \<Rightarrow> bool \<Rightarrow> re \<Rightarrow> re" where
  "apply_rep rp g x =
     (case rp of
        RepStar \<Rightarrow> RStar g x
      | RepPlus \<Rightarrow> RPlus g x
      | RepQuest \<Rightarrow> RQuest g x
      | RepRange lo hi \<Rightarrow> RRepeat lo hi g x)"

text \<open>Whether nested counted repetitions stay within \<open>n\<close> copies.\<close>

fun repeatIsValid :: "re \<Rightarrow> nat \<Rightarrow> bool" where
  "repeatIsValid (RRepeat lo hi g x) n =
     (let m = (case hi of None \<Rightarrow> lo | Some h \<Rightarrow> h)
      in if hi = Some 0 then True
         else if n < m then False
         else repeatIsValid x (if 0 < m then n div m else n))"
| "repeatIsValid (RCat a b) n = (repeatIsValid a n \<and> repeatIsValid b n)"
| "repeatIsValid (RAlt a b) n = (repeatIsValid a n \<and> repeatIsValid b n)"
| "repeatIsValid (RStar g x) n = repeatIsValid x n"
| "repeatIsValid (RPlus g x) n = repeatIsValid x n"
| "repeatIsValid (RQuest g x) n = repeatIsValid x n"
| "repeatIsValid r n = True"

definition repeat_ok :: "rep \<Rightarrow> re \<Rightarrow> bool" where
  "repeat_ok rp r =
     (case rp of
        RepRange lo hi \<Rightarrow>
          (2 \<le> lo \<or> (case hi of None \<Rightarrow> False | Some m \<Rightarrow> 2 \<le> m)) \<longrightarrow> repeatIsValid r 1000
      | _ \<Rightarrow> True)"

type_synonym frame = "re list \<times> re list"  \<comment> \<open>finished alternatives, current sequence, both reversed\<close>

definition close_frame :: "frame \<Rightarrow> re" where
  "close_frame f = alt_of (rev (cat_of (rev (snd f)) # fst f))"

fun parse_toks :: "tok list \<Rightarrow> bool \<Rightarrow> frame \<Rightarrow> frame list \<Rightarrow> re_error + re" where
  "parse_toks [] lr f [] = Inr (close_frame f)"
| "parse_toks [] lr f (g # gs) = Inl MissingParen"
| "parse_toks (TErr e # ts) lr f fs = Inl e"
| "parse_toks (TAtom r # ts) lr (alts, cat) fs = parse_toks ts False (alts, r # cat) fs"
| "parse_toks (TOpen # ts) lr f fs = parse_toks ts False ([], []) (f # fs)"
| "parse_toks (TBar # ts) lr (alts, cat) fs =
     parse_toks ts False (cat_of (rev cat) # alts, []) fs"
| "parse_toks (TClose # ts) lr f [] = Inl UnexpectedParen"
| "parse_toks (TClose # ts) lr f ((alts, cat) # fs) =
     parse_toks ts False (alts, close_frame f # cat) fs"
| "parse_toks (TRep rp g # ts) lr (alts, cat) fs =
     (if lr then Inl InvalidRepeatOp
      else case cat of
             [] \<Rightarrow> Inl MissingRepeatArgument
           | x # xs \<Rightarrow>
               if repeat_ok rp (apply_rep rp g x)
               then parse_toks ts True (alts, apply_rep rp g x # xs) fs
               else Inl InvalidRepeatSize)"

definition regexp_Compile :: "string \<Rightarrow> re_error + re" where
  "regexp_Compile s = parse_toks (lex_re (pattern_runes s)) False ([], []) []"

subsection \<open>Quoting\<close>

definition special :: string where
  "special = [CHR 0x5C, CHR ''.'', CHR ''+'', CHR ''*'', CHR ''?'', CHR ''('', CHR '')'', CHR ''|'',
     CHR ''['', CHR '']'', CHR ''{'', CHR ''}'', CHR ''^'', CHR ''$'']"

definition quote :: "char \<Rightarrow> string" where
  "quote c = (if c \<in> set special then [CHR 0x5C, c] else [c])"

definition regexp_QuoteMeta :: "string \<Rightarrow> string" where
  "regexp_QuoteMeta s = concat (map quote s)"

end
