(* ===== verification/GoRegexpLaws.thy ===== *)
theory GoRegexpLaws
  imports GoRegexp
begin

text \<open>
  Facts about the matcher and the compiler of \<open>GoRegexp\<close>: where matches end, what the
  concatenation of a list of expressions matches, and what the compiler makes of quoted text.
  The last part is the contract a glob-to-regexp translation needs, as a locale, and the proof
  that the modelled package keeps it.
\<close>

subsection \<open>Ends of matches\<close>

lemma loop_ends_bounds:
  assumes "\<And>i j. i \<le> m \<Longrightarrow> j \<in> set (f i) \<Longrightarrow> i \<le> j \<and> j \<le> m"
  shows "i \<le> m \<Longrightarrow> j \<in> set (loop_ends g f n i) \<Longrightarrow> i \<le> j \<and> j \<le> m"
proof (induction n arbitrary: i)
  case (Suc n)
  show ?case
  proof (cases "j = i")
    case False
    with Suc.prems(2) obtain k where k: "k \<in> set (f i)" and j: "j \<in> set (loop_ends g f n k)"
      by (auto simp: Let_def split: if_splits)
    from assms [OF Suc.prems(1) k] have "i \<le> k" "k \<le> m" by auto
    with Suc.IH [OF \<open>k \<le> m\<close> j] show ?thesis by simp
  qed (use Suc.prems in simp)
qed simp

lemma pow_ends_bounds:
  assumes "\<And>i j. i \<le> m \<Longrightarrow> j \<in> set (f i) \<Longrightarrow> i \<le> j \<and> j \<le> m"
  shows "i \<le> m \<Longrightarrow> j \<in> set (pow_ends n f i) \<Longrightarrow> i \<le> j \<and> j \<le> m"
proof (induction n arbitrary: i)
  case (Suc n)
  from Suc.prems(2) obtain k where k: "k \<in> set (f i)" and j: "j \<in> set (pow_ends n f k)" by auto
  from assms [OF Suc.prems(1) k] have "i \<le> k" "k \<le> m" by auto
  with Suc.IH [OF \<open>k \<le> m\<close> j] show ?case by simp
qed simp

lemma set_opt_ends: "set (opt_ends g f i) = insert i (set (f i))"
  by (simp add: opt_ends_def)

lemma upto_ends_bounds:
  assumes "\<And>i j. i \<le> m \<Longrightarrow> j \<in> set (f i) \<Longrightarrow> i \<le> j \<and> j \<le> m"
  shows "i \<le> m \<Longrightarrow> j \<in> set (upto_ends n g f i) \<Longrightarrow> i \<le> j \<and> j \<le> m"
proof (induction n arbitrary: i)
  case (Suc n)
  show ?case
  proof (cases "j = i")
    case False
    with Suc.prems(2) obtain k where k: "k \<in> set (f i)" and j: "j \<in> set (upto_ends n g f k)"
      by (auto simp: set_opt_ends)
    from assms [OF Suc.prems(1) k] have "i \<le> k" "k \<le> m" by auto
    with Suc.IH [OF \<open>k \<le> m\<close> j] show ?thesis by simp
  qed (use Suc.prems in simp)
qed simp

lemma plus_ends_bounds:
  assumes f: "\<And>i j. i \<le> m \<Longrightarrow> j \<in> set (f i) \<Longrightarrow> i \<le> j \<and> j \<le> m"
    and i: "i \<le> m" and j: "j \<in> set (plus_ends g f n i)"
  shows "i \<le> j \<and> j \<le> m"
proof -
  from j obtain k where k: "k \<in> set (f i)" and jk: "j \<in> set (if i < k then loop_ends g f n k else [k])"
    by (auto simp: plus_ends_def)
  from f [OF i k] have ik: "i \<le> k" "k \<le> m" by auto
  show ?thesis
  proof (cases "i < k")
    case True
    with jk have "j \<in> set (loop_ends g f n k)" by simp
    from loop_ends_bounds [OF f ik(2) this] ik show ?thesis by auto
  next
    case False
    with jk ik show ?thesis by simp
  qed
qed

text \<open>A match that starts inside the text ends inside it, at or after its start.\<close>

lemma ends_bounds: "i \<le> length s \<Longrightarrow> j \<in> set (ends s r i) \<Longrightarrow> i \<le> j \<and> j \<le> length s"
proof (induction r arbitrary: i j)
  case (RCat a b)
  from RCat.prems(2) obtain k where k: "k \<in> set (ends s a i)" and j: "j \<in> set (ends s b k)"
    by auto
  from RCat.IH(1) [OF RCat.prems(1) k] have "i \<le> k" "k \<le> length s" by auto
  with RCat.IH(2) [OF _ j] show ?case by simp
next
  case (RStar g a)
  from RStar.prems have "j = i \<or> j \<in> set (plus_ends g (ends s a) (length s) i)"
    by (simp add: set_opt_ends)
  then show ?case using plus_ends_bounds [OF RStar.IH RStar.prems(1)] RStar.prems(1) by blast
next
  case (RPlus g a)
  from RPlus.prems(2) have "j \<in> set (plus_ends g (ends s a) (length s) i)" by simp
  then show ?case using plus_ends_bounds [OF RPlus.IH RPlus.prems(1)] by blast
next
  case (RAlt a b)
  from RAlt.prems(2) have "j \<in> set (ends s a i) \<or> j \<in> set (ends s b i)" by simp
  then show ?case using RAlt.IH [OF RAlt.prems(1)] by blast
next
  case (RQuest g a)
  from RQuest.prems have "j = i \<or> j \<in> set (ends s a i)" by (simp add: set_opt_ends)
  then show ?case using RQuest.IH [OF RQuest.prems(1)] RQuest.prems(1) by blast
next
  case (RRepeat lo hi g a)
  show ?case
  proof (cases "hi = None \<and> lo = 0")
    case True
    with RRepeat.prems have "j = i \<or> j \<in> set (plus_ends g (ends s a) (length s) i)"
      by (simp add: repeat_ends_def set_opt_ends)
    then show ?thesis using plus_ends_bounds [OF RRepeat.IH RRepeat.prems(1)] RRepeat.prems(1) by blast
  next
    case False
    with RRepeat.prems(2) obtain n k where k: "k \<in> set (pow_ends n (ends s a) i)"
      and j: "j \<in> set (plus_ends g (ends s a) (length s) k) \<or>
          (\<exists>n. j \<in> set (upto_ends n g (ends s a) k))"
      by (auto simp: repeat_ends_def split: option.splits if_splits)
    from pow_ends_bounds [OF RRepeat.IH RRepeat.prems(1) k] have "i \<le> k" "k \<le> length s" by auto
    moreover from j have "k \<le> j \<and> j \<le> length s"
      using plus_ends_bounds [OF RRepeat.IH \<open>k \<le> length s\<close>] upto_ends_bounds [OF RRepeat.IH \<open>k \<le> length s\<close>]
      by blast
    ultimately show ?thesis by simp
  qed
qed (simp_all split: if_splits)

subsection \<open>Leftmost matches\<close>

lemma find_runes_Some:
  assumes "find_runes r s = Some (i, j)"
  shows "i \<le> length s \<and> j = hd (ends s r i) \<and> ends s r i \<noteq> [] \<and> (\<forall>k < i. ends s r k = [])"
proof -
  let ?P = "\<lambda>i. ends s r i \<noteq> []"
  from assms obtain rest where starts: "filter ?P [0..<Suc (length s)] = i # rest" and j: "j = hd (ends s r i)"
    by (auto simp: find_runes_def simp del: upt_Suc split: list.splits)
  from starts obtain us vs where split: "[0..<Suc (length s)] = us @ i # vs"
    and us: "\<forall>u \<in> set us. \<not> ?P u" and i: "?P i"
    unfolding filter_eq_Cons_iff by blast
  from split have len: "length us < Suc (length s)"
    by (metis length_append length_upt list.size(4) diff_zero less_add_Suc1 add_Suc_right)
  from split have "i = [0..<Suc (length s)] ! length us" by (simp only: nth_append_length)
  with len have i_us: "i = length us" by (simp del: upt_Suc)
  have "us = take (length us) [0..<Suc (length s)]" unfolding split by simp
  with len have "us = [0..<length us]" by (simp del: upt_Suc)
  with i_us us have "\<forall>k < i. ends s r k = []" by (metis atLeast0LessThan lessThan_iff set_upt)
  with i j i_us len show ?thesis by simp
qed

lemma find_runes_None: "find_runes r s = None \<longleftrightarrow> (\<forall>i \<le> length s. ends s r i = [])"
proof -
  have "find_runes r s = None \<longleftrightarrow> filter (\<lambda>i. ends s r i \<noteq> []) [0..<Suc (length s)] = []"
    by (simp add: find_runes_def del: upt_Suc split: list.splits)
  also have "\<dots> \<longleftrightarrow> (\<forall>i \<le> length s. ends s r i = [])"
    by (simp add: filter_empty_conv less_Suc_eq_le Ball_def del: upt_Suc)
  finally show ?thesis .
qed

lemma find_runes_bounds:
  assumes "find_runes r s = Some (i, j)"
  shows "i \<le> j \<and> j \<le> length s"
  using find_runes_Some [OF assms] ends_bounds [of i s j r] by auto

lemma FindStringIndex_bounds:
  assumes "FindStringIndex r s = Some (i, j)"
  shows "i \<le> j \<and> j \<le> length s"
proof -
  from assms obtain a b where ab: "find_runes r (runes s) = Some (a, b)"
    and ij: "i = rune_offset s a" "j = rune_offset s b"
    by (auto simp: FindStringIndex_def)
  from find_runes_bounds [OF ab] have "a \<le> b" "b \<le> length (runes s)" by auto
  then show ?thesis
    unfolding ij using rune_offset_mono [of a b s] rune_offset_mono [of b "length (runes s)" s] by simp
qed

text \<open>A match spans the whole text exactly when it spans all of its runes.\<close>

lemma FindStringIndex_full:
  "FindStringIndex r s = Some (0, length s) \<longleftrightarrow> find_runes r (runes s) = Some (0, length (runes s))"
proof (cases "find_runes r (runes s)")
  case (Some p)
  obtain a b where p: "p = (a, b)" by fastforce
  from find_runes_bounds [OF Some [unfolded p]] have "a \<le> length (runes s)" "b \<le> length (runes s)" by auto
  then show ?thesis
    using Some by (auto simp: FindStringIndex_def p rune_offset_eq_0 rune_offset_eq_length)
qed (simp add: FindStringIndex_def)

lemma MatchString_iff: "MatchString r s \<longleftrightarrow> find_runes r (runes s) \<noteq> None"
  by (simp add: MatchString_def FindStringIndex_def)

text \<open>An expression anchored with \<open>^\<close> can only match at the start.\<close>

lemma find_runes_anchored:
  "find_runes (RCat RBegin r) s =
     (if ends s r 0 = [] then None else Some (0, hd (ends s r 0)))"
proof -
  have "ends s (RCat RBegin r) i = (if i = 0 then ends s r 0 else [])" for i by simp
  then have "filter (\<lambda>i. ends s (RCat RBegin r) i \<noteq> []) [0..<Suc (length s)] =
      (if ends s r 0 = [] then [] else [0])"
    by (simp add: upt_conv_Cons del: upt_Suc)
  then show ?thesis by (simp add: find_runes_def)
qed

lemma ends_cat_of_Cons: "ends s (cat_of (x # xs)) i = concat (map (ends s (cat_of xs)) (ends s x i))"
proof (cases xs)
  case Nil
  have "ends s REmpty = (\<lambda>i. [i])" by (rule ext) simp
  with Nil show ?thesis by simp
qed simp

lemma cat_of_snoc_ne: "cat_of (x # xs @ [y]) = RCat x (cat_of (xs @ [y]))"
  by (cases xs) simp_all

subsection \<open>Repetition of a single-character expression\<close>

text \<open>The text positions from \<open>i\<close> on that \<open>.*\<close> can reach.\<close>

definition dots :: "rune list \<Rightarrow> nat \<Rightarrow> nat \<Rightarrow> bool" where
  "dots s i j \<longleftrightarrow> i \<le> j \<and> j \<le> length s \<and> (\<forall>k. i \<le> k \<and> k < j \<longrightarrow> s ! k \<noteq> newline)"

lemma dots_step: "i < length s \<Longrightarrow> s ! i \<noteq> newline \<Longrightarrow> dots s (Suc i) j \<Longrightarrow> dots s i j"
  unfolding dots_def by (metis Suc_leD Suc_leI le_neq_implies_less)

lemma dots_cases: "dots s i j \<Longrightarrow> j = i \<or> (i < length s \<and> s ! i \<noteq> newline \<and> dots s (Suc i) j)"
  unfolding dots_def by (metis Suc_leD Suc_leI le_neq_implies_less less_le_trans order_refl)

lemma set_loop_ends_any:
  "i \<le> length s \<Longrightarrow> length s - i \<le> n \<Longrightarrow>
     set (loop_ends g (ends s RAny) n i) = {j. dots s i j}"
proof (induction n arbitrary: i)
  case 0
  then show ?case by (auto simp: dots_def)
next
  case (Suc n)
  show ?case
  proof (cases "i < length s \<and> s ! i \<noteq> newline")
    case True
    with Suc.prems have tail: "set (loop_ends g (ends s RAny) n (Suc i)) = {j. dots s (Suc i) j}"
      by (intro Suc.IH) auto
    from True have "set (loop_ends g (ends s RAny) (Suc n) i) = insert i {j. dots s (Suc i) j}"
      unfolding tail [symmetric] by (cases g) (simp_all add: Let_def)
    also have "\<dots> = {j. dots s i j}"
      using True dots_step [of i s] dots_cases [of s i] by (auto simp: dots_def)
    finally show ?thesis .
  next
    case False
    then have "set (loop_ends g (ends s RAny) (Suc n) i) = {i}" by (auto simp: Let_def)
    also have "\<dots> = {j. dots s i j}"
      using False Suc.prems dots_cases [of s i] by (auto simp: dots_def)
    finally show ?thesis .
  qed
qed

lemma set_ends_star_any:
  assumes "i \<le> length s"
  shows "set (ends s (RStar g RAny) i) = {j. dots s i j}"
proof (cases "i < length s \<and> s ! i \<noteq> newline")
  case True
  then have "set (loop_ends g (ends s RAny) (length s) (Suc i)) = {j. dots s (Suc i) j}"
    by (intro set_loop_ends_any) auto
  with True have "set (ends s (RStar g RAny) i) = insert i {j. dots s (Suc i) j}"
    by (auto simp: plus_ends_def set_opt_ends)
  also have "\<dots> = {j. dots s i j}"
    using True assms dots_step [of i s] dots_cases [of s i] by (auto simp: dots_def)
  finally show ?thesis .
next
  case False
  then have "set (ends s (RStar g RAny) i) = {i}" by (auto simp: plus_ends_def set_opt_ends)
  also have "\<dots> = {j. dots s i j}"
    using False assms dots_cases [of s i] by (auto simp: dots_def)
  finally show ?thesis .
qed

lemma pow_ends_step:
  assumes "\<And>i. f i = (if i < m \<and> P i then [Suc i] else [])"
  shows "pow_ends n f i = (if (n = 0 \<or> i + n \<le> m) \<and> (\<forall>k < n. P (i + k)) then [i + n] else [])"
proof (induction n arbitrary: i)
  case (Suc n)
  have "(\<forall>k < Suc n. P (i + k)) \<longleftrightarrow> P i \<and> (\<forall>k < n. P (Suc i + k))"
    by (auto simp: less_Suc_eq_0_disj)
  then show ?case by (auto simp: assms [of i] Suc.IH)
qed simp

lemma pow_ends_class:
  "pow_ends n (ends s (RClass neg rs)) i =
     (if (n = 0 \<or> i + n \<le> length s) \<and> (\<forall>k < n. in_class neg rs (s ! (i + k))) then [i + n] else [])"
  by (rule pow_ends_step) simp

lemma concat_map_singleton: "(\<And>x. f x = [x]) \<Longrightarrow> concat (map f xs) = xs"
  by (induction xs) simp_all

lemma ends_repeat_exact: "ends s (RRepeat n (Some n) g r) i = pow_ends n (ends s r) i"
  by (simp add: repeat_ends_def concat_map_singleton)

subsection \<open>Globs\<close>

text \<open>
  The reference meaning of a glob: \<open>*\<close> stands for any run of characters without a newline,
  every other character for itself, and the whole text must be covered.
\<close>

abbreviation star :: rune where "star \<equiv> 42"

fun glob_match :: "rune list \<Rightarrow> rune list \<Rightarrow> bool" where
  "glob_match [] s \<longleftrightarrow> s = []"
| "glob_match (p # ps) [] \<longleftrightarrow> p = star \<and> glob_match ps []"
| "glob_match (p # ps) (c # cs) \<longleftrightarrow>
     (if p = star then glob_match ps (c # cs) \<or> c \<noteq> newline \<and> glob_match (p # ps) cs
      else c = p \<and> glob_match ps cs)"

lemma glob_match_literal: "star \<notin> set p \<Longrightarrow> glob_match p s \<longleftrightarrow> s = p"
  by (induction p s rule: glob_match.induct) auto

lemma glob_match_prefix:
  "star \<notin> set p \<Longrightarrow> glob_match (p @ q) s \<longleftrightarrow> (\<exists>t. s = p @ t \<and> glob_match q t)"
  by (induction p s rule: glob_match.induct) auto

lemma glob_match_star_all: "newline \<notin> set s \<Longrightarrow> glob_match [star] s"
  by (induction s) auto

lemma glob_match_star:
  "glob_match (star # p) s \<longleftrightarrow> (\<exists>j. dots s 0 j \<and> glob_match p (drop j s))"
proof (induction s)
  case Nil
  then show ?case by (simp add: dots_def)
next
  case (Cons c s)
  have shift: "dots (c # s) 0 (Suc j) \<longleftrightarrow> c \<noteq> newline \<and> dots s 0 j" for j
    by (auto simp: dots_def nth_Cons split: nat.splits)
  have split0: "(\<exists>j. dots (c # s) 0 j \<and> P j) \<longleftrightarrow> P 0 \<or> (\<exists>j. dots (c # s) 0 (Suc j) \<and> P (Suc j))" for P
    by (metis dots_def le0 less_zeroE not0_implies_Suc)
  show ?case
    by (subst split0) (auto simp: shift Cons.IH)
qed

subsection \<open>The compiler on quoted text\<close>

definition glob_piece :: "(char \<Rightarrow> string) \<Rightarrow> char \<Rightarrow> string" where
  "glob_piece qt c = (if c = CHR ''*'' then ''.*'' else qt c)"

definition glob_regexp :: "(char \<Rightarrow> string) \<Rightarrow> string \<Rightarrow> string" where
  "glob_regexp qt p = ''^'' @ concat (map (glob_piece qt) p) @ ''$''"

lemma glob_piece_simps [simp]:
  "glob_piece qt (CHR ''*'') = ''.*''" "c \<noteq> CHR ''*'' \<Longrightarrow> glob_piece qt c = qt c"
  by (simp_all add: glob_piece_def)

text \<open>The same translation on the runes of the glob.\<close>

definition quote_rune :: "rune \<Rightarrow> rune list" where
  "quote_rune r = (if r \<in> set (map byte special) then [92, r] else [r])"

definition glob_rune :: "rune \<Rightarrow> rune list" where
  "glob_rune r = (if r = star then [46, 42] else quote_rune r)"

lemma byte_eq_iff [simp]: "byte c = byte d \<longleftrightarrow> c = d"
  by (simp add: byte_def)

lemma special_ascii: "list_all is_ascii special"
  by (simp add: special_def is_ascii_def)

lemma quote_byte: "map byte (glob_piece quote c) = glob_rune (byte c)"
proof -
  have "byte c = star \<longleftrightarrow> c = CHR ''*''"
    using byte_eq_iff [of c "CHR ''*''"] by (simp del: byte_eq_iff)
  then show ?thesis
    by (auto simp: glob_piece_def glob_rune_def quote_def quote_rune_def)
qed

lemma glob_piece_ascii:
  "is_ascii c \<Longrightarrow> glob_piece quote c \<noteq> [] \<and> list_all is_ascii (glob_piece quote c)"
  by (simp add: glob_piece_def quote_def) (simp add: is_ascii_def)

lemma glob_piece_non_ascii: "\<not> is_ascii c \<Longrightarrow> glob_piece quote c = [c]"
  using special_ascii by (auto simp: glob_piece_def quote_def list_all_iff is_ascii_def)

lemma glob_rune_large: "128 \<le> r \<Longrightarrow> glob_rune r = [r]"
  by (auto simp: glob_rune_def quote_rune_def special_def)

definition pattern_rune :: "nat \<times> nat \<Rightarrow> rune" where
  "pattern_rune d = (if d = (RuneError, 1) then BadRune else fst d)"

lemma pattern_runes_glob:
  "pattern_runes (glob_regexp quote p) = 94 # concat (map glob_rune (pattern_runes p)) @ [36]"
proof -
  let ?g = "\<lambda>(r, n). if r < 128 then map (\<lambda>c. (byte c, 1)) (glob_piece quote (char_of r)) else [(r, n)]"
  have piece: "map pattern_rune (?g d) = glob_rune (pattern_rune d)" for d
  proof (cases "fst d < 128")
    case True
    then have d: "pattern_rune d = fst d" and b: "byte (char_of (fst d)) = fst d"
      by (auto simp: pattern_rune_def RuneError_def byte_def)
    have "is_ascii (char_of (fst d))" using True b by (simp add: is_ascii_def)
    then have "list_all is_ascii (glob_piece quote (char_of (fst d)))" using glob_piece_ascii by blast
    then have "map (pattern_rune \<circ> (\<lambda>c. (byte c, 1))) (glob_piece quote (char_of (fst d))) =
        map byte (glob_piece quote (char_of (fst d)))"
      by (intro map_cong refl) (auto simp: pattern_rune_def list_all_iff is_ascii_def RuneError_def)
    then show ?thesis using True d b quote_byte [of "char_of (fst d)"] by (simp add: case_prod_unfold)
  next
    case False
    then have "128 \<le> pattern_rune d" by (simp add: pattern_rune_def BadRune_def)
    with False show ?thesis by (cases d) (simp add: glob_rune_large)
  qed
  have "decode (concat (map (glob_piece quote) p)) = concat (map ?g (decode p))"
    by (rule decode_edit) (simp_all add: glob_piece_ascii glob_piece_non_ascii)
  moreover have "decode (glob_regexp quote p) = (94, 1) # decode (concat (map (glob_piece quote) p)) @ [(36, 1)]"
    using decode_at_ascii [of "CHR ''$''" "concat (map (glob_piece quote) p)" "[]"]
    by (simp add: glob_regexp_def is_ascii_def)
  moreover have "pattern_runes s = map pattern_rune (decode s)" for s
    by (simp add: pattern_runes_def pattern_rune_def)
  ultimately show ?thesis
    by (simp add: map_concat piece comp_def) (simp add: pattern_rune_def RuneError_def)
qed

lemma rune_le_MaxRune: "s \<noteq> [] \<Longrightarrow> fst (DecodeRuneInString s) \<le> MaxRune"
proof -
  assume s: "s \<noteq> []"
  consider "byte (s ! 0) < 128" | "128 \<le> byte (s ! 0)" "utf8_len s = 0" | "128 \<le> byte (s ! 0)" "utf8_len s = 2"
    | "128 \<le> byte (s ! 0)" "utf8_len s = 3" | "128 \<le> byte (s ! 0)" "utf8_len s = 4"
    using utf8_len_cases [of s] by linarith
  then show ?thesis
  proof cases
    case 3
    from s 3 utf8_len_2 [OF 3(2)] show ?thesis
      by (auto simp: DecodeRuneInString_def MaxRune_def Let_def dest!: continuationD)
  next
    case 4
    from s 4 utf8_len_3 [OF 4(2)] show ?thesis
      by (auto simp: DecodeRuneInString_def MaxRune_def Let_def dest!: continuationD)
  next
    case 5
    from s 5 utf8_len_4 [OF 5(2)] show ?thesis
      by (cases "byte (s ! 0) = 244")
        (auto simp: DecodeRuneInString_def MaxRune_def Let_def dest!: continuationD)
  qed (use s in \<open>simp_all add: DecodeRuneInString_def MaxRune_def RuneError_def Let_def\<close>)
qed

lemma runes_le_MaxRune: "\<forall>r \<in> set (runes s). r \<le> MaxRune"
proof (induction s rule: decode.induct)
  case (1 s)
  show ?case
  proof (cases "s = []")
    case False
    have "runes s = fst (DecodeRuneInString s) # runes (drop (snd (DecodeRuneInString s)) s)"
      using False unfolding runes_def by (subst decode.simps) simp
    with 1 [OF False] rune_le_MaxRune [OF False] show ?thesis by simp
  qed simp
qed

lemma pattern_runes_valid: "valid_utf8 s \<Longrightarrow> pattern_runes s = runes s"
  by (auto simp: pattern_runes_def runes_def valid_utf8_def)

lemma BadRune_iff: "BadRune \<in> set (pattern_runes s) \<longleftrightarrow> \<not> valid_utf8 s"
proof
  assume bad: "BadRune \<in> set (pattern_runes s)"
  show "\<not> valid_utf8 s"
  proof
    assume "valid_utf8 s"
    with bad runes_le_MaxRune [of s] have "BadRune \<le> MaxRune" by (simp add: pattern_runes_valid)
    then show False by (simp add: BadRune_def MaxRune_def)
  qed
qed (force simp: valid_utf8_def pattern_runes_def)

lemma lex_escape_special:
  "c \<in> set special \<Longrightarrow> lex_escape (byte c # s) = ([TAtom (RLit (byte c))], s)"
proof -
  have "list_all (\<lambda>c. lex_escape (byte c # s) = ([TAtom (RLit (byte c))], s)) special"
    by (simp add: special_def lex_escape_def perl_class_def parseEscape_def isalnum_def in_class_def
        is_octal_def BadRune_def)
  then show "c \<in> set special \<Longrightarrow> lex_escape (byte c # s) = ([TAtom (RLit (byte c))], s)"
    by (simp add: list_all_iff)
qed

lemma special_not_bad: "c \<in> set special \<Longrightarrow> byte c \<noteq> BadRune"
  using special_ascii by (auto simp: list_all_iff is_ascii_def BadRune_def)

lemma lex_quote: "lex_re (quote_rune r @ s) = lit_tok r # lex_re s"
proof (cases "r \<in> set (map byte special)")
  case True
  then obtain c where c: "c \<in> set special" and r: "r = byte c" by auto
  from True have "lex_re (quote_rune r @ s) = lex_re (92 # r # s)" by (simp add: quote_rune_def)
  also have "\<dots> = lit_tok r # lex_re s"
    unfolding r
    by (subst lex_re.simps) (simp add: lex_escape_special [OF c] lit_tok_def special_not_bad [OF c])
  finally show ?thesis .
next
  case False
  then have "lex_re (quote_rune r @ s) = lex_re (r # s)" by (simp add: quote_rune_def)
  also have "\<dots> = lit_tok r # lex_re s"
    using False by (subst lex_re.simps) (simp add: special_def)
  finally show ?thesis .
qed

definition glob_toks :: "rune \<Rightarrow> tok list" where
  "glob_toks r = (if r = star then [TAtom RAny, TRep RepStar True] else [lit_tok r])"

definition glob_re :: "rune \<Rightarrow> re" where
  "glob_re r = (if r = star then RStar True RAny else RLit r)"

text \<open>Neither a quoted rune nor \<open>.*\<close> starts with \<open>?\<close>, so no star becomes lazy.\<close>

lemma greedy_glob: "greedy (concat (map glob_rune p) @ [36])"
  by (cases p) (auto simp: greedy_def glob_rune_def quote_rune_def special_def)

lemma lex_star: "greedy s \<Longrightarrow> lex_re (46 # 42 # s) = TAtom RAny # TRep RepStar True # lex_re s"
  by (subst lex_re.simps, simp, subst lex_re.simps) (simp add: after_rep_def)

lemma lex_glob: "lex_re (concat (map glob_rune p) @ [36]) = concat (map glob_toks p) @ [TAtom REnd]"
proof (induction p)
  case Nil
  show ?case by (simp add: lex_re.simps(2))
next
  case (Cons c p)
  show ?case
  proof (cases "c = star")
    case True
    then show ?thesis
      using lex_star [OF greedy_glob, of p] Cons.IH by (simp add: glob_rune_def [of star] glob_toks_def [of star])
  next
    case False
    then show ?thesis
      using lex_quote [of c] Cons.IH by (simp add: glob_rune_def [of c] glob_toks_def [of c])
  qed
qed

lemma parse_glob:
  "BadRune \<notin> set p \<Longrightarrow> parse_toks (concat (map glob_toks p) @ [TAtom REnd]) lr ([], cat) [] =
    Inr (cat_of (rev cat @ map glob_re p @ [REnd]))"
proof (induction p arbitrary: lr cat)
  case Nil
  then show ?case by (simp add: close_frame_def)
next
  case (Cons c p)
  then show ?case by (auto simp: glob_toks_def glob_re_def apply_rep_def repeat_ok_def lit_tok_def)
qed

lemma parse_glob_bad:
  "BadRune \<in> set p \<Longrightarrow> parse_toks (concat (map glob_toks p) @ [TAtom REnd]) lr ([], cat) [] = Inl InvalidUTF8"
proof (induction p arbitrary: lr cat)
  case (Cons c p)
  show ?case
  proof (cases "c = BadRune")
    case True
    then show ?thesis by (simp add: glob_toks_def lit_tok_def BadRune_def)
  next
    case False
    with Cons show ?thesis by (auto simp: glob_toks_def apply_rep_def repeat_ok_def lit_tok_def)
  qed
qed simp

lemma Compile_glob:
  "regexp_Compile (glob_regexp quote p) =
     (if valid_utf8 p then Inr (RCat RBegin (cat_of (map glob_re (runes p) @ [REnd]))) else Inl InvalidUTF8)"
proof -
  let ?ps = "pattern_runes p"
  have "regexp_Compile (glob_regexp quote p) =
      parse_toks (concat (map glob_toks ?ps) @ [TAtom REnd]) False ([], [RBegin]) []"
    unfolding regexp_Compile_def pattern_runes_glob
    by (subst lex_re.simps) (simp add: lex_glob)
  then show ?thesis
    using parse_glob [of ?ps False "[RBegin]"] parse_glob_bad [of ?ps False "[RBegin]"] BadRune_iff [of p]
    by (auto simp: pattern_runes_valid cat_of_snoc_ne)
qed

lemma set_ends_glob:
  "i \<le> length s \<Longrightarrow> set (ends s (cat_of (map glob_re p @ [REnd])) i) =
     (if glob_match p (drop i s) then {length s} else {})"
proof (induction p arbitrary: i)
  case Nil
  then show ?case by auto
next
  case (Cons c p)
  have step: "set (ends s (cat_of (map glob_re (c # p) @ [REnd])) i) =
      (\<Union>j \<in> set (ends s (glob_re c) i). set (ends s (cat_of (map glob_re p @ [REnd])) j))"
    by (simp add: cat_of_snoc_ne)
  show ?case
  proof (cases "c = star")
    case True
    then have star: "set (ends s (glob_re c) i) = {j. dots s i j}"
      using set_ends_star_any [OF Cons.prems, of True] by (simp only: glob_re_def simp_thms if_True)
    have "dots s i (i + j) \<longleftrightarrow> dots (drop i s) 0 j" for j
      using Cons.prems unfolding dots_def
      by (auto simp: le_iff_add add.commute)
    then have shift: "(\<exists>j. dots s i j \<and> P j) \<longleftrightarrow> (\<exists>j. dots (drop i s) 0 j \<and> P (i + j))" for P
      by (metis dots_def le_Suc_ex)
    have "set (ends s (cat_of (map glob_re (c # p) @ [REnd])) i) =
        (\<Union>j \<in> {j. dots s i j}. if glob_match p (drop j s) then {length s} else {})"
      unfolding step star using Cons.IH by (auto simp: dots_def)
    also have "\<dots> = (if \<exists>j. dots s i j \<and> glob_match p (drop j s) then {length s} else {})"
      by auto
    also have "\<dots> = (if glob_match (c # p) (drop i s) then {length s} else {})"
      unfolding shift True glob_match_star by (simp add: add.commute)
    finally show ?thesis .
  next
    case False
    then have lit: "set (ends s (glob_re c) i) = (if i < length s \<and> s ! i = c then {Suc i} else {})"
      by (simp add: glob_re_def)
    show ?thesis
    proof (cases "i < length s")
      case True
      then have "drop i s = s ! i # drop (Suc i) s" by (simp add: Cons_nth_drop_Suc)
      with True False show ?thesis unfolding step lit using Cons.IH [of "Suc i"] by auto
    next
      case False
      with \<open>c \<noteq> star\<close> show ?thesis unfolding step lit by simp
    qed
  qed
qed

text \<open>The equations that evaluate the compiler on a given ASCII pattern.\<close>

lemma pattern_runes_ascii: "list_all is_ascii s \<Longrightarrow> pattern_runes s = map byte s"
  by (simp add: pattern_runes_valid valid_all_ascii runes_all_ascii)

lemmas compile_evals = regexp_Compile_def pattern_runes_ascii is_ascii_def
  Let_def BadRune_def lex_re.simps(2) lit_tok_def greedy_def after_rep_def lex_bracket_def
  class_member_def class_range_def class_char_def parse_repeat_def repeat_number_def is_digit_def
  in_class_def atoi_def close_frame_def apply_rep_def repeat_ok_def

subsection \<open>The contract a glob translation relies on\<close>

text \<open>
  What a caller that turns globs into regular expressions needs of the regexp package: the
  translation of a valid UTF-8 text compiles and no other does, and a match, if there is one, spans
  exactly the texts the glob stands for. The facts below hold for every package that keeps this
  contract.
\<close>

locale glob_engine =
  fixes compile :: "string \<Rightarrow> 'e + 'r"
    and find_index :: "'r \<Rightarrow> string \<Rightarrow> (nat \<times> nat) option"
    and quote_char :: "char \<Rightarrow> string"
  assumes compile_glob: "(\<exists>r. compile (glob_regexp quote_char p) = Inr r) \<longleftrightarrow> valid_utf8 p"
    and find_glob: "compile (glob_regexp quote_char p) = Inr r \<Longrightarrow>
      find_index r s = (if glob_match (runes p) (runes s) then Some (0, length s) else None)"
begin

definition full_match :: "'r \<Rightarrow> string \<Rightarrow> bool" where
  "full_match r s \<longleftrightarrow> find_index r s = Some (0, length s)"

lemma full_match_glob:
  "compile (glob_regexp quote_char p) = Inr r \<Longrightarrow> full_match r s \<longleftrightarrow> glob_match (runes p) (runes s)"
  by (simp add: full_match_def find_glob)

lemma full_match_literal:
  assumes "compile (glob_regexp quote_char p) = Inr r" and "CHR ''*'' \<notin> set p"
  shows "full_match r s \<longleftrightarrow> runes s = runes p"
  using assms runes_member_ascii [of "CHR ''*''" p]
  by (simp add: full_match_glob glob_match_literal is_ascii_def)

text \<open>On valid UTF-8 a glob without a star matches its own text only.\<close>

lemma full_match_literal_valid:
  assumes "compile (glob_regexp quote_char p) = Inr r" and "CHR ''*'' \<notin> set p" and "valid_utf8 s"
  shows "full_match r s \<longleftrightarrow> s = p"
proof -
  have "valid_utf8 p" using assms(1) compile_glob by blast
  then show ?thesis
    using full_match_literal [OF assms(1,2)] runes_inject [OF assms(3)] by blast
qed

end

lemma find_runes_glob:
  "find_runes (RCat RBegin (cat_of (map glob_re p @ [REnd]))) s =
     (if glob_match p s then Some (0, length s) else None)"
proof -
  let ?e = "ends s (cat_of (map glob_re p @ [REnd])) 0"
  have set: "set ?e = (if glob_match p s then {length s} else {})"
    using set_ends_glob [of 0 s p] by simp
  show ?thesis
  proof (cases "glob_match p s")
    case True
    with set have "?e \<noteq> []" and "hd ?e \<in> {length s}"
      by (metis empty_iff insertCI list.set(1), metis empty_not_insert hd_in_set list.set(1))
    with True show ?thesis by (simp add: find_runes_anchored)
  next
    case False
    with set show ?thesis by (simp add: find_runes_anchored)
  qed
qed

lemma FindStringIndex_glob:
  "FindStringIndex (RCat RBegin (cat_of (map glob_re p @ [REnd]))) s =
     (if glob_match p (runes s) then Some (0, length s) else None)"
  by (simp add: FindStringIndex_def find_runes_glob)

interpretation go_regexp: glob_engine regexp_Compile FindStringIndex quote
proof
  show "(\<exists>r. regexp_Compile (glob_regexp quote p) = Inr r) \<longleftrightarrow> valid_utf8 p" for p
    by (simp add: Compile_glob)
  show "FindStringIndex r s = (if glob_match (runes p) (runes s) then Some (0, length s) else None)"
    if "regexp_Compile (glob_regexp quote p) = Inr r" for p r s
    using that by (auto simp: Compile_glob FindStringIndex_glob split: if_splits)
qed

end
