(* ===== verification/GoRegexpSpec.thy ===== *)
theory GoRegexpSpec
  imports GoRegexpLaws
begin

text \<open>
  What a regular expression means, independently of how the matcher searches: \<open>re_match s r i j\<close> says
  that \<open>r\<close> can consume the runes of \<open>s\<close> from position \<open>i\<close> to position \<open>j\<close>, with a repetition as the
  iterated relation of its body. The executable matcher, which cuts iterations that consume nothing and
  bounds its loops by the length of the text, reaches exactly these positions; a search therefore
  returns the leftmost start from which the expression matches, and nothing only if there is none.
\<close>

primrec re_match :: "rune list \<Rightarrow> re \<Rightarrow> nat \<Rightarrow> nat \<Rightarrow> bool" where
  "re_match s REmpty = (\<lambda>i j. j = i)"
| "re_match s (RLit c) = (\<lambda>i j. i < length s \<and> s ! i = c \<and> j = Suc i)"
| "re_match s RAny = (\<lambda>i j. i < length s \<and> s ! i \<noteq> newline \<and> j = Suc i)"
| "re_match s (RClass neg rs) = (\<lambda>i j. i < length s \<and> in_class neg rs (s ! i) \<and> j = Suc i)"
| "re_match s RBegin = (\<lambda>i j. i = 0 \<and> j = i)"
| "re_match s REnd = (\<lambda>i j. i = length s \<and> j = i)"
| "re_match s RWordB = (\<lambda>i j. at_boundary s i \<and> j = i)"
| "re_match s RNoWordB = (\<lambda>i j. \<not> at_boundary s i \<and> j = i)"
| "re_match s (RCat a b) = re_match s a OO re_match s b"
| "re_match s (RAlt a b) = (\<lambda>i j. re_match s a i j \<or> re_match s b i j)"
| "re_match s (RStar g a) = (re_match s a)\<^sup>*\<^sup>*"
| "re_match s (RPlus g a) = (re_match s a)\<^sup>+\<^sup>+"
| "re_match s (RQuest g a) = (\<lambda>i j. j = i \<or> re_match s a i j)"
| "re_match s (RRepeat lo hi g a) =
     (\<lambda>i j. \<exists>n. lo \<le> n \<and> (\<forall>m. hi = Some m \<longrightarrow> n \<le> max lo m) \<and> (re_match s a ^^ n) i j)"

lemma re_match_bounds: "re_match s r i j \<Longrightarrow> i \<le> length s \<Longrightarrow> i \<le> j \<and> j \<le> length s"
proof (induction r arbitrary: i j)
  case (RCat a b)
  from RCat.prems(1) obtain k where k: "re_match s a i k" and j: "re_match s b k j" by auto
  from RCat.IH(1) [OF k RCat.prems(2)] RCat.IH(2) [OF j] show ?case by auto
next
  case (RStar g a)
  from RStar.prems(1) have "(re_match s a)\<^sup>*\<^sup>* i j" by simp
  then show ?case
    using RStar.prems(2) by (induction rule: rtranclp_induct) (auto dest: RStar.IH)
next
  case (RPlus g a)
  from RPlus.prems(1) have "(re_match s a)\<^sup>+\<^sup>+ i j" by simp
  then show ?case
    using RPlus.prems(2) by (induction rule: tranclp_induct) (auto dest: RPlus.IH)
next
  case (RRepeat lo hi g a)
  from RRepeat.prems(1) obtain n where "(re_match s a ^^ n) i j" by auto
  then have "(re_match s a)\<^sup>*\<^sup>* i j" by (rule relpowp_imp_rtranclp)
  then show ?case
    using RRepeat.prems(2) by (induction rule: rtranclp_induct) (auto dest: RRepeat.IH)
next
  case (RAlt a b)
  then show ?case by auto
next
  case (RQuest g a)
  then show ?case by auto
qed auto

subsection \<open>The loops of the matcher\<close>

lemma star_plus: "R\<^sup>*\<^sup>* i j \<longleftrightarrow> j = i \<or> R\<^sup>+\<^sup>+ i j"
  by (auto dest: rtranclpD intro: tranclp_into_rtranclp)

text \<open>
  A body \<open>f\<close> that computes the relation \<open>R\<close> on the positions up to \<open>m\<close> and never moves backwards.
\<close>

locale loop_body =
  fixes f :: "nat \<Rightarrow> nat list" and R :: "nat \<Rightarrow> nat \<Rightarrow> bool" and m :: nat
  assumes body: "i \<le> m \<Longrightarrow> j \<in> set (f i) \<longleftrightarrow> R i j"
    and forward: "i \<le> m \<Longrightarrow> R i j \<Longrightarrow> i \<le> j \<and> j \<le> m"
begin

lemma star_bound: "R\<^sup>*\<^sup>* i j \<Longrightarrow> i \<le> m \<Longrightarrow> i \<le> j \<and> j \<le> m"
  by (induction rule: rtranclp_induct) (auto dest: forward)

text \<open>An iteration that consumes nothing adds no end, so a repetition can be thought to move forward
  in each of its steps.\<close>

lemma star_cases:
  assumes "R\<^sup>*\<^sup>* i j"
  shows "j = i \<or> (\<exists>k. R i k \<and> k \<noteq> i \<and> R\<^sup>*\<^sup>* k j)"
  using assms by (induction rule: converse_rtranclp_induct) (blast+)

lemma loop_iff:
  "i \<le> m \<Longrightarrow> m - i \<le> n \<Longrightarrow> j \<in> set (loop_ends g f n i) \<longleftrightarrow> R\<^sup>*\<^sup>* i j"
proof (induction n arbitrary: i)
  case 0
  then have "i = m" by simp
  then show ?case using star_bound [of i j] by (auto simp: antisym)
next
  case (Suc n)
  have step: "j \<in> set (loop_ends g f n k) \<longleftrightarrow> R\<^sup>*\<^sup>* k j" if "k \<in> set (f i)" "i < k" for k
    using that Suc.prems body [of i k] forward [of i k] by (intro Suc.IH) auto
  have "j \<in> set (loop_ends g f (Suc n) i) \<longleftrightarrow> j = i \<or> (\<exists>k \<in> set (f i). i < k \<and> R\<^sup>*\<^sup>* k j)"
    using step by (auto simp: Let_def split: if_splits)
  also have "\<dots> \<longleftrightarrow> j = i \<or> (\<exists>k. R i k \<and> k \<noteq> i \<and> R\<^sup>*\<^sup>* k j)"
    using body [OF Suc.prems(1)] forward [OF Suc.prems(1)] by (metis le_neq_implies_less less_irrefl)
  also have "\<dots> \<longleftrightarrow> R\<^sup>*\<^sup>* i j"
    using star_cases [of i j] by (auto intro: converse_rtranclp_into_rtranclp)
  finally show ?case .
qed

lemma plus_iff:
  assumes "i \<le> m"
  shows "j \<in> set (plus_ends g f m i) \<longleftrightarrow> R\<^sup>+\<^sup>+ i j"
proof -
  have step: "j \<in> set (if i < k then loop_ends g f m k else [k]) \<longleftrightarrow> (if i < k then R\<^sup>*\<^sup>* k j else j = k)"
    if "k \<in> set (f i)" for k
    using that assms body [of i k] forward [of i k] loop_iff [of k m] by auto
  have "j \<in> set (plus_ends g f m i) \<longleftrightarrow> (\<exists>k \<in> set (f i). if i < k then R\<^sup>*\<^sup>* k j else j = k)"
    using step unfolding plus_ends_def set_concat set_map by blast
  also have "\<dots> \<longleftrightarrow> (\<exists>k. R i k \<and> (if i < k then R\<^sup>*\<^sup>* k j else j = k))"
    using body [OF assms] by blast
  also have "\<dots> \<longleftrightarrow> R\<^sup>+\<^sup>+ i j"
  proof
    assume "\<exists>k. R i k \<and> (if i < k then R\<^sup>*\<^sup>* k j else j = k)"
    then show "R\<^sup>+\<^sup>+ i j" by (auto split: if_splits intro: rtranclp_into_tranclp2)
  next
    assume "R\<^sup>+\<^sup>+ i j"
    then obtain k where k: "R i k" "R\<^sup>*\<^sup>* k j" by (meson tranclpD)
    show "\<exists>k. R i k \<and> (if i < k then R\<^sup>*\<^sup>* k j else j = k)"
    proof (cases "k = i")
      case False
      with k forward [OF assms k(1)] show ?thesis by (intro exI [of _ k]) simp
    next
      case True
      from star_cases [OF k(2) [unfolded True]] k(1) True forward [OF assms] show ?thesis
        by (metis le_neq_implies_less less_irrefl)
    qed
  qed
  finally show ?thesis .
qed

lemma pow_bound: "(R ^^ n) i j \<Longrightarrow> i \<le> m \<Longrightarrow> j \<le> m"
  using star_bound [OF relpowp_imp_rtranclp] by blast

lemma pow_iff: "i \<le> m \<Longrightarrow> j \<in> set (pow_ends n f i) \<longleftrightarrow> (R ^^ n) i j"
proof (induction n arbitrary: i)
  case (Suc n)
  have "j \<in> set (pow_ends (Suc n) f i) \<longleftrightarrow> (\<exists>k \<in> set (f i). j \<in> set (pow_ends n f k))" by simp
  also have "\<dots> \<longleftrightarrow> (\<exists>k. R i k \<and> (R ^^ n) k j)"
    using Suc body [OF Suc.prems] forward [OF Suc.prems] by blast
  also have "\<dots> \<longleftrightarrow> (R ^^ Suc n) i j" by (simp add: relpowp_Suc_left relcompp_apply del: relpowp.simps)
  finally show ?case .
qed auto

lemma upto_iff: "i \<le> m \<Longrightarrow> j \<in> set (upto_ends n g f i) \<longleftrightarrow> (\<exists>k \<le> n. (R ^^ k) i j)"
proof (induction n arbitrary: i)
  case (Suc n)
  have "j \<in> set (upto_ends (Suc n) g f i) \<longleftrightarrow> j = i \<or> (\<exists>k \<in> set (f i). j \<in> set (upto_ends n g f k))"
    by (auto simp: set_opt_ends)
  also have "\<dots> \<longleftrightarrow> j = i \<or> (\<exists>k. R i k \<and> (\<exists>l \<le> n. (R ^^ l) k j))"
    using Suc body [OF Suc.prems] forward [OF Suc.prems] by blast
  also have "\<dots> \<longleftrightarrow> j = i \<or> (\<exists>l \<le> n. (R ^^ Suc l) i j)"
    by (auto simp: relpowp_Suc_left relcompp_apply simp del: relpowp.simps)
  also have "\<dots> \<longleftrightarrow> (\<exists>k \<le> Suc n. (R ^^ k) i j)"
  proof
    assume "j = i \<or> (\<exists>l \<le> n. (R ^^ Suc l) i j)"
    then show "\<exists>k \<le> Suc n. (R ^^ k) i j" by (metis Suc_le_mono le0 relpowp_0_I)
  next
    assume "\<exists>k \<le> Suc n. (R ^^ k) i j"
    then obtain k where "k \<le> Suc n" "(R ^^ k) i j" by blast
    then show "j = i \<or> (\<exists>l \<le> n. (R ^^ Suc l) i j)" by (cases k) auto
  qed
  finally show ?case .
qed auto

lemma repeat_iff:
  assumes "i \<le> m"
  shows "j \<in> set (repeat_ends lo hi g f m i) \<longleftrightarrow>
    (\<exists>n. lo \<le> n \<and> (\<forall>h. hi = Some h \<longrightarrow> n \<le> max lo h) \<and> (R ^^ n) i j)"
proof (cases hi)
  case (Some h)
  have "j \<in> set (repeat_ends lo hi g f m i) \<longleftrightarrow>
      (\<exists>k. (R ^^ lo) i k \<and> (\<exists>l \<le> h - lo. (R ^^ l) k j))"
    using Some pow_iff [OF assms] upto_iff pow_bound [OF _ assms] by (auto simp: repeat_ends_def)
  also have "\<dots> \<longleftrightarrow> (\<exists>l \<le> h - lo. (R ^^ (lo + l)) i j)"
    by (auto simp: relpowp_add)
  also have "\<dots> \<longleftrightarrow> (\<exists>n. lo \<le> n \<and> n \<le> max lo h \<and> (R ^^ n) i j)"
  proof
    assume "\<exists>l \<le> h - lo. (R ^^ (lo + l)) i j"
    then obtain l where "l \<le> h - lo" "(R ^^ (lo + l)) i j" by blast
    moreover from this(1) have "lo + l \<le> max lo h" by linarith
    ultimately show "\<exists>n. lo \<le> n \<and> n \<le> max lo h \<and> (R ^^ n) i j" using le_add1 by blast
  next
    assume "\<exists>n. lo \<le> n \<and> n \<le> max lo h \<and> (R ^^ n) i j"
    then obtain n where n: "lo \<le> n" "n \<le> max lo h" "(R ^^ n) i j" by blast
    then have "n - lo \<le> h - lo" "(R ^^ (lo + (n - lo))) i j" by auto
    then show "\<exists>l \<le> h - lo. (R ^^ (lo + l)) i j" by blast
  qed
  finally show ?thesis using Some by simp
next
  case None
  show ?thesis
  proof (cases lo)
    case 0
    with None have "j \<in> set (repeat_ends lo hi g f m i) \<longleftrightarrow> j = i \<or> R\<^sup>+\<^sup>+ i j"
      using plus_iff [OF assms] by (simp add: repeat_ends_def set_opt_ends)
    also have "\<dots> \<longleftrightarrow> R\<^sup>*\<^sup>* i j" by (simp only: star_plus)
    finally show ?thesis using None 0 by (simp add: rtranclp_power)
  next
    case (Suc l)
    with None have "j \<in> set (repeat_ends lo hi g f m i) \<longleftrightarrow> (\<exists>k. (R ^^ l) i k \<and> R\<^sup>+\<^sup>+ k j)"
      using pow_iff [OF assms] plus_iff pow_bound [OF _ assms] by (auto simp: repeat_ends_def)
    also have "\<dots> \<longleftrightarrow> (\<exists>n > 0. (R ^^ (l + n)) i j)"
      by (auto simp: relpowp_add tranclp_power)
    also have "\<dots> \<longleftrightarrow> (\<exists>n \<ge> lo. (R ^^ n) i j)"
      unfolding Suc by (metis Suc_le_eq less_add_same_cancel1 less_iff_Suc_add add_Suc_right zero_less_Suc)
    finally show ?thesis using None by simp
  qed
qed

end

subsection \<open>The matcher computes the relation\<close>

lemma loop_bodyI:
  "(\<And>i j. i \<le> length s \<Longrightarrow> j \<in> set (ends s r i) \<longleftrightarrow> re_match s r i j) \<Longrightarrow>
     loop_body (ends s r) (re_match s r) (length s)"
  by (rule loop_body.intro) (auto dest: re_match_bounds)

lemma ends_iff: "i \<le> length s \<Longrightarrow> j \<in> set (ends s r i) \<longleftrightarrow> re_match s r i j"
proof (induction r arbitrary: i j)
  case (RCat a b)
  then show ?case using ends_bounds [OF RCat.prems] by (auto simp: relcompp_apply) blast+
next
  case (RStar g a)
  note lb = loop_bodyI [OF RStar.IH]
  show ?case
    using loop_body.plus_iff [OF lb RStar.prems] by (simp add: set_opt_ends star_plus)
next
  case (RPlus g a)
  note lb = loop_bodyI [OF RPlus.IH]
  show ?case using loop_body.plus_iff [OF lb RPlus.prems] by simp
next
  case (RQuest g a)
  then show ?case by (simp add: set_opt_ends)
next
  case (RRepeat lo hi g a)
  note lb = loop_bodyI [OF RRepeat.IH]
  show ?case using loop_body.repeat_iff [OF lb RRepeat.prems] by simp
qed auto

interpretation matcher: loop_body "ends s r" "re_match s r" "length s" for s r
  by (rule loop_bodyI) (rule ends_iff)

subsection \<open>Searches\<close>

lemma find_runes_match:
  assumes "find_runes r s = Some (i, j)"
  shows "re_match s r i j \<and> (\<forall>k < i. \<forall>l. \<not> re_match s r k l)"
proof -
  from find_runes_Some [OF assms] have i: "i \<le> length s" and j: "j \<in> set (ends s r i)"
    and none: "\<forall>k < i. ends s r k = []" by auto
  have "\<not> re_match s r k l" if "k < i" for k l
    using that none i matcher.body [of k s l r] by simp
  with i j show ?thesis using matcher.body by blast
qed

lemma find_runes_no_match: "find_runes r s = None \<longleftrightarrow> (\<forall>i \<le> length s. \<forall>j. \<not> re_match s r i j)"
proof -
  have "ends s r i = [] \<longleftrightarrow> (\<forall>j. \<not> re_match s r i j)" if "i \<le> length s" for i
    using matcher.body [OF that] by (metis last_in_set empty_iff list.set(1))
  then show ?thesis by (auto simp: find_runes_None)
qed

text \<open>A search cannot miss the only match that starts at the first rune.\<close>

lemma find_runes_only:
  assumes "\<forall>j. re_match s r 0 j \<longleftrightarrow> j = n"
  shows "find_runes r s = Some (0, n)"
proof (cases "find_runes r s")
  case None
  with assms show ?thesis by (auto simp: find_runes_no_match)
next
  case (Some p)
  obtain i j where p: "p = (i, j)" by fastforce
  from find_runes_match [OF Some [unfolded p]] assms show ?thesis
    using Some p by (cases "i = 0") auto
qed

end
