(* ===== verification/Authz.thy ===== *)
theory Authz
  imports Identity GoRegexpSpec
begin

text \<open>
  Package \<open>internal/authz\<close>: the policy file's data, its validation (which compiles the rule
  matchers and enforces the broad-rule guardrail), its evaluation, and the CEL conditions.

  The CEL library and the YAML decoder are third-party code: they are the arguments \<open>lib\<close> and
  \<open>yaml\<close> of the definitions that call them. The file system is a function from paths to the
  result of \<open>os.ReadFile\<close>. Validation mutates the rules in place, also when it fails half way, so
  it returns the policy together with the error.
\<close>

subsection \<open>Data\<close>

record Permission =
  Allow :: "string list"
  Deny :: "string list"

record Response =
  Max :: int
  TTL :: duration

record Grant =
  Account :: string
  Publish :: "Permission option"
  Subscribe :: "Permission option"
  Grant_Response :: "Response option"
  MaxExpiry :: duration

record Match =
  Issuer :: string
  Sub :: string
  Match_Claims :: go_map
  Expr :: string
  AllowBroad :: bool

record 'prg Rule =
  Name :: string
  Rule_Match :: Match
  Rule_Grant :: Grant
  matcher :: "re option"
  celProgram :: "'prg option"

record 'prg Policy =
  Rules :: "'prg Rule list"
  validated :: bool

text \<open>The parts of \<open>jwt.UserPermissionLimits\<close> that the policy fills in.\<close>

record ResponsePermission =
  MaxMsgs :: int
  Expires :: duration

record UserPermissionLimits =
  Pub :: Permission
  Lim_Sub :: Permission
  Resp :: "ResponsePermission option"

record Decision =
  RuleName :: string
  Decision_Account :: string
  Permissions :: UserPermissionLimits
  Decision_MaxExpiry :: duration

subsection \<open>CEL conditions\<close>

datatype cel_type =
    StringType | BoolType | TimestampType | ListType cel_type | MapType cel_type cel_type | OtherType string

datatype cel_value = CelBool bool | CelOther

record activation =
  act_sub :: string
  act_iss :: string
  act_aud :: "string list"
  act_claims :: "string \<rightharpoonup> string"
  act_exp :: time
  act_now :: time

text \<open>The \<open>cel-go\<close> calls of the program: environments, compilation, programs, evaluation.\<close>

record ('env, 'ast, 'prg) cel_lib =
  cel_NewEnv :: "(string \<times> cel_type) list \<Rightarrow> string + 'env"
  cel_Compile :: "'env \<Rightarrow> string \<Rightarrow> 'ast \<times> string option"
  cel_OutputType :: "'ast \<Rightarrow> cel_type"
  cel_Program :: "'env \<Rightarrow> 'ast \<Rightarrow> nat \<Rightarrow> string + 'prg"
  cel_Eval :: "'prg \<Rightarrow> activation \<Rightarrow> string + cel_value"

datatype cel_error = InvalidCELExpr string | CELNotBool cel_type | CompileCELProgram string

definition celCostLimit :: nat where "celCostLimit = 1000000"

definition newCELEnv :: "('env, 'ast, 'prg) cel_lib \<Rightarrow> string + 'env" where
  "newCELEnv lib = cel_NewEnv lib
     [(''sub'', StringType), (''iss'', StringType), (''aud'', ListType StringType),
      (''claims'', MapType StringType StringType), (''exp'', TimestampType), (''now'', TimestampType)]"

definition compileCELProgram ::
    "('env, 'ast, 'prg) cel_lib \<Rightarrow> 'env \<Rightarrow> string \<Rightarrow> cel_error + 'prg" where
  "compileCELProgram lib env expr =
     (case cel_Compile lib env expr of
        (ast, Some iss) \<Rightarrow> Inl (InvalidCELExpr iss)
      | (ast, None) \<Rightarrow>
          if cel_OutputType lib ast \<noteq> BoolType then Inl (CELNotBool (cel_OutputType lib ast))
          else (case cel_Program lib env ast celCostLimit of
                  Inl e \<Rightarrow> Inl (CompileCELProgram e)
                | Inr prg \<Rightarrow> Inr prg))"

definition evalCEL :: "('env, 'ast, 'prg) cel_lib \<Rightarrow> time \<Rightarrow> 'prg \<Rightarrow> Identity \<Rightarrow> bool" where
  "evalCEL lib now prg i =
     (case cel_Eval lib prg
        \<lparr>act_sub = Id_Subject i, act_iss = Id_Issuer i, act_aud = Id_Audience i,
         act_claims = Claims i, act_exp = Id_Expiry i, act_now = now\<rparr> of
        Inl e \<Rightarrow> False
      | Inr (CelBool b) \<Rightarrow> b
      | Inr CelOther \<Rightarrow> False)"

subsection \<open>Subject patterns\<close>

datatype sub_error = SubNotAnchored | InvalidSubRegex re_error | InvalidSubGlob re_error

definition compileSub :: "string \<Rightarrow> sub_error + re option" where
  "compileSub pattern =
     (if pattern = [] then Inr None
      else case strings_CutPrefix pattern ''re:'' of
             Some rest \<Rightarrow>
               if \<not> strings_HasPrefix rest ''^'' \<or> \<not> strings_HasSuffix rest ''$'' then Inl SubNotAnchored
               else (case regexp_Compile rest of
                       Inl e \<Rightarrow> Inl (InvalidSubRegex e)
                     | Inr re \<Rightarrow> Inr (Some re))
           | None \<Rightarrow>
               let b = foldl (\<lambda>b part. b @ regexp_QuoteMeta part @ ''.*'') ''^'' (strings_Split pattern CHR ''*'');
                   s = strings_TrimSuffix b ''.*'' @ ''$''
               in (case regexp_Compile s of
                     Inl e \<Rightarrow> Inl (InvalidSubGlob e)
                   | Inr re \<Rightarrow> Inr (Some re)))"

definition subMatches :: "'prg Rule \<Rightarrow> string \<Rightarrow> bool" where
  "subMatches r sub =
     (case matcher r of
        None \<Rightarrow> True
      | Some re \<Rightarrow>
          (case FindStringIndex re sub of
             None \<Rightarrow> False
           | Some (lo, hi) \<Rightarrow> lo = 0 \<and> hi = length sub))"

definition awsAccountID :: re where
  "awsAccountID = (case regexp_Compile ''^[0-9]{12}$'' of Inr re \<Rightarrow> re | Inl _ \<Rightarrow> REmpty)"

definition subIsExact :: "string \<Rightarrow> bool" where
  "subIsExact pattern =
     (if pattern = [] \<or> strings_HasPrefix pattern ''re:'' then False
      else \<not> strings_Contains pattern ''*'')"

definition accountPinnedInARN :: "string \<Rightarrow> bool" where
  "accountPinnedInARN pattern =
     (if pattern = [] \<or> strings_HasPrefix pattern ''re:'' then False
      else let fields = strings_SplitN pattern CHR '':'' 6
           in if length fields < 5 \<or> strings_Contains (strings_Join (take 4 fields) '':'') ''*'' then False
              else MatchString awsAccountID (fields ! 4))"

subsection \<open>Rules\<close>

definition githubStrongPinKeys :: "string list" where
  "githubStrongPinKeys = [''repository'', ''repository_id'', ''job_workflow_ref'']"

definition Rule_identity :: "'prg Rule \<Rightarrow> nat \<Rightarrow> string" where
  "Rule_identity r i = (if Name r \<noteq> [] then Name r else ''#'' @ itoa i)"

definition hasStrongPin :: "'prg Rule \<Rightarrow> bool" where
  "hasStrongPin r =
     (if subIsExact (Sub (Rule_Match r)) then True
      else if accountPinnedInARN (Sub (Rule_Match r)) then True
      else if (case map_of (Match_Claims (Rule_Match r)) ''aws.aws_account'' of
                 None \<Rightarrow> False
               | Some v \<Rightarrow> MatchString awsAccountID v) then True
      else list_ex (\<lambda>(k, _). k \<in> set githubStrongPinKeys) (Match_Claims (Rule_Match r)))"

definition matches :: "('env, 'ast, 'prg) cel_lib \<Rightarrow> time \<Rightarrow> 'prg Rule \<Rightarrow> Identity \<Rightarrow> bool" where
  "matches lib now r i =
     (if Issuer (Rule_Match r) \<noteq> [] \<and> Issuer (Rule_Match r) \<noteq> Id_Issuer i then False
      else if \<not> subMatches r (Id_Subject i) then False
      else if first_mismatch (Claim i) (Match_Claims (Rule_Match r)) \<noteq> None then False
      else case celProgram r of
             None \<Rightarrow> True
           | Some prg \<Rightarrow> evalCEL lib now prg i)"

definition Permission_validate :: "Permission option \<Rightarrow> bool" where
  "Permission_validate p =
     (case p of None \<Rightarrow> True | Some q \<Rightarrow> \<not> (length (Allow q) = 0 \<and> length (Deny q) = 0))"

definition jwtPermission :: "Permission option \<Rightarrow> Permission" where
  "jwtPermission p =
     (case p of
        None \<Rightarrow> \<lparr>Allow = [], Deny = [''>'']\<rparr>
      | Some q \<Rightarrow> \<lparr>Allow = Allow q, Deny = Deny q\<rparr>)"

definition permissionLimits :: "Grant \<Rightarrow> UserPermissionLimits" where
  "permissionLimits g =
     \<lparr>Pub = jwtPermission (Publish g), Lim_Sub = jwtPermission (Subscribe g),
      Resp = map_option (\<lambda>r. \<lparr>MaxMsgs = Max r, Expires = TTL r\<rparr>) (Grant_Response g)\<rparr>"

subsection \<open>Validation\<close>

datatype policy_error =
    NoRules
  | AccountRequired string
  | EmptyPermission string string
  | RuleSubError string sub_error
  | ExprNeedsAllowBroad string
  | CELEnvironment string
  | RuleCELError string cel_error
  | RuleIsBroad string

text \<open>The part of the loop body for a rule with a CEL expression; \<open>celEnv\<close> is created on first use.\<close>

definition validate_expr ::
    "('env, 'ast, 'prg) cel_lib \<Rightarrow> 'env option \<Rightarrow> string \<Rightarrow> 'prg Rule \<Rightarrow>
     'env option \<times> 'prg Rule \<times> policy_error option" where
  "validate_expr lib celEnv nm r =
     (if Expr (Rule_Match r) = [] then (celEnv, r, None)
      else if \<not> AllowBroad (Rule_Match r) then (celEnv, r, Some (ExprNeedsAllowBroad nm))
      else case (case celEnv of None \<Rightarrow> newCELEnv lib | Some env \<Rightarrow> Inr env) of
             Inl e \<Rightarrow> (None, r, Some (CELEnvironment e))
           | Inr env \<Rightarrow>
               (case compileCELProgram lib env (Expr (Rule_Match r)) of
                  Inl e \<Rightarrow> (Some env, r, Some (RuleCELError nm e))
                | Inr prg \<Rightarrow> (Some env, r\<lparr>celProgram := Some prg\<rparr>, None)))"

definition validate_rule ::
    "('env, 'ast, 'prg) cel_lib \<Rightarrow> 'env option \<Rightarrow> nat \<Rightarrow> 'prg Rule \<Rightarrow>
     'env option \<times> 'prg Rule \<times> policy_error option" where
  "validate_rule lib celEnv i r =
     (let nm = Rule_identity r i; g = Rule_Grant r
      in if Account g = [] then (celEnv, r, Some (AccountRequired nm))
         else if \<not> Permission_validate (Publish g) then (celEnv, r, Some (EmptyPermission nm ''publish''))
         else if \<not> Permission_validate (Subscribe g) then (celEnv, r, Some (EmptyPermission nm ''subscribe''))
         else case compileSub (Sub (Rule_Match r)) of
                Inl e \<Rightarrow> (celEnv, r, Some (RuleSubError nm e))
              | Inr re \<Rightarrow>
                  (case validate_expr lib celEnv nm (r\<lparr>matcher := re\<rparr>) of
                     (env, r', Some e) \<Rightarrow> (env, r', Some e)
                   | (env, r', None) \<Rightarrow>
                       if \<not> hasStrongPin r' \<and> \<not> AllowBroad (Rule_Match r')
                       then (env, r', Some (RuleIsBroad nm))
                       else (env, r', None)))"

fun validate_rules ::
    "('env, 'ast, 'prg) cel_lib \<Rightarrow> 'env option \<Rightarrow> nat \<Rightarrow> 'prg Rule list \<Rightarrow>
     'prg Rule list \<times> policy_error option" where
  "validate_rules lib celEnv i [] = ([], None)"
| "validate_rules lib celEnv i (r # rs) =
     (case validate_rule lib celEnv i r of
        (env, r', Some e) \<Rightarrow> (r' # rs, Some e)
      | (env, r', None) \<Rightarrow>
          (case validate_rules lib env (Suc i) rs of (rs', err) \<Rightarrow> (r' # rs', err)))"

definition Validate ::
    "('env, 'ast, 'prg) cel_lib \<Rightarrow> 'prg Policy \<Rightarrow> 'prg Policy \<times> policy_error option" where
  "Validate lib p =
     (if Rules p = [] then (p, Some NoRules)
      else case validate_rules lib None 0 (Rules p) of
             (rs, Some e) \<Rightarrow> (p\<lparr>Rules := rs\<rparr>, Some e)
           | (rs, None) \<Rightarrow> (p\<lparr>Rules := rs, validated := True\<rparr>, None))"

subsection \<open>Evaluation\<close>

datatype evaluate_error = NotValidated | NoRuleMatched

text \<open>\<open>now i\<close> is the clock reading of the CEL evaluation of rule \<open>i\<close>.\<close>

fun evaluate_rules ::
    "('env, 'ast, 'prg) cel_lib \<Rightarrow> (nat \<Rightarrow> time) \<Rightarrow> Identity \<Rightarrow> nat \<Rightarrow> 'prg Rule list \<Rightarrow>
     evaluate_error + Decision" where
  "evaluate_rules lib now i n [] = Inl NoRuleMatched"
| "evaluate_rules lib now i n (r # rs) =
     (if matches lib (now n) r i
      then Inr \<lparr>RuleName = Rule_identity r n, Decision_Account = Account (Rule_Grant r),
                Permissions = permissionLimits (Rule_Grant r), Decision_MaxExpiry = MaxExpiry (Rule_Grant r)\<rparr>
      else evaluate_rules lib now i (Suc n) rs)"

definition Evaluate ::
    "('env, 'ast, 'prg) cel_lib \<Rightarrow> (nat \<Rightarrow> time) \<Rightarrow> 'prg Policy \<Rightarrow> Identity \<Rightarrow> evaluate_error + Decision" where
  "Evaluate lib now p i =
     (if \<not> validated p then Inl NotValidated else evaluate_rules lib now i 0 (Rules p))"

subsection \<open>Loading\<close>

text \<open>One \<open>Decode\<close> of the strict YAML decoder: end of input, an error or a value.\<close>

datatype 'v yaml_result = YEOF | YErr string | YValue 'v

record 'v yaml_lib =
  yaml_first :: "string \<Rightarrow> 'v yaml_result"       \<comment> \<open>first document, unknown fields rejected\<close>
  yaml_second :: "string \<Rightarrow> unit yaml_result"     \<comment> \<open>what follows it\<close>

datatype decode_error = YamlError string | AdditionalDocument

definition DecodeStrict :: "'v yaml_lib \<Rightarrow> string \<Rightarrow> 'v \<Rightarrow> decode_error + 'v" where
  "DecodeStrict yaml data v =
     (case yaml_first yaml data of
        YEOF \<Rightarrow> Inr v
      | YErr e \<Rightarrow> Inl (YamlError e)
      | YValue x \<Rightarrow>
          (case yaml_second yaml data of
             YEOF \<Rightarrow> Inr x
           | YErr e \<Rightarrow> Inl (YamlError e)
           | YValue _ \<Rightarrow> Inl AdditionalDocument))"

datatype load_error = ReadPolicy string | ParsePolicy decode_error | InvalidPolicy policy_error

type_synonym file_system = "string \<Rightarrow> string + string"

definition emptyPolicy :: "'prg Policy" where
  "emptyPolicy = \<lparr>Rules = [], validated = False\<rparr>"

definition LoadPolicy ::
    "('env, 'ast, 'prg) cel_lib \<Rightarrow> 'prg Policy yaml_lib \<Rightarrow> file_system \<Rightarrow> string \<Rightarrow> load_error + 'prg Policy" where
  "LoadPolicy lib yaml fs path =
     (case fs path of
        Inl e \<Rightarrow> Inl (ReadPolicy e)
      | Inr data \<Rightarrow>
          (case DecodeStrict yaml data emptyPolicy of
             Inl e \<Rightarrow> Inl (ParsePolicy e)
           | Inr p \<Rightarrow>
               (case Validate lib p of
                  (p', Some e) \<Rightarrow> Inl (InvalidPolicy e)
                | (p', None) \<Rightarrow> Inr p')))"

end
