(* ===== verification/AuthzLaws.thy ===== *)
theory AuthzLaws
  imports Authz
begin

text \<open>
  Correctness of the policy engine: what subject patterns match, what the broad-rule guardrail
  guarantees about an accepted rule, what validation establishes, and that evaluation is
  first-match-wins and fails closed.
\<close>

subsection \<open>The AWS account pattern\<close>

definition digit_class :: re where "digit_class = RClass False [(48, 57)]"

lemma awsAccountID_eq:
  "awsAccountID = RCat RBegin (RCat (RRepeat 12 (Some 12) True digit_class) REnd)"
  by (simp add: awsAccountID_def digit_class_def compile_evals)

definition twelve_digits :: "string \<Rightarrow> bool" where
  "twelve_digits v \<longleftrightarrow> length v = 12 \<and> list_all (\<lambda>c. is_digit (byte c)) v"

lemma is_digit_less: "is_digit r \<Longrightarrow> r < 128"
  by (auto simp: is_digit_def in_class_def)

lemma twelve_digits_ascii: "twelve_digits v \<Longrightarrow> list_all is_ascii v"
  by (auto simp: twelve_digits_def list_all_iff is_ascii_def dest: is_digit_less)

lemma twelve_digits_runes: "twelve_digits v \<longleftrightarrow> length (runes v) = 12 \<and> list_all is_digit (runes v)"
proof
  assume "twelve_digits v"
  then show "length (runes v) = 12 \<and> list_all is_digit (runes v)"
    using runes_all_ascii [OF twelve_digits_ascii] by (simp add: twelve_digits_def list_all_iff)
next
  assume r: "length (runes v) = 12 \<and> list_all is_digit (runes v)"
  then have "\<forall>r \<in> set (runes v). r < 128" using is_digit_less by (auto simp: list_all_iff)
  then have "runes v = map byte v" using runes_all_ascii all_runes_ascii by blast
  with r show "twelve_digits v" by (simp add: twelve_digits_def list_all_iff)
qed

lemma awsAccountID_iff: "MatchString awsAccountID v \<longleftrightarrow> twelve_digits v"
proof -
  let ?v = "runes v"
  have "MatchString awsAccountID v \<longleftrightarrow>
      concat (map (ends ?v REnd) (ends ?v (RRepeat 12 (Some 12) True digit_class) 0)) \<noteq> []"
    by (simp add: MatchString_iff awsAccountID_eq find_runes_anchored del: ends.simps(14))
  also have "\<dots> \<longleftrightarrow> twelve_digits v"
    unfolding digit_class_def ends_repeat_exact pow_ends_class
    by (auto simp: twelve_digits_runes is_digit_def list_all_length)
  finally show ?thesis .
qed

lemma is_digit_neq: "is_digit (byte c) \<Longrightarrow> c \<noteq> CHR '':'' \<and> c \<noteq> CHR ''*''"
  by (auto simp: is_digit_def in_class_def)

lemma twelve_digits_chars: "twelve_digits v \<Longrightarrow> CHR '':'' \<notin> set v \<and> CHR ''*'' \<notin> set v"
  using is_digit_neq by (auto simp: twelve_digits_def list_all_iff)

subsection \<open>Glob subjects\<close>

definition glob_pattern :: "string \<Rightarrow> bool" where
  "glob_pattern p \<longleftrightarrow> p \<noteq> [] \<and> \<not> strings_HasPrefix p ''re:''"

lemma builder_concat:
  "foldl (\<lambda>b part. b @ regexp_QuoteMeta part @ ''.*'') acc parts =
     acc @ concat (map (\<lambda>part. regexp_QuoteMeta part @ ''.*'') parts)"
  by (induction parts arbitrary: acc) auto

lemma quoted_parts:
  "concat (map (\<lambda>part. regexp_QuoteMeta part @ ''.*'') (strings_Split p CHR ''*'')) =
     concat (map (glob_piece quote) p) @ ''.*''"
proof (induction p)
  case (Cons c p)
  obtain w ws where split: "strings_Split p CHR ''*'' = w # ws"
    using Split_ne by (metis neq_Nil_conv)
  with Cons.IH show ?case
    by (cases "c = CHR ''*''") (simp_all add: regexp_QuoteMeta_def)
qed (simp add: regexp_QuoteMeta_def)

text \<open>The text \<open>compileSub\<close> builds for a glob is its translation, so it compiles if it is valid UTF-8.\<close>

lemma compileSub_glob:
  assumes "glob_pattern p"
  shows "compileSub p =
    (case regexp_Compile (glob_regexp quote p) of Inl e \<Rightarrow> Inl (InvalidSubGlob e) | Inr re \<Rightarrow> Inr (Some re))"
proof -
  have "strings_TrimSuffix (''^'' @ concat (map (glob_piece quote) p) @ ''.*'') ''.*'' @ ''$'' =
      glob_regexp quote p"
    using TrimSuffix_append [of "''^'' @ concat (map (glob_piece quote) p)" "''.*''"]
    by (simp add: glob_regexp_def)
  moreover from assms have "strings_CutPrefix p ''re:'' = None" and "p \<noteq> []"
    by (auto simp: glob_pattern_def CutPrefix_None_iff)
  ultimately show ?thesis
    by (simp add: compileSub_def builder_concat quoted_parts Let_def)
qed

lemma compileSub_glob_valid: "glob_pattern p \<Longrightarrow> (\<exists>m. compileSub p = Inr m) \<longleftrightarrow> valid_utf8 p"
  unfolding go_regexp.compile_glob [symmetric] by (auto simp: compileSub_glob split: sum.splits)

lemma compileSub_glob_ok:
  assumes "glob_pattern p" and "compileSub p = Inr m"
  obtains re where "m = Some re" and "regexp_Compile (glob_regexp quote p) = Inr re"
  using assms compileSub_glob [OF assms(1)] by (auto split: sum.splits)

lemma subMatches_full:
  "matcher r = Some re \<Longrightarrow> subMatches r s \<longleftrightarrow> go_regexp.full_match re s"
  by (auto simp: subMatches_def go_regexp.full_match_def split: option.splits prod.splits)

lemma subMatches_glob:
  assumes "compileSub (Sub (Rule_Match r)) = Inr (matcher r)" and "glob_pattern (Sub (Rule_Match r))"
  shows "subMatches r s \<longleftrightarrow> glob_match (runes (Sub (Rule_Match r))) (runes s)"
  using assms(2,1)
proof (rule compileSub_glob_ok)
  fix re assume re: "matcher r = Some re"
    and comp: "regexp_Compile (glob_regexp quote (Sub (Rule_Match r))) = Inr re"
  show ?thesis using comp by (simp add: subMatches_full [OF re] go_regexp.full_match_glob)
qed

lemma glob_literal:
  assumes "CHR ''*'' \<notin> set p" and "glob_match (runes p) (runes s)"
  shows "runes s = runes p"
  using assms runes_member_ascii [of "CHR ''*''" p] glob_match_literal [of "runes p" "runes s"]
  by (simp add: is_ascii_def)

subsection \<open>The account field of an ARN\<close>

definition arn_account :: "string \<Rightarrow> string option" where
  "arn_account s =
     (let fields = strings_SplitN s CHR '':'' 6
      in if 5 \<le> length fields then Some (fields ! 4) else None)"

lemma SplitN_take_no_sep: "w \<in> set (take (n - 1) (strings_SplitN s c n)) \<Longrightarrow> c \<notin> set w"
proof (induction s c n arbitrary: w rule: strings_SplitN.induct)
  case (4 x s sep n)
  then show ?case by (cases n) (auto split: list.splits if_splits)
qed auto

lemma SplitN_five:
  assumes "\<forall>w \<in> {a, b, c, d, e}. CHR '':'' \<notin> set w"
  shows "strings_SplitN (a @ '':'' @ b @ '':'' @ c @ '':'' @ d @ '':'' @ e @ '':'' @ t) CHR '':'' 6 =
    [a, b, c, d, e, t]"
  using assms by (simp add: SplitN_append eval_nat_numeral)

lemma accountPinned_shape:
  assumes "accountPinnedInARN p"
  obtains a b c d e t where "twelve_digits e" and "CHR ''*'' \<notin> set (a @ '':'' @ b @ '':'' @ c @ '':'' @ d)"
    and "\<forall>w \<in> {a, b, c, d, e}. CHR '':'' \<notin> set w"
    and "p = a @ '':'' @ b @ '':'' @ c @ '':'' @ d @ '':'' @ e \<or>
         p = a @ '':'' @ b @ '':'' @ c @ '':'' @ d @ '':'' @ e @ '':'' @ t"
proof -
  let ?f = "strings_SplitN p CHR '':'' 6"
  from assms have len: "5 \<le> length ?f" and star: "CHR ''*'' \<notin> set (strings_Join (take 4 ?f) '':'')"
    and acct: "twelve_digits (?f ! 4)"
    by (auto simp: accountPinnedInARN_def awsAccountID_iff Contains_single Let_def split: if_splits)
  from len length_SplitN_le [of p "CHR '':''" 6] have "length ?f = 5 \<or> length ?f = 6" by auto
  then obtain a b c d e t where f: "?f = [a, b, c, d, e] \<or> ?f = [a, b, c, d, e, t]"
    by (auto simp: eval_nat_numeral length_Suc_conv)
  have sep: "\<forall>w \<in> {a, b, c, d, e}. CHR '':'' \<notin> set w"
    using f SplitN_take_no_sep [of _ 6 p "CHR '':''"] by auto
  have "p = strings_Join ?f '':''" by (simp add: Join_SplitN)
  with f have "p = a @ '':'' @ b @ '':'' @ c @ '':'' @ d @ '':'' @ e \<or>
      p = a @ '':'' @ b @ '':'' @ c @ '':'' @ d @ '':'' @ e @ '':'' @ t" by auto
  moreover have "twelve_digits e" and "CHR ''*'' \<notin> set (a @ '':'' @ b @ '':'' @ c @ '':'' @ d)"
    using f acct star by (auto simp: eval_nat_numeral)
  ultimately show thesis using that sep by blast
qed

text \<open>The account field of a string depends on its runes only, if it is ASCII.\<close>

definition colon_runes :: "string list \<Rightarrow> rune list" where
  "colon_runes ws = concat (map (\<lambda>w. runes w @ [58]) ws)"

lemma runes_colon: "runes (w @ '':'' @ t) = runes w @ 58 # runes t"
  using runes_at_ascii [of "CHR '':''" w t] by (simp add: is_ascii_def)

lemma no_colon_runes: "CHR '':'' \<notin> set w \<longleftrightarrow> 58 \<notin> set (runes w)"
  using runes_member_ascii [of "CHR '':''" w] by (simp add: is_ascii_def)

lemma split_fields:
  assumes "runes s = colon_runes ws @ v"
  obtains ws' t where "s = concat (map (\<lambda>w. w @ '':'') ws') @ t" and "map runes ws' = map runes ws" and "runes t = v"
  using assms
proof (induction ws arbitrary: s thesis)
  case Nil
  then show ?case by (simp add: colon_runes_def)
next
  case (Cons w ws)
  from Cons.prems(2) have "runes s = runes w @ byte (CHR '':'') # (colon_runes ws @ v)"
    by (simp add: colon_runes_def)
  then obtain x y where s: "s = x @ '':'' @ y" and x: "runes x = runes w" and y: "runes y = colon_runes ws @ v"
    by (rule runes_splitE) (simp_all add: is_ascii_def)
  from y obtain ws' t where "y = concat (map (\<lambda>w. w @ '':'') ws') @ t" "map runes ws' = map runes ws" "runes t = v"
    using Cons.IH by metis
  with s x show ?case by (intro Cons.prems(1) [of "x # ws'" t]) simp_all
qed

lemma arn_account_fields:
  assumes "\<forall>w \<in> {a, b, c, d, e}. CHR '':'' \<notin> set w"
  shows "arn_account (a @ '':'' @ b @ '':'' @ c @ '':'' @ d @ '':'' @ e) = Some e"
    and "arn_account (a @ '':'' @ b @ '':'' @ c @ '':'' @ d @ '':'' @ e @ '':'' @ t) = Some e"
  using assms SplitN_five [OF assms, of t]
  by (simp_all add: arn_account_def SplitN_append SplitN_no_sep eval_nat_numeral)

lemma arn_account_runes:
  assumes sep: "\<forall>w \<in> {a, b, c, d, e}. CHR '':'' \<notin> set w" and e: "list_all is_ascii e"
    and s: "runes s = colon_runes [a, b, c, d] @ runes e @ v" and v: "v = [] \<or> hd v = 58"
  shows "arn_account s = Some e"
proof -
  from s obtain ws' t where s': "s = concat (map (\<lambda>w. w @ '':'') ws') @ t"
    and ws: "map runes ws' = map runes [a, b, c, d]" and t: "runes t = runes e @ v"
    by (rule split_fields)
  from ws obtain a' b' c' d' where ws': "ws' = [a', b', c', d']"
    and "runes a' = runes a" "runes b' = runes b" "runes c' = runes c" "runes d' = runes d"
    by (auto simp: map_eq_Cons_conv)
  then have sep': "\<forall>w \<in> {a', b', c', d', e}. CHR '':'' \<notin> set w" using sep by (simp add: no_colon_runes)
  have "t = e \<or> (\<exists>u. t = e @ '':'' @ u)"
  proof (cases v)
    case Nil
    with t runes_eq_ascii [OF _ e] show ?thesis by simp
  next
    case (Cons r v')
    with t v have "runes t = runes e @ byte (CHR '':'') # v'" by simp
    then obtain x u where "t = x @ '':'' @ u" "runes x = runes e"
      by (rule runes_splitE) (simp_all add: is_ascii_def)
    with runes_eq_ascii [OF _ e] show ?thesis by blast
  qed
  with arn_account_fields [OF sep'] show ?thesis unfolding s' ws' by auto
qed

text \<open>Whatever a pinned glob matches lies in the account it names.\<close>

lemma accountPinned_match:
  assumes "accountPinnedInARN p" and "glob_match (runes p) (runes s)"
  shows "arn_account s = arn_account p \<and> (\<exists>a. arn_account p = Some a \<and> twelve_digits a)"
  using assms(1)
proof (rule accountPinned_shape)
  fix a b c d e t
  assume e: "twelve_digits e" and star: "CHR ''*'' \<notin> set (a @ '':'' @ b @ '':'' @ c @ '':'' @ d)"
    and sep: "\<forall>w \<in> {a, b, c, d, e}. CHR '':'' \<notin> set w"
    and p: "p = a @ '':'' @ b @ '':'' @ c @ '':'' @ d @ '':'' @ e \<or>
         p = a @ '':'' @ b @ '':'' @ c @ '':'' @ d @ '':'' @ e @ '':'' @ t"
  let ?q = "a @ '':'' @ b @ '':'' @ c @ '':'' @ d @ '':'' @ e"
  let ?r = "colon_runes [a, b, c, d] @ runes e"
  have q: "runes ?q = ?r" by (simp add: colon_runes_def runes_colon [simplified])
  have "CHR ''*'' \<notin> set ?q" using star twelve_digits_chars [OF e] by auto
  then have nostar: "42 \<notin> set ?r"
    unfolding q [symmetric] using runes_member_ascii [of "CHR ''*''" ?q] by (simp add: is_ascii_def)
  have "\<exists>v. runes s = ?r @ v \<and> (v = [] \<or> hd v = 58)"
  proof (cases "p = ?q")
    case True
    with assms(2) nostar have "runes s = ?r" using glob_match_literal [of ?r] q by simp
    then show ?thesis by simp
  next
    case False
    with p have "p = ?q @ '':'' @ t" by simp
    then have "runes p = (?r @ [58]) @ runes t" using runes_colon [of ?q t] q by simp
    then obtain u where "runes s = (?r @ [58]) @ u"
      using glob_match_prefix [of "?r @ [58]" "runes t" "runes s"] assms(2) nostar by auto
    then show ?thesis by simp
  qed
  then have "arn_account s = Some e"
    using arn_account_runes [OF sep twelve_digits_ascii [OF e]] by auto
  moreover have "arn_account p = Some e" using p arn_account_fields [OF sep] by auto
  ultimately show ?thesis using e by simp
qed

subsection \<open>What validation establishes\<close>

text \<open>The environment the loop carries is the one \<open>newCELEnv\<close> made, if any.\<close>

definition env_ok :: "('env, 'ast, 'prg) cel_lib \<Rightarrow> 'env option \<Rightarrow> bool" where
  "env_ok lib celEnv \<longleftrightarrow> (\<forall>env. celEnv = Some env \<longrightarrow> newCELEnv lib = Inr env)"

definition expr_ok :: "('env, 'ast, 'prg) cel_lib \<Rightarrow> 'prg Rule \<Rightarrow> bool" where
  "expr_ok lib r \<longleftrightarrow>
     (Expr (Rule_Match r) \<noteq> [] \<longrightarrow>
        AllowBroad (Rule_Match r) \<and>
        (\<exists>env prg. newCELEnv lib = Inr env \<and> celProgram r = Some prg \<and>
           compileCELProgram lib env (Expr (Rule_Match r)) = Inr prg))"

text \<open>A rule the evaluator may use: granted account, explicit permissions, compiled matchers,
  and either a strong identity pin or an explicit acknowledgement.\<close>

definition rule_ok :: "('env, 'ast, 'prg) cel_lib \<Rightarrow> 'prg Rule \<Rightarrow> bool" where
  "rule_ok lib r \<longleftrightarrow>
     Account (Rule_Grant r) \<noteq> [] \<and>
     Permission_validate (Publish (Rule_Grant r)) \<and> Permission_validate (Subscribe (Rule_Grant r)) \<and>
     compileSub (Sub (Rule_Match r)) = Inr (matcher r) \<and>
     expr_ok lib r \<and>
     (hasStrongPin r \<or> AllowBroad (Rule_Match r))"

definition policy_ok :: "('env, 'ast, 'prg) cel_lib \<Rightarrow> 'prg Policy \<Rightarrow> bool" where
  "policy_ok lib p \<longleftrightarrow> (validated p \<longrightarrow> Rules p \<noteq> [] \<and> (\<forall>r \<in> set (Rules p). rule_ok lib r))"

text \<open>Validation changes only the compiled parts of a rule.\<close>

definition same_source :: "'prg Rule \<Rightarrow> 'prg Rule \<Rightarrow> bool" where
  "same_source r r' \<longleftrightarrow> Name r' = Name r \<and> Rule_Match r' = Rule_Match r \<and> Rule_Grant r' = Rule_Grant r"

lemma hasStrongPin_source: "same_source r r' \<Longrightarrow> hasStrongPin r' = hasStrongPin r"
  by (simp add: same_source_def hasStrongPin_def)

lemma Rule_identity_source: "same_source r r' \<Longrightarrow> Rule_identity r' i = Rule_identity r i"
  by (simp add: same_source_def Rule_identity_def)

lemma validate_expr_source:
  "validate_expr lib celEnv nm r = (env, r', e) \<Longrightarrow>
     same_source r r' \<and> matcher r' = matcher r \<and> (env_ok lib celEnv \<longrightarrow> env_ok lib env)"
  by (auto simp: validate_expr_def same_source_def env_ok_def split: if_splits option.splits sum.splits)

lemma validate_expr_ok:
  "validate_expr lib celEnv nm r = (env, r', None) \<Longrightarrow> env_ok lib celEnv \<Longrightarrow> expr_ok lib r'"
  by (auto simp: validate_expr_def expr_ok_def env_ok_def split: if_splits option.splits sum.splits)

lemma validate_rule_source:
  assumes "validate_rule lib celEnv i r = (env, r', e)"
  shows "same_source r r' \<and> (env_ok lib celEnv \<longrightarrow> env_ok lib env)"
proof (cases "compileSub (Sub (Rule_Match r))")
  case (Inl a)
  with assms show ?thesis by (auto simp: validate_rule_def same_source_def Let_def split: if_splits)
next
  case (Inr re)
  obtain env2 r2 e2 where v: "validate_expr lib celEnv (Rule_identity r i) (r\<lparr>matcher := re\<rparr>) = (env2, r2, e2)"
    by (metis prod_cases3)
  from validate_expr_source [OF v] have "same_source r r2" "env_ok lib celEnv \<longrightarrow> env_ok lib env2"
    by (auto simp: same_source_def)
  with assms Inr v show ?thesis
    by (auto simp: validate_rule_def same_source_def Let_def split: if_splits option.splits)
qed

lemma validate_rule_ok:
  assumes "validate_rule lib celEnv i r = (env, r', None)" and "env_ok lib celEnv"
  shows "rule_ok lib r'"
proof -
  from assms(1) obtain re where re: "compileSub (Sub (Rule_Match r)) = Inr re"
    and grant: "Account (Rule_Grant r) \<noteq> []" "Permission_validate (Publish (Rule_Grant r))"
      "Permission_validate (Subscribe (Rule_Grant r))"
    and expr: "validate_expr lib celEnv (Rule_identity r i) (r\<lparr>matcher := re\<rparr>) = (env, r', None)"
    and pin: "hasStrongPin r' \<or> AllowBroad (Rule_Match r')"
    by (auto simp: validate_rule_def Let_def split: if_splits sum.splits option.splits prod.splits)
  from validate_expr_source [OF expr] have "same_source r r'" and "matcher r' = re"
    by (auto simp: same_source_def)
  with re grant pin validate_expr_ok [OF expr assms(2)] show ?thesis
    by (simp add: rule_ok_def same_source_def)
qed

lemma validate_rules_ok:
  assumes "validate_rules lib celEnv i rs = (rs', e)" and "env_ok lib celEnv"
  shows "list_all2 same_source rs rs' \<and> (e = None \<longrightarrow> (\<forall>r \<in> set rs'. rule_ok lib r))"
  using assms
proof (induction rs arbitrary: celEnv i rs' e)
  case (Cons r rs)
  obtain env r1 e1 where v: "validate_rule lib celEnv i r = (env, r1, e1)"
    by (metis prod_cases3)
  from validate_rule_source [OF v] Cons.prems(2) have src: "same_source r r1" and env: "env_ok lib env"
    by auto
  have refl: "list_all2 same_source rs rs" by (simp add: list_all2_same same_source_def)
  show ?case
  proof (cases e1)
    case None
    obtain rs1 e2 where w: "validate_rules lib env (Suc i) rs = (rs1, e2)" by fastforce
    with Cons.prems v None have "rs' = r1 # rs1" "e = e2" by auto
    with Cons.IH [OF w env] validate_rule_ok [of lib celEnv i r env r1] v None Cons.prems(2) src
    show ?thesis by auto
  next
    case (Some err)
    with Cons.prems v refl src show ?thesis by auto
  qed
qed simp

lemma Validate_ok:
  assumes "Validate lib p = (p', None)"
  shows "validated p' \<and> policy_ok lib p' \<and> list_all2 same_source (Rules p) (Rules p')"
proof -
  from assms obtain rs where ne: "Rules p \<noteq> []" and v: "validate_rules lib None 0 (Rules p) = (rs, None)"
    and p': "p' = p\<lparr>Rules := rs, validated := True\<rparr>"
    by (auto simp: Validate_def split: if_splits prod.splits option.splits)
  have "env_ok lib None" by (simp add: env_ok_def)
  from validate_rules_ok [OF v this] ne p' show ?thesis
    by (auto simp: policy_ok_def)
qed

lemma Validate_error_flag: "Validate lib p = (p', Some e) \<Longrightarrow> validated p' = validated p"
  by (auto simp: Validate_def split: if_splits prod.splits option.splits)

text \<open>Validating a validated policy again changes nothing: a policy file is validated when it is
  loaded and again as part of the configuration.\<close>

lemma validate_expr_idem:
  "validate_expr lib celEnv nm r = (env, r', None) \<Longrightarrow> validate_expr lib celEnv nm r' = (env, r', None)"
  by (auto simp: validate_expr_def split: if_splits option.splits sum.splits)

lemma validate_rule_idem:
  assumes "validate_rule lib celEnv i r = (env, r', None)"
  shows "validate_rule lib celEnv i r' = (env, r', None)"
proof -
  from assms obtain re where re: "compileSub (Sub (Rule_Match r)) = Inr re"
    and grant: "Account (Rule_Grant r) \<noteq> []" "Permission_validate (Publish (Rule_Grant r))"
      "Permission_validate (Subscribe (Rule_Grant r))"
    and expr: "validate_expr lib celEnv (Rule_identity r i) (r\<lparr>matcher := re\<rparr>) = (env, r', None)"
    and pin: "hasStrongPin r' \<or> AllowBroad (Rule_Match r')"
    by (auto simp: validate_rule_def Let_def split: if_splits sum.splits option.splits prod.splits)
  from validate_expr_source [OF expr] have src: "same_source r r'" and m: "matcher r' = re"
    by (auto simp: same_source_def)
  then have "r'\<lparr>matcher := re\<rparr> = r'" by simp
  with validate_expr_idem [OF expr] re grant pin src Rule_identity_source [OF src] show ?thesis
    by (auto simp: validate_rule_def same_source_def Let_def)
qed

lemma validate_rules_idem:
  "validate_rules lib celEnv i rs = (rs', None) \<Longrightarrow> validate_rules lib celEnv i rs' = (rs', None)"
proof (induction rs arbitrary: celEnv i rs')
  case (Cons r rs)
  obtain env r1 e1 where v: "validate_rule lib celEnv i r = (env, r1, e1)"
    by (metis prod_cases3)
  with Cons.prems have e1: "e1 = None" by (auto split: option.splits)
  obtain rs1 e2 where w: "validate_rules lib env (Suc i) rs = (rs1, e2)" by fastforce
  with Cons.prems v e1 have "rs' = r1 # rs1" "e2 = None" by auto
  with Cons.IH [of env "Suc i" rs1] w validate_rule_idem [of lib celEnv i r env r1] v e1 show ?case
    by simp
qed simp

subsection \<open>Evaluation\<close>

definition decision_of :: "'prg Rule \<Rightarrow> nat \<Rightarrow> Decision" where
  "decision_of r n =
     \<lparr>RuleName = Rule_identity r n, Decision_Account = Account (Rule_Grant r),
      Permissions = permissionLimits (Rule_Grant r), Decision_MaxExpiry = MaxExpiry (Rule_Grant r)\<rparr>"

lemma evaluate_rules_Cons:
  "evaluate_rules lib now i n (r # rs) =
     (if matches lib (now n) r i then Inr (decision_of r n) else evaluate_rules lib now i (Suc n) rs)"
  by (simp add: decision_of_def)

lemma evaluate_rules_Inr:
  "evaluate_rules lib now i n rs = Inr d \<longleftrightarrow>
     (\<exists>k < length rs. matches lib (now (n + k)) (rs ! k) i \<and>
        (\<forall>j < k. \<not> matches lib (now (n + j)) (rs ! j) i) \<and> d = decision_of (rs ! k) (n + k))"
proof (induction rs arbitrary: n)
  case (Cons r rs)
  have split0: "(\<exists>k < length (r # rs). P k) \<longleftrightarrow> P 0 \<or> (\<exists>k < length rs. P (Suc k))" for P
    by (auto simp: less_Suc_eq_0_disj)
  show ?case
    by (subst split0) (auto simp: Cons.IH evaluate_rules_Cons All_less_Suc2 simp del: evaluate_rules.simps)
qed simp

lemma evaluate_rules_Inl:
  "evaluate_rules lib now i n rs = Inl e \<longleftrightarrow>
     e = NoRuleMatched \<and> (\<forall>k < length rs. \<not> matches lib (now (n + k)) (rs ! k) i)"
  by (induction rs arbitrary: n) (auto simp: less_Suc_eq_0_disj)

lemma Evaluate_InrE:
  assumes "Evaluate lib now p i = Inr d"
  obtains k where "validated p" and "k < length (Rules p)" and "matches lib (now k) (Rules p ! k) i"
    and "\<forall>j < k. \<not> matches lib (now j) (Rules p ! j) i" and "d = decision_of (Rules p ! k) k"
  using assms evaluate_rules_Inr [of lib now i 0 "Rules p" d]
  by (auto simp: Evaluate_def split: if_splits)

lemma matches_parts:
  assumes "matches lib now r i"
  shows "(Issuer (Rule_Match r) \<noteq> [] \<longrightarrow> Id_Issuer i = Issuer (Rule_Match r)) \<and>
    subMatches r (Id_Subject i) \<and>
    (\<forall>(k, want) \<in> set (Match_Claims (Rule_Match r)). Claim i k = Some want) \<and>
    (\<forall>prg. celProgram r = Some prg \<longrightarrow> evalCEL lib now prg i)"
  using assms unfolding matches_def first_mismatch_None_iff [symmetric]
  by (auto split: if_splits option.splits)

lemma Validate_again:
  assumes "Validate lib p = (p', None)"
  shows "Validate lib p' = (p', None)"
proof -
  from assms obtain rs where ne: "Rules p \<noteq> []" and v: "validate_rules lib None 0 (Rules p) = (rs, None)"
    and p': "p' = p\<lparr>Rules := rs, validated := True\<rparr>"
    by (auto simp: Validate_def split: if_splits prod.splits option.splits)
  from Validate_ok [OF assms] have "list_all2 same_source (Rules p) (Rules p')" by simp
  with ne have "Rules p' \<noteq> []" by auto
  with validate_rules_idem [OF v] p' show ?thesis by (simp add: Validate_def)
qed

end
