(* ===== verification/AuthzProps.thy ===== *)
theory AuthzProps
  imports AuthzLaws
begin

text \<open>
  The guarantees of the policy engine, each with a concrete instance: a small policy with one
  rule per kind of pin, and a CEL library whose programs are constant booleans.
\<close>

subsection \<open>Example policy\<close>

definition const_cel :: "(unit, string, bool) cel_lib" where
  "const_cel =
     \<lparr>cel_NewEnv = (\<lambda>_. Inr ()), cel_Compile = (\<lambda>_ e. (e, None)), cel_OutputType = (\<lambda>_. BoolType),
      cel_Program = (\<lambda>_ e _. Inr (e = ''true'')), cel_Eval = (\<lambda>b _. Inr (CelBool b))\<rparr>"

definition app_grant :: Grant where
  "app_grant = \<lparr>Account = ''APP'', Publish = Some \<lparr>Allow = [''app.>''], Deny = []\<rparr>, Subscribe = None,
     Grant_Response = None, MaxExpiry = 0\<rparr>"

definition role_rule :: "bool Rule" where
  "role_rule = \<lparr>Name = ''roles'',
     Rule_Match = \<lparr>Issuer = [], Sub = ''arn:aws:iam::123456789012:role/*'', Match_Claims = [], Expr = [], AllowBroad = False\<rparr>,
     Rule_Grant = app_grant, matcher = None, celProgram = None\<rparr>"

definition expr_rule :: "bool Rule" where
  "expr_rule = \<lparr>Name = [],
     Rule_Match = \<lparr>Issuer = [], Sub = [], Match_Claims = [], Expr = ''true'', AllowBroad = True\<rparr>,
     Rule_Grant = app_grant, matcher = None, celProgram = None\<rparr>"

definition example_policy :: "bool Policy" where
  "example_policy = \<lparr>Rules = [role_rule, expr_rule], validated = False\<rparr>"

definition role_re :: re where
  "role_re = RCat RBegin (cat_of (map glob_re (map byte ''arn:aws:iam::123456789012:role/*'') @ [REnd]))"

definition example_validated :: "bool Policy" where
  "example_validated = \<lparr>Rules = [role_rule\<lparr>matcher := Some role_re\<rparr>, expr_rule\<lparr>celProgram := Some True\<rparr>],
     validated = True\<rparr>"

lemma role_sub_compiles: "compileSub ''arn:aws:iam::123456789012:role/*'' = Inr (Some role_re)"
  by (subst compileSub_glob)
     (simp_all add: glob_pattern_def strings_HasPrefix_def Compile_glob role_re_def
       valid_all_ascii runes_all_ascii is_ascii_def)

lemma role_sub_pins: "accountPinnedInARN ''arn:aws:iam::123456789012:role/*''"
  by (simp add: accountPinnedInARN_def strings_HasPrefix_def awsAccountID_iff twelve_digits_def
      is_digit_def in_class_def eval_nat_numeral Let_def)

lemma role_rule_valid:
  "validate_rule const_cel None 0 role_rule = (None, role_rule\<lparr>matcher := Some role_re\<rparr>, None)"
  by (simp add: validate_rule_def role_rule_def app_grant_def Permission_validate_def
      role_sub_compiles validate_expr_def hasStrongPin_def role_sub_pins Let_def)

lemma expr_rule_valid:
  "validate_rule const_cel None 1 expr_rule = (Some (), expr_rule\<lparr>celProgram := Some True\<rparr>, None)"
  by (simp add: validate_rule_def expr_rule_def app_grant_def Permission_validate_def compileSub_def
      validate_expr_def newCELEnv_def compileCELProgram_def const_cel_def Let_def)

lemma example_policy_valid: "Validate const_cel example_policy = (example_validated, None)"
  by (simp add: Validate_def example_policy_def example_validated_def role_rule_valid
      expr_rule_valid [unfolded One_nat_def])

definition role_identity :: Identity where
  "role_identity = identity_New ''arn:aws:iam::123456789012:role/app'' None"

lemma role_rule_matches:
  "matches const_cel t (role_rule\<lparr>matcher := Some role_re\<rparr>) role_identity"
proof -
  have "subMatches (role_rule\<lparr>matcher := Some role_re\<rparr>) ''arn:aws:iam::123456789012:role/app'' \<longleftrightarrow>
      glob_match (runes ''arn:aws:iam::123456789012:role/*'') (runes ''arn:aws:iam::123456789012:role/app'')"
    using subMatches_glob [of "role_rule\<lparr>matcher := Some role_re\<rparr>"]
    by (simp add: role_rule_def role_sub_compiles glob_pattern_def strings_HasPrefix_def)
  then have "subMatches (role_rule\<lparr>matcher := Some role_re\<rparr>) ''arn:aws:iam::123456789012:role/app''"
    by (simp add: newline_def runes_all_ascii is_ascii_def)
  then show ?thesis
    by (simp add: matches_def role_rule_def role_identity_def identity_New_def)
qed

lemma example_evaluates:
  "Evaluate const_cel now example_validated role_identity = Inr (decision_of role_rule 0)"
  by (simp add: Evaluate_def example_validated_def role_rule_matches)
     (simp add: decision_of_def Rule_identity_def role_rule_def)

subsection \<open>The broad-rule guardrail\<close>

text \<open>A pinned identity: its subject is the rule's literal subject, or lies in the literal AWS account
  of the rule's ARN glob, or it carries the rule's literal AWS account or GitHub pin claim. The regexp package
  compares runes, so a subject with bytes that are not UTF-8 is only known to have the runes of the rule's
  subject, U+FFFD for every stray byte.\<close>

definition pinned :: "Match \<Rightarrow> Identity \<Rightarrow> bool" where
  "pinned m i \<longleftrightarrow>
     runes (Id_Subject i) = runes (Sub m) \<and> (valid_utf8 (Id_Subject i) \<longrightarrow> Id_Subject i = Sub m) \<or>
     (\<exists>a. twelve_digits a \<and> arn_account (Sub m) = Some a \<and> arn_account (Id_Subject i) = Some a) \<or>
     (\<exists>a. twelve_digits a \<and> (''aws.aws_account'', a) \<in> set (Match_Claims m) \<and>
        Claim i ''aws.aws_account'' = Some a) \<or>
     (\<exists>k \<in> set githubStrongPinKeys. \<exists>v. (k, v) \<in> set (Match_Claims m) \<and> Claim i k = Some v)"

lemma hasStrongPin_cases:
  assumes "hasStrongPin r"
  shows "subIsExact (Sub (Rule_Match r)) \<or> accountPinnedInARN (Sub (Rule_Match r)) \<or>
    (\<exists>v. map_of (Match_Claims (Rule_Match r)) ''aws.aws_account'' = Some v \<and> twelve_digits v) \<or>
    (\<exists>(k, v) \<in> set (Match_Claims (Rule_Match r)). k \<in> set githubStrongPinKeys)"
  using assms
  by (auto simp: hasStrongPin_def list_ex_iff awsAccountID_iff split: if_splits option.splits)

lemma strong_pin_pins:
  assumes "rule_ok lib r" and "hasStrongPin r" and "matches lib now r i"
  shows "pinned (Rule_Match r) i"
proof -
  let ?m = "Rule_Match r"
  have comp: "compileSub (Sub ?m) = Inr (matcher r)" using assms(1) by (simp add: rule_ok_def)
  have sub: "subMatches r (Id_Subject i)"
    and claims: "\<And>k v. (k, v) \<in> set (Match_Claims ?m) \<Longrightarrow> Claim i k = Some v"
    using matches_parts [OF assms(3)] by auto
  have glob: "glob_match (runes (Sub ?m)) (runes (Id_Subject i))" if "glob_pattern (Sub ?m)"
    using subMatches_glob [OF comp that] sub by simp
  from hasStrongPin_cases [OF assms(2)] show ?thesis
  proof (elim disjE)
    assume exact: "subIsExact (Sub ?m)"
    then have "glob_pattern (Sub ?m)" and "CHR ''*'' \<notin> set (Sub ?m)"
      by (auto simp: subIsExact_def glob_pattern_def Contains_single split: if_splits)
    with glob glob_literal have eq: "runes (Id_Subject i) = runes (Sub ?m)" by blast
    have "valid_utf8 (Sub ?m)" using compileSub_glob_valid [OF \<open>glob_pattern _\<close>] comp by blast
    with eq runes_inject show ?thesis by (auto simp: pinned_def)
  next
    assume arn: "accountPinnedInARN (Sub ?m)"
    then have "glob_pattern (Sub ?m)"
      by (auto simp: accountPinnedInARN_def glob_pattern_def split: if_splits)
    with accountPinned_match [OF arn glob] show ?thesis by (auto simp: pinned_def)
  next
    assume "\<exists>v. map_of (Match_Claims ?m) ''aws.aws_account'' = Some v \<and> twelve_digits v"
    with claims show ?thesis by (auto simp: pinned_def dest!: map_of_SomeD)
  next
    assume "\<exists>(k, v) \<in> set (Match_Claims ?m). k \<in> set githubStrongPinKeys"
    with claims show ?thesis by (fastforce simp: pinned_def)
  qed
qed

text \<open>C4: the broad-rule guardrail is sound. If a policy passes validation and then grants a decision to an
  identity, the decision is that of a matching rule which either says allow\_broad or pins the
  identity: exact subject, 12-digit AWS account in the subject's account field or in the
  aws.aws\_account claim, or a GitHub repository, repository\_id or job\_workflow\_ref claim. No
  choice of wildcards, colons or regular expression gets around it.\<close>

theorem broad_rule_guardrail:
  assumes "Validate lib p = (p', None)" and "Evaluate lib now p' i = Inr d"
  shows "\<exists>k < length (Rules p'). d = decision_of (Rules p' ! k) k \<and>
    matches lib (now k) (Rules p' ! k) i \<and>
    (AllowBroad (Rule_Match (Rules p' ! k)) \<or> pinned (Rule_Match (Rules p' ! k)) i)"
  using assms(2)
proof (rule Evaluate_InrE)
  fix k assume k: "k < length (Rules p')" and m: "matches lib (now k) (Rules p' ! k) i"
    and d: "d = decision_of (Rules p' ! k) k"
  from Validate_ok [OF assms(1)] k have "rule_ok lib (Rules p' ! k)" by (auto simp: policy_ok_def)
  with strong_pin_pins [OF this _ m] k m d show ?thesis by (auto simp: rule_ok_def)
qed

theorem broad_rule_guardrail_witness:
  "\<exists>k < length (Rules example_validated). decision_of role_rule 0 = decision_of (Rules example_validated ! k) k \<and>
    matches const_cel 0 (Rules example_validated ! k) role_identity \<and>
    (AllowBroad (Rule_Match (Rules example_validated ! k)) \<or>
     pinned (Rule_Match (Rules example_validated ! k)) role_identity)"
  by (rule broad_rule_guardrail [OF example_policy_valid example_evaluates])

subsection \<open>Subjects\<close>

text \<open>C16: in a validated policy a glob subject is valid UTF-8 and matches exactly the subjects the glob stands
  for: every character of the pattern is literal, whatever its meaning in regular expressions, except the star,
  which stands for any run of characters without a newline, and the whole subject must be covered. Characters are
  code points, a stray byte of the subject counting as U+FFFD; without a star a valid subject must be the pattern itself.\<close>

theorem glob_subject_matching:
  assumes "Validate lib p = (p', None)" and "r \<in> set (Rules p')"
    and "Sub (Rule_Match r) \<noteq> []" and "\<not> strings_HasPrefix (Sub (Rule_Match r)) ''re:''"
  shows "valid_utf8 (Sub (Rule_Match r)) \<and>
    (subMatches r s \<longleftrightarrow> glob_match (runes (Sub (Rule_Match r))) (runes s)) \<and>
    (CHR ''*'' \<notin> set (Sub (Rule_Match r)) \<and> valid_utf8 s \<longrightarrow> (subMatches r s \<longleftrightarrow> s = Sub (Rule_Match r)))"
proof -
  let ?p = "Sub (Rule_Match r)"
  from Validate_ok [OF assms(1)] assms(2) have "rule_ok lib r" by (auto simp: policy_ok_def)
  then have comp: "compileSub ?p = Inr (matcher r)" by (simp add: rule_ok_def)
  have glob: "glob_pattern ?p" using assms(3,4) by (simp add: glob_pattern_def)
  obtain re where re: "matcher r = Some re" and re': "regexp_Compile (glob_regexp quote ?p) = Inr re"
    using compileSub_glob_ok [OF glob comp] .
  have "valid_utf8 ?p" using compileSub_glob_valid [OF glob] comp by blast
  moreover have "subMatches r s \<longleftrightarrow> s = ?p" if "CHR ''*'' \<notin> set ?p" and "valid_utf8 s"
    using go_regexp.full_match_literal_valid [OF re' that] by (simp add: subMatches_full [OF re])
  ultimately show ?thesis using subMatches_glob [OF comp glob] by simp
qed

theorem glob_subject_matching_witness:
  "subMatches (role_rule\<lparr>matcher := Some role_re\<rparr>) ''arn:aws:iam::123456789012:role/x:y'' \<and>
   \<not> subMatches (role_rule\<lparr>matcher := Some role_re\<rparr>) ''arn:aws:iam::999999999999:role/x''"
proof -
  let ?r = "role_rule\<lparr>matcher := Some role_re\<rparr>"
  have r: "?r \<in> set (Rules example_validated)" by (simp add: example_validated_def)
  have sub: "Sub (Rule_Match ?r) \<noteq> []" "\<not> strings_HasPrefix (Sub (Rule_Match ?r)) ''re:''"
    by (simp_all add: role_rule_def strings_HasPrefix_def)
  have m: "subMatches ?r s \<longleftrightarrow> glob_match (runes (Sub (Rule_Match ?r))) (runes s)" for s
    using glob_subject_matching [OF example_policy_valid r sub] by blast
  show ?thesis unfolding m by (simp add: role_rule_def newline_def runes_all_ascii is_ascii_def)
qed

lemma regex_compiled:
  assumes "compileSub (''re:'' @ pat) = Inr m"
  obtains re where "m = Some re" and "regexp_Compile pat = Inr re"
    and "strings_HasPrefix pat ''^''" and "strings_HasSuffix pat ''$''"
proof -
  have "strings_CutPrefix (''re:'' @ pat) ''re:'' = Some pat"
    by (simp add: CutPrefix_Some_iff)
  with assms that show thesis by (auto simp: compileSub_def split: if_splits sum.splits)
qed

lemma subMatches_runes:
  "matcher r = Some re \<Longrightarrow> subMatches r s \<longleftrightarrow> find_runes re (runes s) = Some (0, length (runes s))"
  by (simp add: subMatches_full go_regexp.full_match_def FindStringIndex_full)

text \<open>C17: in a validated policy a subject with the re: prefix is anchored on both sides and compiles, and a subject
  it accepts is matched by the expression from its first to its last rune, in the sense of the declarative
  meaning of regular expressions: a match of a part of the subject never satisfies a rule. Conversely a
  subject is accepted whenever the expression matches it from the first to the last rune and no shorter
  match starts at its first rune.\<close>

theorem regex_subject_matching:
  assumes "Validate lib p = (p', None)" and "r \<in> set (Rules p')" and "Sub (Rule_Match r) = ''re:'' @ pat"
  shows "\<exists>re. regexp_Compile pat = Inr re \<and> strings_HasPrefix pat ''^'' \<and> strings_HasSuffix pat ''$'' \<and>
    (subMatches r s \<longrightarrow> re_match (runes s) re 0 (length (runes s))) \<and>
    ((\<forall>j. re_match (runes s) re 0 j \<longleftrightarrow> j = length (runes s)) \<longrightarrow> subMatches r s)"
proof -
  let ?t = "runes s"
  from Validate_ok [OF assms(1)] assms(2) have "rule_ok lib r" by (auto simp: policy_ok_def)
  then have "compileSub (''re:'' @ pat) = Inr (matcher r)" using assms(3) by (simp add: rule_ok_def)
  then obtain re where m: "matcher r = Some re" and comp: "regexp_Compile pat = Inr re"
    and anch: "strings_HasPrefix pat ''^''" "strings_HasSuffix pat ''$''"
    by (rule regex_compiled)
  have "re_match ?t re 0 (length ?t)" if "subMatches r s"
    using that find_runes_match [of re ?t] by (auto simp: subMatches_runes [OF m])
  moreover have "subMatches r s" if "\<forall>j. re_match ?t re 0 j \<longleftrightarrow> j = length ?t"
    using that find_runes_only by (simp add: subMatches_runes [OF m])
  ultimately show ?thesis using comp anch by blast
qed

definition ab_re :: re where
  "ab_re = RAlt (RCat RBegin (RLit 97)) (RCat (RLit 97) (RCat (RLit 98) REnd))"

lemma ab_compiles: "compileSub ''re:^a|ab$'' = Inr (Some ab_re)"
  by (simp add: compileSub_def strings_CutPrefix_def strings_HasPrefix_def strings_HasSuffix_def ab_re_def compile_evals)

lemmas find_evals = FindStringIndex_def find_runes_def runes_all_ascii is_ascii_def upt_rec rune_offset_def
  decode_all_ascii

definition regex_rule :: "bool Rule" where
  "regex_rule = role_rule\<lparr>Rule_Match := (Rule_Match role_rule)\<lparr>Sub := ''re:^a|ab$'', AllowBroad := True\<rparr>\<rparr>"

lemma regex_policy_valid:
  "Validate const_cel \<lparr>Rules = [regex_rule], validated = False\<rparr> =
     (\<lparr>Rules = [regex_rule\<lparr>matcher := Some ab_re\<rparr>], validated = True\<rparr>, None)"
  by (simp add: Validate_def validate_rule_def regex_rule_def role_rule_def app_grant_def Permission_validate_def
      ab_compiles validate_expr_def Let_def)

theorem regex_subject_matching_witness:
  "\<exists>re. regexp_Compile ''^a|ab$'' = Inr re \<and> re_match (runes ''a'') re 0 (length (runes ''a'')) \<and>
    subMatches (regex_rule\<lparr>matcher := Some ab_re\<rparr>) ''a''"
proof -
  let ?r = "regex_rule\<lparr>matcher := Some ab_re\<rparr>"
  have r: "?r \<in> set (Rules \<lparr>Rules = [?r], validated = True\<rparr>)" by simp
  have sub: "Sub (Rule_Match ?r) = ''re:'' @ ''^a|ab$''" by (simp add: regex_rule_def)
  have s: "subMatches ?r ''a''" by (simp add: subMatches_def ab_re_def find_evals)
  from regex_subject_matching [OF regex_policy_valid r sub, of "''a''"] s show ?thesis by blast
qed

text \<open>The converse fails: leftmost-first matching can settle for a shorter alternative, so a subject that
  the pattern could cover entirely is still refused. The pattern re:^a|ab\$ compiles, the subject ab is
  matched by its second alternative from end to end, yet the rule does not match ab.\<close>

theorem regex_alternation_short_match:
  "compileSub ''re:^a|ab$'' = Inr (Some ab_re) \<and>
   FindStringIndex (RCat (RLit 97) (RCat (RLit 98) REnd)) ''ab'' = Some (0, 2) \<and>
   FindStringIndex ab_re ''ab'' = Some (0, 1) \<and>
   \<not> subMatches (role_rule\<lparr>matcher := Some ab_re\<rparr>) ''ab''"
  by (simp add: ab_compiles subMatches_def) (simp add: ab_re_def find_evals)

subsection \<open>Evaluation\<close>

text \<open>C15: evaluation is first match wins and deny by default. A validated policy returns the decision of the
  first rule, in file order, that matches the identity, and an error exactly when none does; a policy
  that has not been validated never returns a decision.\<close>

theorem Evaluate_first_match:
  "(Evaluate lib now p i = Inr d \<longleftrightarrow>
      validated p \<and>
      (\<exists>k < length (Rules p). matches lib (now k) (Rules p ! k) i \<and>
         (\<forall>j < k. \<not> matches lib (now j) (Rules p ! j) i) \<and> d = decision_of (Rules p ! k) k)) \<and>
   (Evaluate lib now p i = Inl NoRuleMatched \<longleftrightarrow>
      validated p \<and> (\<forall>k < length (Rules p). \<not> matches lib (now k) (Rules p ! k) i)) \<and>
   (Evaluate lib now p i = Inl NotValidated \<longleftrightarrow> \<not> validated p)"
  using evaluate_rules_Inr [of lib now i 0 "Rules p"] evaluate_rules_Inl [of lib now i 0 "Rules p"]
  by (auto simp: Evaluate_def)

theorem Evaluate_first_match_witness:
  "\<exists>k < length (Rules example_validated). matches const_cel 0 (Rules example_validated ! k) role_identity \<and>
     (\<forall>j < k. \<not> matches const_cel 0 (Rules example_validated ! j) role_identity) \<and>
     decision_of role_rule 0 = decision_of (Rules example_validated ! k) k"
  using Evaluate_first_match [of const_cel "\<lambda>_. 0" example_validated role_identity "decision_of role_rule 0"]
    example_evaluates [of "\<lambda>_. 0"] by blast

text \<open>A policy that fails validation is never used: whatever was compiled before the error, evaluating it
  is refused for every identity.\<close>

theorem invalid_policy_denies:
  assumes "Validate lib p = (p', Some e)" and "\<not> validated p"
  shows "Evaluate lib now p' i = Inl NotValidated"
  using Validate_error_flag [OF assms(1)] assms(2) by (simp add: Evaluate_def)

definition broad_policy :: "bool Policy" where
  "broad_policy = \<lparr>Rules = [expr_rule, role_rule\<lparr>Rule_Match := (Rule_Match role_rule)\<lparr>Sub := ''*''\<rparr>\<rparr>], validated = False\<rparr>"

lemma star_compiles: "\<exists>re. compileSub ''*'' = Inr (Some re)"
  by (subst compileSub_glob)
     (simp_all add: glob_pattern_def strings_HasPrefix_def Compile_glob valid_all_ascii is_ascii_def)

lemma star_not_pinned: "\<not> subIsExact ''*'' \<and> \<not> accountPinnedInARN ''*''"
  by (simp add: subIsExact_def accountPinnedInARN_def strings_HasPrefix_def eval_nat_numeral)

lemma expr_rule_valid_first:
  "validate_rule const_cel None 0 expr_rule = (Some (), expr_rule\<lparr>celProgram := Some True\<rparr>, None)"
  by (simp add: validate_rule_def expr_rule_def app_grant_def Permission_validate_def compileSub_def
      validate_expr_def newCELEnv_def compileCELProgram_def const_cel_def Let_def)

lemma broad_policy_refused: "snd (Validate const_cel broad_policy) = Some (RuleIsBroad ''roles'')"
  using star_compiles star_not_pinned
  by (auto simp: Validate_def broad_policy_def expr_rule_valid_first)
     (auto simp: validate_rule_def role_rule_def app_grant_def Permission_validate_def validate_expr_def
      hasStrongPin_def Rule_identity_def Let_def)

theorem invalid_policy_denies_witness:
  "Evaluate const_cel (\<lambda>_. 0) (fst (Validate const_cel broad_policy)) role_identity = Inl NotValidated"
proof -
  have v: "Validate const_cel broad_policy = (fst (Validate const_cel broad_policy), Some (RuleIsBroad ''roles''))"
    using broad_policy_refused by (metis prod.collapse)
  have "\<not> validated broad_policy" by (simp add: broad_policy_def)
  then show ?thesis by (rule invalid_policy_denies [OF v])
qed

subsection \<open>Permissions\<close>

text \<open>An empty permission means unrestricted access to the NATS server.\<close>

definition explicit :: "Permission \<Rightarrow> bool" where
  "explicit q \<longleftrightarrow> Allow q \<noteq> [] \<or> Deny q \<noteq> []"

lemma jwtPermission_explicit: "Permission_validate q \<Longrightarrow> explicit (jwtPermission q)"
  by (auto simp: Permission_validate_def jwtPermission_def explicit_def split: option.splits)

text \<open>C14: a decision of a validated policy always names an account and always carries explicit publish and
  subscribe permissions, so no omission in the policy file is ever emitted as the empty permission,
  which NATS treats as unrestricted.\<close>

theorem decisions_are_explicit:
  assumes "Validate lib p = (p', None)" and "Evaluate lib now p' i = Inr d"
  shows "Decision_Account d \<noteq> [] \<and> explicit (Pub (Permissions d)) \<and> explicit (Lim_Sub (Permissions d))"
  using assms(2)
proof (rule Evaluate_InrE)
  fix k assume k: "k < length (Rules p')" and d: "d = decision_of (Rules p' ! k) k"
  from Validate_ok [OF assms(1)] k have "rule_ok lib (Rules p' ! k)" by (auto simp: policy_ok_def)
  then show ?thesis
    by (simp add: d decision_of_def permissionLimits_def rule_ok_def jwtPermission_explicit)
qed

theorem decisions_are_explicit_witness:
  "Decision_Account (decision_of role_rule 0) \<noteq> [] \<and> explicit (Pub (Permissions (decision_of role_rule 0))) \<and>
   explicit (Lim_Sub (Permissions (decision_of role_rule 0)))"
  by (rule decisions_are_explicit [OF example_policy_valid example_evaluates])

subsection \<open>CEL conditions\<close>

text \<open>C24: a rule with a CEL expression matches an identity only if its program was compiled from that
  expression, was acknowledged with allow\_broad and evaluated to the boolean true on the identity's own
  subject, issuer, audience, claims and expiry; an evaluation error or a non-boolean result denies.\<close>

theorem cel_rule_fails_closed:
  assumes "Validate lib p = (p', None)" and "r \<in> set (Rules p')" and "Expr (Rule_Match r) \<noteq> []"
    and "matches lib now r i"
  shows "AllowBroad (Rule_Match r) \<and>
    (\<exists>env prg. newCELEnv lib = Inr env \<and> compileCELProgram lib env (Expr (Rule_Match r)) = Inr prg \<and>
       cel_Eval lib prg \<lparr>act_sub = Id_Subject i, act_iss = Id_Issuer i, act_aud = Id_Audience i,
         act_claims = Id_claims i, act_exp = Id_Expiry i, act_now = now\<rparr> = Inr (CelBool True))"
proof -
  from Validate_ok [OF assms(1)] assms(2) have "rule_ok lib r" by (auto simp: policy_ok_def)
  then obtain env prg where "AllowBroad (Rule_Match r)" "newCELEnv lib = Inr env"
      "celProgram r = Some prg" "compileCELProgram lib env (Expr (Rule_Match r)) = Inr prg"
    using assms(3) by (auto simp: rule_ok_def expr_ok_def)
  moreover from this matches_parts [OF assms(4)] have "evalCEL lib now prg i" by simp
  ultimately show ?thesis
    by (auto simp: evalCEL_def Claims_def split: sum.splits cel_value.splits)
qed

theorem cel_rule_fails_closed_witness:
  "AllowBroad (Rule_Match expr_rule) \<and>
    (\<exists>env prg. newCELEnv const_cel = Inr env \<and> compileCELProgram const_cel env ''true'' = Inr prg \<and>
       cel_Eval const_cel prg \<lparr>act_sub = Id_Subject role_identity, act_iss = Id_Issuer role_identity,
         act_aud = Id_Audience role_identity, act_claims = Id_claims role_identity,
         act_exp = Id_Expiry role_identity, act_now = 5\<rparr> = Inr (CelBool True))"
proof -
  let ?r = "expr_rule\<lparr>celProgram := Some True\<rparr>"
  have r: "?r \<in> set (Rules example_validated)" by (simp add: example_validated_def)
  have e: "Expr (Rule_Match ?r) \<noteq> []" by (simp add: expr_rule_def)
  have m: "matches const_cel 5 ?r role_identity"
    by (simp add: matches_def expr_rule_def subMatches_def evalCEL_def const_cel_def)
  from cel_rule_fails_closed [OF example_policy_valid r e m] show ?thesis by (simp add: expr_rule_def)
qed

subsection \<open>Validation and loading\<close>

text \<open>Validation is idempotent: a policy that passed once passes again and is unchanged, so validating the
  policy file on its own and once more with the configuration is harmless.\<close>

theorem Validate_idempotent:
  assumes "Validate lib p = (p', None)"
  shows "Validate lib p' = (p', None)"
  using assms by (rule Validate_again)

theorem Validate_idempotent_witness: "Validate const_cel example_validated = (example_validated, None)"
  by (rule Validate_idempotent [OF example_policy_valid])

text \<open>Loading a policy file succeeds only if the file could be read, held exactly one strictly decoded YAML document
  and passed validation; the returned policy is then ready for evaluation with all its
  rules well formed.\<close>

theorem LoadPolicy_ready:
  assumes "LoadPolicy lib yaml fs path = Inr p"
  shows "validated p \<and> policy_ok lib p \<and>
    (\<exists>data q. fs path = Inr data \<and> yaml_first yaml data = YValue q \<and> yaml_second yaml data = YEOF \<and>
       Validate lib q = (p, None))"
proof -
  from assms obtain data q where fs: "fs path = Inr data" and dec: "DecodeStrict yaml data emptyPolicy = Inr q"
    and v: "Validate lib q = (p, None)"
    by (auto simp: LoadPolicy_def split: sum.splits prod.splits option.splits)
  have "q \<noteq> emptyPolicy" using v by (auto simp: Validate_def emptyPolicy_def)
  with dec have "yaml_first yaml data = YValue q" and "yaml_second yaml data = YEOF"
    by (auto simp: DecodeStrict_def split: yaml_result.splits)
  with fs v Validate_ok [OF v] show ?thesis by auto
qed

definition example_yaml :: "bool Policy yaml_lib" where
  "example_yaml = \<lparr>yaml_first = (\<lambda>_. YValue example_policy), yaml_second = (\<lambda>_. YEOF)\<rparr>"

theorem LoadPolicy_ready_witness:
  "validated example_validated \<and> policy_ok const_cel example_validated \<and>
    (\<exists>data q. (Inr ''doc'' :: string + string) = Inr data \<and> yaml_first example_yaml data = YValue q \<and>
       yaml_second example_yaml data = YEOF \<and> Validate const_cel q = (example_validated, None))"
proof -
  have "LoadPolicy const_cel example_yaml (\<lambda>_. Inr ''doc'') ''policy.yaml'' = Inr example_validated"
    by (simp add: LoadPolicy_def DecodeStrict_def example_yaml_def example_policy_valid)
  from LoadPolicy_ready [OF this] show ?thesis by simp
qed

end
