(* ===== verification/Metrics.thy ===== *)
theory Metrics
  imports GoStrings "HOL-Library.AList"
begin

text \<open>
  Package \<open>internal/metrics\<close>, file \<open>metrics.go\<close>. A counter vector is the map from a label to the
  count of its series; asking for a label creates the series at 0. The histogram is the list of its observations, the
  latest first. The registry is the list of the collectors registered on it, described by the options they are created
  with; gathering and exposing them is the Prometheus library. A \<open>*Metrics\<close> that may be nil is an \<open>option\<close>; the record methods return the updated value. The
  connection the \<open>nats_connected\<close> gauge reads is a value of type \<open>'n\<close>.
\<close>

subsection \<open>Model\<close>

definition namespace :: string where "namespace = ''nats_oidc_callout''"

definition ReasonNoToken :: string where "ReasonNoToken = ''no_token''"
definition ReasonVerificationFailed :: string where "ReasonVerificationFailed = ''verification_failed''"
definition ReasonPolicyNoMatch :: string where "ReasonPolicyNoMatch = ''policy_no_match''"
definition ReasonSigningFailed :: string where "ReasonSigningFailed = ''signing_failed''"

lemmas reason_defs = ReasonNoToken_def ReasonVerificationFailed_def ReasonPolicyNoMatch_def ReasonSigningFailed_def

type_synonym counterVec = "(string \<times> nat) list"

record metric_opts =
  Namespace :: string
  Metric_Name :: string
  Help :: string

datatype collector =
    CounterVec metric_opts "string list"   \<comment> \<open>labels\<close>
  | Histogram metric_opts                  \<comment> \<open>with the default buckets\<close>
  | GaugeFunc metric_opts
  | GoCollector
  | ProcessCollector

record 'n Metrics =
  registry :: "collector list"
  requests :: counterVec
  denials :: counterVec
  durations :: "duration list"
  natsConnected :: "('n \<Rightarrow> bool) option"

definition WithLabelValues :: "string \<Rightarrow> counterVec \<Rightarrow> counterVec" where
  "WithLabelValues l c = (if map_of c l = None then AList.update l 0 c else c)"

definition Inc :: "string \<Rightarrow> counterVec \<Rightarrow> counterVec" where
  "Inc l c = (let c' = WithLabelValues l c in AList.update l (Suc (the (map_of c' l))) c')"

definition own_collectors :: "collector list" where
  "own_collectors =
     [CounterVec \<lparr>Namespace = namespace, Metric_Name = ''authorization_requests_total'',
        Help = ''Total authorization requests handled, by result.''\<rparr> [''result''],
      CounterVec \<lparr>Namespace = namespace, Metric_Name = ''authorization_denials_total'',
        Help = ''Total denied authorization requests, by reason.''\<rparr> [''reason''],
      Histogram \<lparr>Namespace = namespace, Metric_Name = ''authorization_duration_seconds'',
        Help = ''Authorization request handling latency in seconds.''\<rparr>,
      GaugeFunc \<lparr>Namespace = namespace, Metric_Name = ''nats_connected'',
        Help = ''Whether the service's own NATS connection is currently connected (1) or not (0).''\<rparr>]"

definition metrics_New :: "'n Metrics" where
  "metrics_New = \<lparr>registry = own_collectors @ [GoCollector] @ [ProcessCollector],
     requests = WithLabelValues ''denied'' (WithLabelValues ''allowed'' []), denials = [],
     durations = [], natsConnected = None\<rparr>"

datatype prom_handler = HandlerFor "collector list"

definition metrics_Handler :: "'n Metrics \<Rightarrow> prom_handler" where
  "metrics_Handler m = HandlerFor (registry m)"

definition metrics_Registry :: "'n Metrics \<Rightarrow> collector list" where
  "metrics_Registry m = registry m"

definition RecordAllowed :: "duration \<Rightarrow> 'n Metrics option \<Rightarrow> 'n Metrics option" where
  "RecordAllowed d m =
     (case m of
        None \<Rightarrow> None
      | Some x \<Rightarrow> Some (x\<lparr>requests := Inc ''allowed'' (requests x), durations := d # durations x\<rparr>))"

definition RecordDenied :: "string \<Rightarrow> duration \<Rightarrow> 'n Metrics option \<Rightarrow> 'n Metrics option" where
  "RecordDenied reason d m =
     (case m of
        None \<Rightarrow> None
      | Some x \<Rightarrow> Some (x\<lparr>requests := Inc ''denied'' (requests x), denials := Inc reason (denials x),
                          durations := d # durations x\<rparr>))"

definition TrackNATSConnection :: "('n \<Rightarrow> bool) \<Rightarrow> 'n Metrics option \<Rightarrow> 'n Metrics option" where
  "TrackNATSConnection isConnected m =
     (case m of None \<Rightarrow> None | Some x \<Rightarrow> Some (x\<lparr>natsConnected := Some isConnected\<rparr>))"

definition nats_connected :: "'n Metrics \<Rightarrow> 'n \<Rightarrow> nat" where
  "nats_connected m nc = (case natsConnected m of None \<Rightarrow> 0 | Some fn \<Rightarrow> if fn nc then 1 else 0)"

subsection \<open>Counters\<close>

definition count_of :: "counterVec \<Rightarrow> string \<Rightarrow> nat" where
  "count_of c l = (case map_of c l of None \<Rightarrow> 0 | Some n \<Rightarrow> n)"

definition total :: "counterVec \<Rightarrow> nat" where
  "total c = sum_list (map snd c)"

lemma count_of_Inc [simp]: "count_of (Inc l c) k = (if k = l then Suc (count_of c k) else count_of c k)"
  by (simp add: Inc_def WithLabelValues_def count_of_def update_conv' Let_def split: option.split)

lemma Inc_distinct [simp]: "distinct (map fst c) \<Longrightarrow> distinct (map fst (Inc l c))"
  by (simp add: Inc_def WithLabelValues_def Let_def distinct_update)

lemma total_update:
  "distinct (map fst c) \<Longrightarrow> map_of c l = Some n \<Longrightarrow> total (AList.update l v c) + n = total c + v"
proof (induction c)
  case (Cons p c)
  then show ?case by (cases p) (auto simp: total_def)
qed simp

lemma total_update_new: "map_of c l = None \<Longrightarrow> total (AList.update l v c) = total c + v"
proof (induction c)
  case (Cons p c)
  then show ?case by (cases p) (auto simp: total_def split: if_splits)
qed (simp add: total_def)

lemma total_WithLabelValues [simp]: "total (WithLabelValues l c) = total c"
  by (simp add: WithLabelValues_def total_update_new)

lemma total_Inc:
  assumes "distinct (map fst c)"
  shows "total (Inc l c) = Suc (total c)"
proof -
  let ?c = "WithLabelValues l c"
  have "distinct (map fst ?c)" using assms by (simp add: WithLabelValues_def distinct_update)
  moreover obtain n where n: "map_of ?c l = Some n"
    by (cases "map_of c l") (auto simp: WithLabelValues_def update_conv')
  ultimately show ?thesis using total_update [of ?c l n "Suc n"] by (simp add: Inc_def Let_def)
qed

subsection \<open>The books balance\<close>

text \<open>
  Every recorded request is counted as allowed or denied and has one latency observation, and every denial has
  exactly one reason.
\<close>

definition metrics_ok :: "'n Metrics \<Rightarrow> bool" where
  "metrics_ok m \<longleftrightarrow>
     distinct (map fst (denials m)) \<and>
     count_of (requests m) ''allowed'' + count_of (requests m) ''denied'' = length (durations m) \<and>
     total (denials m) = count_of (requests m) ''denied''"

lemma metrics_ok_New [go_intros]: "metrics_ok metrics_New"
  by (simp add: metrics_ok_def metrics_New_def WithLabelValues_def count_of_def total_def)

lemma metrics_New_zero: "count_of (requests metrics_New) l = 0"
  by (simp add: metrics_New_def count_of_def WithLabelValues_def)

lemma metrics_ok_RecordAllowed [go_intros]: "pred_option metrics_ok m \<Longrightarrow> pred_option metrics_ok (RecordAllowed d m)"
  by (auto simp: metrics_ok_def RecordAllowed_def split: option.splits)

lemma metrics_ok_RecordDenied [go_intros]: "pred_option metrics_ok m \<Longrightarrow> pred_option metrics_ok (RecordDenied reason d m)"
  by (auto simp: metrics_ok_def RecordDenied_def total_Inc split: option.splits)

lemma metrics_ok_Track [go_intros]: "pred_option metrics_ok m \<Longrightarrow> pred_option metrics_ok (TrackNATSConnection f m)"
  by (auto simp: metrics_ok_def TrackNATSConnection_def split: option.splits)

subsection \<open>The registry\<close>

definition collector_name :: "collector \<Rightarrow> string" where
  "collector_name c =
     (case c of
        CounterVec x _ \<Rightarrow> Namespace x @ ''_'' @ Metric_Name x
      | Histogram x \<Rightarrow> Namespace x @ ''_'' @ Metric_Name x
      | GaugeFunc x \<Rightarrow> Namespace x @ ''_'' @ Metric_Name x
      | GoCollector \<Rightarrow> ''go''
      | ProcessCollector \<Rightarrow> ''process'')"

text \<open>No two collectors share a name, which is what registration requires, and recording never changes what is
  registered and served.\<close>

lemma registered_names_distinct: "distinct (map collector_name (registry metrics_New))"
  by (simp add: metrics_New_def own_collectors_def collector_name_def namespace_def)

lemma registry_kept:
  "map_option metrics_Handler (RecordAllowed d m) = map_option metrics_Handler m"
  "map_option metrics_Handler (RecordDenied reason d m) = map_option metrics_Handler m"
  "map_option metrics_Handler (TrackNATSConnection f m) = map_option metrics_Handler m"
  by (auto simp: RecordAllowed_def RecordDenied_def TrackNATSConnection_def metrics_Handler_def split: option.splits)

end
