(* ===== verification/Callout.thy ===== *)
theory Callout
  imports VerifierProps AuthzProps Metrics
begin

text \<open>
  Package \<open>internal/callout\<close>: the authorizer. \<open>Authorize\<close> is the whole request handler: verification, policy,
  user JWT, metrics and log lines. The readings of the clock during one request are the fields of \<open>clock\<close>, in
  the order in which the code takes them. nats-io/jwt is the argument \<open>jwt\<close>: \<open>NewUserClaims\<close> may return nil, and
  using the result then panics.
\<close>

subsection \<open>Model\<close>

datatype denied = errDenied

definition DefaultVerifyTimeout :: duration where
  "DefaultVerifyTimeout = 1500 * millisecond"

record ('v, 'prg) ruleset =
  rs_verifier :: "'v Verifier"
  rs_policy :: "'prg Policy"

record ('v, 'prg, 'kp, 'n) Authorizer =
  state :: "('v, 'prg) ruleset"
  signKey :: 'kp
  metrics :: "'n Metrics option"
  verifyTimeout :: duration

record AuthorizationRequest =
  UserNkey :: string
  Token :: string

record 'x UserClaims =
  UC_Name :: string
  UC_Audience :: string
  UC_Permissions :: UserPermissionLimits
  UC_Expires :: int
  UC_rest :: 'x

record ('kp, 'x) jwt_lib =
  NewUserClaims :: "string \<Rightarrow> 'x UserClaims option"
  Encode :: "'x UserClaims \<Rightarrow> 'kp \<Rightarrow> string + string"

record clock =
  t_start :: time
  t_deadline :: time
  t_eval :: "nat \<Rightarrow> time"
  t_cap :: time
  t_end :: time

datatype log_line =
    LogNoToken string
  | LogVerificationFailed string verify_error
  | LogNoPolicyMatch string string string evaluate_error
  | LogSigningFailed string string
  | LogAuthorized string string string string string

text \<open>What a call of \<open>Authorize\<close> leaves behind; \<open>None\<close> is a run-time panic.\<close>

record ('n, 'w) outcome =
  reply :: "(denied + string) option"
  out_metrics :: "'n Metrics option"
  out_world :: 'w
  out_log :: "log_line list"

definition callout_New ::
    "'v Verifier \<Rightarrow> 'prg Policy \<Rightarrow> 'kp \<Rightarrow> 'n Metrics option \<Rightarrow> duration \<Rightarrow> ('v, 'prg, 'kp, 'n) Authorizer" where
  "callout_New v policy key m timeout =
     \<lparr>state = \<lparr>rs_verifier = v, rs_policy = policy\<rparr>, signKey = key, metrics = m,
      verifyTimeout = (if timeout \<le> 0 then DefaultVerifyTimeout else timeout)\<rparr>"

definition Reload ::
    "'v Verifier \<Rightarrow> 'prg Policy \<Rightarrow> ('v, 'prg, 'kp, 'n) Authorizer \<Rightarrow> ('v, 'prg, 'kp, 'n) Authorizer" where
  "Reload v policy a = a\<lparr>state := \<lparr>rs_verifier = v, rs_policy = policy\<rparr>\<rparr>"

definition cappedExpiry :: "time \<Rightarrow> time \<Rightarrow> duration \<Rightarrow> time" where
  "cappedExpiry now tokenExpiry maxExpiry =
     (if maxExpiry > 0
      then (let cap = now + maxExpiry in if cap < tokenExpiry then cap else tokenExpiry)
      else tokenExpiry)"

text \<open>The claims of the user JWT; the remaining fields are those of \<open>NewUserClaims\<close>.\<close>

definition userClaims :: "'x UserClaims \<Rightarrow> Identity \<Rightarrow> Decision \<Rightarrow> time \<Rightarrow> 'x UserClaims" where
  "userClaims uc i d now =
     uc\<lparr>UC_Name := Id_Subject i, UC_Audience := Decision_Account d, UC_Permissions := Permissions d,
        UC_Expires := Time_Unix (cappedExpiry now (Id_Expiry i) (Decision_MaxExpiry d))\<rparr>"

definition Authorize ::
    "('kp, 'x) jwt_lib \<Rightarrow> ('prov, 'key, 'v, 'c, 'w) oidc_lib \<Rightarrow> ('env, 'ast, 'prg) cel_lib \<Rightarrow> (json \<Rightarrow> json) \<Rightarrow>
     clock \<Rightarrow> ('v, 'prg, 'kp, 'n) Authorizer \<Rightarrow> AuthorizationRequest \<Rightarrow> 'w \<Rightarrow> ('n, 'w) outcome" where
  "Authorize jwt oidc cel ord clk a req w =
     (let ctx = t_deadline clk + verifyTimeout a;
          st = state a;
          m = metrics a;
          d = t_end clk - t_start clk;
          token = Token req
      in if token = []
         then \<lparr>reply = Some (Inl errDenied), out_metrics = RecordDenied ReasonNoToken d m, out_world = w,
               out_log = [LogNoToken (UserNkey req)]\<rparr>
         else case Verify oidc ord (rs_verifier st) ctx token w of
           (Inl e, w') \<Rightarrow>
             \<lparr>reply = Some (Inl errDenied), out_metrics = RecordDenied ReasonVerificationFailed d m, out_world = w',
              out_log = [LogVerificationFailed (UserNkey req) e]\<rparr>
         | (Inr i, w') \<Rightarrow>
             (case Evaluate cel (t_eval clk) (rs_policy st) i of
                Inl e \<Rightarrow>
                  \<lparr>reply = Some (Inl errDenied), out_metrics = RecordDenied ReasonPolicyNoMatch d m, out_world = w',
                   out_log = [LogNoPolicyMatch (UserNkey req) (Id_Issuer i) (Id_Subject i) e]\<rparr>
              | Inr decision \<Rightarrow>
                  (case NewUserClaims jwt (UserNkey req) of
                     None \<Rightarrow> \<lparr>reply = None, out_metrics = m, out_world = w', out_log = []\<rparr>
                   | Some uc \<Rightarrow>
                       (case Encode jwt (userClaims uc i decision (t_cap clk)) (signKey a) of
                          Inl e \<Rightarrow>
                            \<lparr>reply = Some (Inl errDenied), out_metrics = m, out_world = w',
                             out_log = [LogSigningFailed (UserNkey req) e]\<rparr>
                        | Inr userJWT \<Rightarrow>
                            \<lparr>reply = Some (Inr userJWT), out_metrics = RecordAllowed d m, out_world = w',
                             out_log = [LogAuthorized (UserNkey req) (Id_Issuer i) (Id_Subject i)
                                          (Decision_Account decision) (RuleName decision)]\<rparr>))))"

subsection \<open>The expiry of the user JWT\<close>

lemma cappedExpiry_le_token: "cappedExpiry now t m \<le> t"
  by (simp add: cappedExpiry_def Let_def)

lemma cappedExpiry_le_cap: "0 < m \<Longrightarrow> cappedExpiry now t m \<le> now + m"
  by (simp add: cappedExpiry_def Let_def)

lemma cappedExpiry_min: "cappedExpiry now t m = (if 0 < m then min (now + m) t else t)"
  by (auto simp: cappedExpiry_def Let_def)

subsection \<open>The contract with the verifier and the policy\<close>

text \<open>
  What the handler relies on: a verification that yields only trusted identities, and an evaluation that yields only
  proper decisions of that identity. \<open>grant_of\<close> is the abstract authorization function: a token is worth an identity
  and a decision, or nothing.
\<close>

locale authorization_pipeline =
  fixes verify :: "time \<Rightarrow> string \<Rightarrow> 'w \<Rightarrow> ('e + Identity) \<times> 'w"
    and evaluate :: "(nat \<Rightarrow> time) \<Rightarrow> Identity \<Rightarrow> 'f + Decision"
    and trusted :: "Identity \<Rightarrow> bool"
    and proper :: "Identity \<Rightarrow> Decision \<Rightarrow> bool"
  assumes verify_trusted: "verify ctx token w = (Inr i, w') \<Longrightarrow> trusted i"
    and verify_nonempty: "verify ctx [] w = (r, w') \<Longrightarrow> isl r \<and> w' = w"
    and evaluate_proper: "evaluate now i = Inr d \<Longrightarrow> proper i d"
begin

definition grant_of :: "time \<Rightarrow> (nat \<Rightarrow> time) \<Rightarrow> string \<Rightarrow> 'w \<Rightarrow> (Identity \<times> Decision) option" where
  "grant_of ctx now token w =
     (case verify ctx token w of
        (Inl _, _) \<Rightarrow> None
      | (Inr i, _) \<Rightarrow> (case evaluate now i of Inl _ \<Rightarrow> None | Inr d \<Rightarrow> Some (i, d)))"

lemma grant_of_sound: "grant_of ctx now token w = Some (i, d) \<Longrightarrow> trusted i \<and> proper i d \<and> token \<noteq> []"
  using verify_nonempty [of ctx w "fst (verify ctx [] w)" "snd (verify ctx [] w)"]
  by (auto simp: grant_of_def split: prod.splits sum.splits dest: verify_trusted evaluate_proper)

lemma grant_of_SomeE:
  assumes "grant_of ctx now token w = Some (i, d)"
  obtains w' where "verify ctx token w = (Inr i, w')" and "evaluate now i = Inr d"
  using assms by (auto simp: grant_of_def split: prod.splits sum.splits)

end

end
