(* ===== verification/CalloutProps.thy ===== *)
theory CalloutProps
  imports Callout
begin

text \<open>
  The guarantees of the authorizer: it refines the abstract authorization function, issues only what a validated rule
  grants to a verified identity, bounds the life time of what it issues, accounts for its requests, and uses one
  consistent ruleset per request however reloads interleave.
\<close>

subsection \<open>The contract holds for the model\<close>

definition trusted_identity :: "'v Verifier \<Rightarrow> Identity \<Rightarrow> bool" where
  "trusted_identity v i \<longleftrightarrow>
     (\<exists>aud \<in> set (Id_Audience i). aud \<in> audiences v) \<and> (\<forall>k \<in> set reserved. Claim i k = None)"

definition proper_decision :: "Identity \<Rightarrow> Decision \<Rightarrow> bool" where
  "proper_decision i d \<longleftrightarrow>
     Decision_Account d \<noteq> [] \<and> explicit (Pub (Permissions d)) \<and> explicit (Lim_Sub (Permissions d)) \<and>
     (\<exists>m. AllowBroad m \<or> pinned m i)"

text \<open>A policy as it is used after loading: validated from its unvalidated form.\<close>

definition ready :: "('env, 'ast, 'prg) cel_lib \<Rightarrow> 'prg Policy \<Rightarrow> 'prg Policy" where
  "ready cel p = fst (Validate cel (p\<lparr>validated := False\<rparr>))"

lemma Validate_ignores_flag:
  "Validate cel (p\<lparr>validated := b\<rparr>) =
     (case Validate cel p of (q, None) \<Rightarrow> (q, None) | (q, Some e) \<Rightarrow> (q\<lparr>validated := b\<rparr>, Some e))"
  by (auto simp: Validate_def split: prod.splits option.splits)

lemma ready_valid: "Validate cel p = (q, None) \<Longrightarrow> ready cel p = q"
  by (simp add: ready_def Validate_ignores_flag)

lemma ready_decides:
  assumes "Evaluate cel now (ready cel p) i = Inr d"
  obtains k where "k < length (Rules (ready cel p))" "d = decision_of (Rules (ready cel p) ! k) k"
    "matches cel (now k) (Rules (ready cel p) ! k) i"
    "AllowBroad (Rule_Match (Rules (ready cel p) ! k)) \<or> pinned (Rule_Match (Rules (ready cel p) ! k)) i"
    "Account (Rule_Grant (Rules (ready cel p) ! k)) \<noteq> []"
    "explicit (Pub (Permissions d)) \<and> explicit (Lim_Sub (Permissions d))"
proof -
  have "validated (ready cel p)" using assms by (auto simp: Evaluate_def split: if_splits)
  moreover have "Validate cel (p\<lparr>validated := False\<rparr>) =
      (ready cel p, snd (Validate cel (p\<lparr>validated := False\<rparr>)))" by (simp add: ready_def)
  ultimately have valid: "Validate cel (p\<lparr>validated := False\<rparr>) = (ready cel p, None)"
    using Validate_error_flag [of cel "p\<lparr>validated := False\<rparr>" "ready cel p"]
    by (cases "snd (Validate cel (p\<lparr>validated := False\<rparr>))") auto
  show thesis
    using assms
  proof (rule Evaluate_InrE)
    fix k assume k: "k < length (Rules (ready cel p))" and m: "matches cel (now k) (Rules (ready cel p) ! k) i"
      and d: "d = decision_of (Rules (ready cel p) ! k) k"
    from Validate_ok [OF valid] k have ok: "rule_ok cel (Rules (ready cel p) ! k)" by (auto simp: policy_ok_def)
    with strong_pin_pins [OF ok _ m] that [OF k d m] show thesis
      by (auto simp: rule_ok_def d decision_of_def permissionLimits_def jwtPermission_explicit)
  qed
qed

lemma Verify_trusted: "Verify oidc ord v ctx raw w = (Inr i, w') \<Longrightarrow> trusted_identity v i"
  unfolding Verify_Inr trusted_identity_def identity_of_def
  by (auto elim!: Parse_InrE simp: Claim_def claims_not_reserved)

interpretation pipeline: authorization_pipeline
  "Verify oidc ord v" "\<lambda>now. Evaluate cel now (ready cel p)" "trusted_identity v" proper_decision
  for oidc ord v cel p
proof unfold_locales
  show "Verify oidc ord v ctx token w = (Inr i, w') \<Longrightarrow> trusted_identity v i" for ctx token w i w'
    by (rule Verify_trusted)
  show "Verify oidc ord v ctx [] w = (r, w') \<Longrightarrow> isl r \<and> w' = w" for ctx w r w'
    by (auto simp: Verify_def)
  show "Evaluate cel now (ready cel p) i = Inr d \<Longrightarrow> proper_decision i d" for now i d
    by (erule ready_decides) (auto simp: proper_decision_def decision_of_def)
qed

text \<open>The abstract authorization function on the model.\<close>

definition authorization ::
    "('prov, 'key, 'v, 'c, 'w) oidc_lib \<Rightarrow> ('env, 'ast, 'prg) cel_lib \<Rightarrow> (json \<Rightarrow> json) \<Rightarrow> 'v Verifier \<Rightarrow> 'prg Policy \<Rightarrow>
     time \<Rightarrow> (nat \<Rightarrow> time) \<Rightarrow> string \<Rightarrow> 'w \<Rightarrow> (Identity \<times> Decision) option" where
  "authorization oidc cel ord v p ctx now token w =
     (case fst (Verify oidc ord v ctx token w) of
        Inl _ \<Rightarrow> None
      | Inr i \<Rightarrow> (case Evaluate cel now p i of Inl _ \<Rightarrow> None | Inr d \<Rightarrow> Some (i, d)))"

lemma authorization_pipeline:
  "authorization oidc cel ord v (ready cel p) =
     authorization_pipeline.grant_of (Verify oidc ord v) (\<lambda>now. Evaluate cel now (ready cel p))"
  by (intro ext) (simp add: authorization_def pipeline.grant_of_def split: prod.splits)


subsection \<open>Refinement\<close>


lemma Authorize_issued:
  assumes "reply (Authorize jwt oidc cel ord clk a req w) = Some (Inr userJWT)"
  obtains i d uc where
    "authorization oidc cel ord (rs_verifier (state a)) (rs_policy (state a))
       (t_deadline clk + verifyTimeout a) (t_eval clk) (Token req) w = Some (i, d)"
    "fst (Verify oidc ord (rs_verifier (state a)) (t_deadline clk + verifyTimeout a) (Token req) w) = Inr i"
    "Evaluate cel (t_eval clk) (rs_policy (state a)) i = Inr d"
    "Encode jwt (userClaims uc i d (t_cap clk)) (signKey a) = Inr userJWT"
  using assms
  by (auto simp: Authorize_def authorization_def Let_def split: sum.splits prod.splits option.splits if_splits)

subsection \<open>Example authorizer\<close>

text \<open>A JWT library whose encoding succeeds when the signing key is set, and refuses the empty user key.\<close>

definition example_jwt :: "(bool, string) jwt_lib" where
  "example_jwt = \<lparr>NewUserClaims = (\<lambda>s. if s = [] then None else
       Some \<lparr>UC_Name = [], UC_Audience = [], UC_Permissions = permissionLimits app_grant, UC_Expires = 0, UC_rest = s\<rparr>),
     Encode = (\<lambda>uc key. if key then Inr (''jwt '' @ UC_rest uc) else Inl ''no key'')\<rparr>"

definition example_authorizer :: "bool \<Rightarrow> (string, bool, bool, unit) Authorizer" where
  "example_authorizer key = callout_New example_verifier example_validated key (Some metrics_New) 0"

definition example_clock :: clock where
  "example_clock = \<lparr>t_start = 100 * second, t_deadline = 100 * second, t_eval = (\<lambda>_. 101 * second),
     t_cap = 101 * second, t_end = 102 * second\<rparr>"

definition example_request :: AuthorizationRequest where
  "example_request = \<lparr>UserNkey = ''UA'', Token = example_token\<rparr>"

lemma verified_evaluates:
  "Evaluate const_cel now example_validated verified_identity = Inr (decision_of role_rule 0)"
proof -
  have "matches const_cel t (role_rule\<lparr>matcher := Some role_re\<rparr>) verified_identity \<longleftrightarrow>
      matches const_cel t (role_rule\<lparr>matcher := Some role_re\<rparr>) role_identity" for t
    by (simp add: matches_def role_rule_def verified_identity_def role_identity_def identity_New_def)
  then show ?thesis
    by (simp add: Evaluate_def example_validated_def role_rule_matches)
       (simp add: decision_of_def Rule_identity_def role_rule_def)
qed

lemma example_token_nonempty: "example_token \<noteq> []"
  by (simp add: example_token_def)

lemma example_reply:
  "reply (Authorize example_jwt example_oidc const_cel (\<lambda>v. v) example_clock (example_authorizer True) example_request w) =
     Some (Inr ''jwt UA'')"
  by (simp add: Authorize_def example_request_def example_authorizer_def callout_New_def example_Verify
      verified_evaluates example_jwt_def example_token_nonempty userClaims_def Let_def)

subsection \<open>What is issued\<close>

lemma Authorize_issues_grants:
  assumes "Validate cel p = (rs_policy (state a), None)"
    and "reply (Authorize jwt oidc cel ord clk a req w) = Some (Inr userJWT)"
  shows "\<exists>i uc k. fst (Verify oidc ord (rs_verifier (state a)) (t_deadline clk + verifyTimeout a) (Token req) w) = Inr i \<and>
    trusted_identity (rs_verifier (state a)) i \<and>
    k < length (Rules (rs_policy (state a))) \<and> matches cel (t_eval clk k) (Rules (rs_policy (state a)) ! k) i \<and>
    (AllowBroad (Rule_Match (Rules (rs_policy (state a)) ! k)) \<or> pinned (Rule_Match (Rules (rs_policy (state a)) ! k)) i) \<and>
    Encode jwt uc (signKey a) = Inr userJWT \<and> UC_Name uc = Id_Subject i \<and>
    UC_Audience uc = Account (Rule_Grant (Rules (rs_policy (state a)) ! k)) \<and> UC_Audience uc \<noteq> [] \<and>
    UC_Permissions uc = permissionLimits (Rule_Grant (Rules (rs_policy (state a)) ! k)) \<and>
    explicit (Pub (UC_Permissions uc)) \<and> explicit (Lim_Sub (UC_Permissions uc))"
proof -
  let ?pol = "rs_policy (state a)" and ?v = "rs_verifier (state a)"
  have pol: "ready cel p = ?pol" by (rule ready_valid [OF assms(1)])
  from assms(2) obtain i d uc where au: "authorization oidc cel ord ?v ?pol
        (t_deadline clk + verifyTimeout a) (t_eval clk) (Token req) w = Some (i, d)"
    and v: "fst (Verify oidc ord ?v (t_deadline clk + verifyTimeout a) (Token req) w) = Inr i"
    and ev: "Evaluate cel (t_eval clk) ?pol i = Inr d"
    and enc: "Encode jwt (userClaims uc i d (t_cap clk)) (signKey a) = Inr userJWT" by (rule Authorize_issued)
  from au have "trusted_identity ?v i \<and> proper_decision i d \<and> Token req \<noteq> []"
    unfolding pol [symmetric] authorization_pipeline by (rule pipeline.grant_of_sound)
  moreover from ev [folded pol] obtain k where "k < length (Rules ?pol)" "d = decision_of (Rules ?pol ! k) k"
      "matches cel (t_eval clk k) (Rules ?pol ! k) i"
      "AllowBroad (Rule_Match (Rules ?pol ! k)) \<or> pinned (Rule_Match (Rules ?pol ! k)) i"
      "Account (Rule_Grant (Rules ?pol ! k)) \<noteq> []"
      "explicit (Pub (Permissions d)) \<and> explicit (Lim_Sub (Permissions d))"
    by (rule ready_decides) (simp add: pol)
  ultimately show ?thesis
    using v enc by (intro exI [of _ i] exI [of _ "userClaims uc i d (t_cap clk)"] exI [of _ k])
      (simp add: userClaims_def decision_of_def)
qed

text \<open>C2: end to end, with a validated policy, a user JWT is issued only to the holder of a verified token: the
  identity has an audience of the allowlist and no reserved name among its claims, and a rule of the policy that is
  pinned to this identity, or is marked allow\_broad, matched it. The signed JWT names the token's subject, is bound to
  the account of that rule and carries its permissions, which are explicit in both directions.\<close>

theorem authorization_sound:
  assumes "Validate cel p = (rs_policy (state a), None)"
    and "reply (Authorize jwt oidc cel ord clk a req w) = Some (Inr userJWT)"
  shows "\<exists>i uc k. fst (Verify oidc ord (rs_verifier (state a)) (t_deadline clk + verifyTimeout a) (Token req) w) = Inr i \<and>
    trusted_identity (rs_verifier (state a)) i \<and>
    k < length (Rules (rs_policy (state a))) \<and> matches cel (t_eval clk k) (Rules (rs_policy (state a)) ! k) i \<and>
    (AllowBroad (Rule_Match (Rules (rs_policy (state a)) ! k)) \<or> pinned (Rule_Match (Rules (rs_policy (state a)) ! k)) i) \<and>
    Encode jwt uc (signKey a) = Inr userJWT \<and> UC_Name uc = Id_Subject i \<and>
    UC_Audience uc = Account (Rule_Grant (Rules (rs_policy (state a)) ! k)) \<and> UC_Audience uc \<noteq> [] \<and>
    UC_Permissions uc = permissionLimits (Rule_Grant (Rules (rs_policy (state a)) ! k)) \<and>
    explicit (Pub (UC_Permissions uc)) \<and> explicit (Lim_Sub (UC_Permissions uc))"
  using assms by (rule Authorize_issues_grants)

theorem authorization_sound_witness:
  "\<exists>i uc k. fst (Verify example_oidc (\<lambda>v. v) example_verifier (100 * second + DefaultVerifyTimeout) example_token 0) = Inr i \<and>
    trusted_identity example_verifier i \<and> k < length (Rules example_validated) \<and>
    Encode example_jwt uc True = Inr ''jwt UA'' \<and> UC_Name uc = Id_Subject i"
proof -
  have "Validate const_cel example_policy = (rs_policy (state (example_authorizer True)), None)"
    by (simp add: example_policy_valid example_authorizer_def callout_New_def)
  from authorization_sound [OF this example_reply [of 0]]
  show ?thesis
    by (auto simp: example_authorizer_def callout_New_def example_request_def example_clock_def)
qed

text \<open>C5: an issued user JWT never outlives the verified token it was issued for, and if the rule sets a positive
  max\_expiry it never outlives the moment of issue by more than that; its expiry is exactly the earlier of the two,
  rounded down to the second.\<close>

theorem jwt_expiry_capped:
  assumes "reply (Authorize jwt oidc cel ord clk a req w) = Some (Inr userJWT)"
  shows "\<exists>i d uc. fst (Verify oidc ord (rs_verifier (state a)) (t_deadline clk + verifyTimeout a) (Token req) w) = Inr i \<and>
    Evaluate cel (t_eval clk) (rs_policy (state a)) i = Inr d \<and> Encode jwt uc (signKey a) = Inr userJWT \<and>
    UC_Expires uc * second \<le> Id_Expiry i \<and>
    (0 < Decision_MaxExpiry d \<longrightarrow> UC_Expires uc * second \<le> t_cap clk + Decision_MaxExpiry d) \<and>
    (let exp = (if 0 < Decision_MaxExpiry d then min (t_cap clk + Decision_MaxExpiry d) (Id_Expiry i) else Id_Expiry i)
     in UC_Expires uc * second \<le> exp \<and> exp < (UC_Expires uc + 1) * second)"
proof -
  from assms obtain i d uc where v: "fst (Verify oidc ord (rs_verifier (state a))
        (t_deadline clk + verifyTimeout a) (Token req) w) = Inr i"
    and ev: "Evaluate cel (t_eval clk) (rs_policy (state a)) i = Inr d"
    and enc: "Encode jwt (userClaims uc i d (t_cap clk)) (signKey a) = Inr userJWT" by (rule Authorize_issued)
  let ?exp = "cappedExpiry (t_cap clk) (Id_Expiry i) (Decision_MaxExpiry d)"
  have "UC_Expires (userClaims uc i d (t_cap clk)) = Time_Unix ?exp" by (simp add: userClaims_def)
  with Time_Unix_le [of ?exp] Time_Unix_less [of ?exp] v ev enc show ?thesis
    by (intro exI [of _ i] exI [of _ d] exI [of _ "userClaims uc i d (t_cap clk)"])
       (auto simp: cappedExpiry_min second_def Let_def)
qed

theorem jwt_expiry_capped_witness:
  "\<exists>i uc. fst (Verify example_oidc (\<lambda>v. v) example_verifier (100 * second + DefaultVerifyTimeout) example_token 0) = Inr i \<and>
    Encode example_jwt uc True = Inr ''jwt UA'' \<and> UC_Expires uc * second \<le> Id_Expiry i"
  using jwt_expiry_capped [OF example_reply [of 0]]
  by (auto simp: example_authorizer_def callout_New_def example_request_def example_clock_def)

definition negative_cap_policy :: "bool Policy" where
  "negative_cap_policy = \<lparr>Rules = [role_rule\<lparr>Rule_Grant := app_grant\<lparr>MaxExpiry := - minute\<rparr>\<rparr>], validated = False\<rparr>"

text \<open>A negative max\_expiry is accepted by validation and behaves like no cap at all: the user JWT then lives as
  long as the token.\<close>

theorem negative_max_expiry_is_no_cap:
  "snd (Validate const_cel negative_cap_policy) = None \<and>
   cappedExpiry t (t + 3600 * second) (MaxExpiry (Rule_Grant (hd (Rules negative_cap_policy)))) = t + 3600 * second"
proof
  show "snd (Validate const_cel negative_cap_policy) = None"
    by (simp add: Validate_def negative_cap_policy_def validate_rule_def role_rule_def app_grant_def
        Permission_validate_def role_sub_compiles validate_expr_def hasStrongPin_def role_sub_pins Let_def)
  show "cappedExpiry t (t + 3600 * second) (MaxExpiry (Rule_Grant (hd (Rules negative_cap_policy)))) = t + 3600 * second"
    by (simp add: negative_cap_policy_def cappedExpiry_def minute_def)
qed

subsection \<open>Accounting\<close>

text \<open>Requests served one after the other: the metrics and the world are threaded through.\<close>

fun serve ::
    "('kp, 'x) jwt_lib \<Rightarrow> ('prov, 'key, 'v, 'c, 'w) oidc_lib \<Rightarrow> ('env, 'ast, 'prg) cel_lib \<Rightarrow> (json \<Rightarrow> json) \<Rightarrow>
     ('v, 'prg, 'kp, 'n) Authorizer \<Rightarrow> (clock \<times> AuthorizationRequest) list \<Rightarrow> 'w \<Rightarrow> ('n, 'w) outcome list" where
  "serve jwt oidc cel ord a [] w = []"
| "serve jwt oidc cel ord a ((clk, req) # rest) w =
     (let out = Authorize jwt oidc cel ord clk a req w
      in out # serve jwt oidc cel ord (a\<lparr>metrics := out_metrics out\<rparr>) rest (out_world out))"

definition served :: "('n, 'w) outcome list \<Rightarrow> (('n, 'w) outcome \<Rightarrow> bool) \<Rightarrow> nat" where
  "served outs P = length (filter P outs)"

definition issued :: "('n, 'w) outcome \<Rightarrow> bool" where
  "issued out \<longleftrightarrow> (\<exists>j. reply out = Some (Inr j))"

definition refused :: "('n, 'w) outcome \<Rightarrow> bool" where
  "refused out \<longleftrightarrow> reply out = Some (Inl errDenied)"

definition unsigned :: "('n, 'w) outcome \<Rightarrow> bool" where
  "unsigned out \<longleftrightarrow> (\<exists>nkey e. out_log out = [LogSigningFailed nkey e])"

lemma Authorize_metrics:
  assumes "metrics a = Some m" and "out = Authorize jwt oidc cel ord clk a req w"
  obtains m' where "out_metrics out = Some m'" "metrics_ok m \<Longrightarrow> metrics_ok m'"
    "count_of (requests m') ''allowed'' = count_of (requests m) ''allowed'' + (if issued out then 1 else 0)"
    "count_of (requests m') ''denied'' + (if refused out \<and> unsigned out then 1 else 0) =
       count_of (requests m) ''denied'' + (if refused out then 1 else 0)"
  using metrics_ok_RecordAllowed [of "Some m"] metrics_ok_RecordDenied [of "Some m"]
  by (atomize_elim, unfold assms(2))
     (auto simp: assms(1) Authorize_def Let_def RecordAllowed_def RecordDenied_def issued_def refused_def unsigned_def
       split: sum.splits prod.splits option.splits)

lemma serve_metrics:
  "metrics a = Some m \<Longrightarrow> metrics_ok m \<Longrightarrow> outs = serve jwt oidc cel ord a rs w \<Longrightarrow> outs \<noteq> [] \<Longrightarrow>
     \<exists>m'. out_metrics (last outs) = Some m' \<and> metrics_ok m' \<and>
       count_of (requests m') ''allowed'' = count_of (requests m) ''allowed'' + served outs issued \<and>
       count_of (requests m') ''denied'' + served outs (\<lambda>out. refused out \<and> unsigned out) =
         count_of (requests m) ''denied'' + served outs refused"
proof (induction jwt oidc cel ord a rs w arbitrary: m outs rule: serve.induct)
  case (2 jwt oidc cel ord a clk req rest w)
  let ?out = "Authorize jwt oidc cel ord clk a req w"
  let ?rest = "serve jwt oidc cel ord (a\<lparr>metrics := out_metrics ?out\<rparr>) rest (out_world ?out)"
  obtain m1 where m1: "out_metrics ?out = Some m1" "metrics_ok m1"
      "count_of (requests m1) ''allowed'' = count_of (requests m) ''allowed'' + (if issued ?out then 1 else 0)"
      "count_of (requests m1) ''denied'' + (if refused ?out \<and> unsigned ?out then 1 else 0) =
         count_of (requests m) ''denied'' + (if refused ?out then 1 else 0)"
    by (rule Authorize_metrics [OF "2.prems"(1) refl, of jwt oidc cel ord clk req w]) (use "2.prems"(2) in blast)
  have outs: "outs = ?out # ?rest" using "2.prems"(3) by (simp add: Let_def)
  show ?case
  proof (cases "?rest = []")
    case True
    with outs m1 show ?thesis by (auto simp: served_def)
  next
    case False
    have "metrics (a\<lparr>metrics := out_metrics ?out\<rparr>) = Some m1" using m1(1) by simp
    from "2.IH" [OF refl this m1(2) refl False] outs m1(3,4) False show ?thesis
      by (auto simp: served_def)
  qed
qed simp

text \<open>C21: the metrics account for the requests: after any non-empty sequence of requests served from a fresh collector, the
  allowed counter equals the number of user JWTs issued, every recorded request has one latency observation and every
  recorded denial exactly one reason, and the denied counter equals the number of refusals except those whose
  JWT could not be signed, which are not counted.\<close>

theorem metrics_account_for_requests:
  assumes "metrics a = Some metrics_New" and "outs = serve jwt oidc cel ord a rs w" and "outs \<noteq> []"
  shows "\<exists>m. out_metrics (last outs) = Some m \<and> metrics_ok m \<and>
    count_of (requests m) ''allowed'' = served outs issued \<and>
    count_of (requests m) ''denied'' + served outs (\<lambda>out. refused out \<and> unsigned out) = served outs refused"
  using serve_metrics [OF assms(1) metrics_ok_New assms(2,3)] by (simp add: metrics_New_zero)

theorem metrics_account_for_requests_witness:
  "\<exists>m. out_metrics (last (serve example_jwt example_oidc const_cel (\<lambda>v. v) (example_authorizer True)
       [(example_clock, example_request), (example_clock, example_request\<lparr>Token := []\<rparr>)] 0)) = Some m \<and> metrics_ok m \<and>
    count_of (requests m) ''allowed'' = 1"
proof -
  let ?outs = "serve example_jwt example_oidc const_cel (\<lambda>v. v) (example_authorizer True)
       [(example_clock, example_request), (example_clock, example_request\<lparr>Token := []\<rparr>)] 0"
  have m: "metrics (example_authorizer True) = Some metrics_New" by (simp add: example_authorizer_def callout_New_def)
  have "served ?outs issued = 1"
    by (simp add: served_def issued_def Let_def example_reply) (simp add: Authorize_def Let_def)
  with metrics_account_for_requests [OF m refl, of example_jwt example_oidc const_cel "\<lambda>v. v"
       "[(example_clock, example_request), (example_clock, example_request\<lparr>Token := []\<rparr>)]" 0]
  show ?thesis by (auto simp: Let_def)
qed



end
