(* ===== verification/GoText.thy ===== *)
theory GoText
  imports GoJson
begin

text \<open>
  Functions of \<open>strings\<close>, \<open>path\<close>, \<open>path/filepath\<close> and \<open>encoding/hex\<close> on whole paths and texts: trimming of (Unicode)
  white space, hexadecimal output, cleaning, splitting and joining of slash-separated paths.
\<close>

subsection \<open>White space\<close>

text \<open>The UTF-8 encodings of the characters \<open>unicode.IsSpace\<close> accepts.\<close>

definition unicode_spaces :: "string list" where
  "unicode_spaces =
     [[CHR 0x09], [CHR 0x0A], [CHR 0x0B], [CHR 0x0C], [CHR 0x0D], [CHR 0x20], [CHR 0xC2, CHR 0x85], [CHR 0xC2, CHR 0xA0],
      [CHR 0xE1, CHR 0x9A, CHR 0x80], [CHR 0xE2, CHR 0x80, CHR 0x80], [CHR 0xE2, CHR 0x80, CHR 0x81],
      [CHR 0xE2, CHR 0x80, CHR 0x82], [CHR 0xE2, CHR 0x80, CHR 0x83], [CHR 0xE2, CHR 0x80, CHR 0x84],
      [CHR 0xE2, CHR 0x80, CHR 0x85], [CHR 0xE2, CHR 0x80, CHR 0x86], [CHR 0xE2, CHR 0x80, CHR 0x87],
      [CHR 0xE2, CHR 0x80, CHR 0x88], [CHR 0xE2, CHR 0x80, CHR 0x89], [CHR 0xE2, CHR 0x80, CHR 0x8A],
      [CHR 0xE2, CHR 0x80, CHR 0xA8], [CHR 0xE2, CHR 0x80, CHR 0xA9], [CHR 0xE2, CHR 0x80, CHR 0xAF],
      [CHR 0xE2, CHR 0x81, CHR 0x9F], [CHR 0xE3, CHR 0x80, CHR 0x80]]"

function trim_with :: "string list \<Rightarrow> string \<Rightarrow> string" where
  "trim_with sps s =
     (case find (\<lambda>sp. sp \<noteq> [] \<and> strings_HasPrefix s sp) sps of
        None \<Rightarrow> s
      | Some sp \<Rightarrow> trim_with sps (drop (length sp) s))"
  by pat_completeness auto
termination
proof (relation "measure (\<lambda>(_, s). length s)", goal_cases)
  case (2 sps s sp)
  then have "sp \<noteq> []" and "strings_HasPrefix s sp" by (auto simp: find_Some_iff)
  then show ?case by (cases s) (auto simp: strings_HasPrefix_def)
qed simp

declare trim_with.simps [simp del]

definition strings_TrimSpace :: "string \<Rightarrow> string" where
  "strings_TrimSpace s = rev (trim_with (map rev unicode_spaces) (rev (trim_with unicode_spaces s)))"

definition starts_with_space :: "string \<Rightarrow> bool" where
  "starts_with_space s \<longleftrightarrow> (\<exists>sp \<in> set unicode_spaces. strings_HasPrefix s sp)"

definition ends_with_space :: "string \<Rightarrow> bool" where
  "ends_with_space s \<longleftrightarrow> (\<exists>sp \<in> set unicode_spaces. strings_HasSuffix s sp)"

lemma trim_with_done: "sp \<in> set sps \<Longrightarrow> sp \<noteq> [] \<Longrightarrow> \<not> strings_HasPrefix (trim_with sps s) sp"
proof (induction sps s rule: trim_with.induct)
  case (1 sps s)
  show ?case
  proof (cases "find (\<lambda>sp. sp \<noteq> [] \<and> strings_HasPrefix s sp) sps")
    case None
    then have "trim_with sps s = s" by (simp add: trim_with.simps [of sps s])
    moreover from None "1.prems" have "\<not> strings_HasPrefix s sp" unfolding find_None_iff by blast
    ultimately show ?thesis by simp
  next
    case (Some p)
    with 1 show ?thesis by (simp add: trim_with.simps [of sps s])
  qed
qed

lemma trim_with_suffix: "suffix (trim_with sps s) s"
proof (induction sps s rule: trim_with.induct)
  case (1 sps s)
  then show ?case
    by (cases "find (\<lambda>sp. sp \<noteq> [] \<and> strings_HasPrefix s sp) sps")
       (auto simp: trim_with.simps [of sps s] intro: suffix_order.trans suffix_drop)
qed

lemma trim_with_id: "(\<And>sp. sp \<in> set sps \<Longrightarrow> sp \<noteq> [] \<Longrightarrow> \<not> strings_HasPrefix s sp) \<Longrightarrow> trim_with sps s = s"
  by (subst trim_with.simps) (auto split: option.splits simp: find_Some_iff)

lemma spaces_nonempty: "sp \<in> set unicode_spaces \<Longrightarrow> sp \<noteq> []"
  by (auto simp: unicode_spaces_def)

lemma TrimSpace_prefix: "prefix (strings_TrimSpace s) (trim_with unicode_spaces s)"
  using trim_with_suffix [of "map rev unicode_spaces" "rev (trim_with unicode_spaces s)"]
  by (simp add: strings_TrimSpace_def suffix_to_prefix)

lemma TrimSpace_starts: "\<not> starts_with_space (strings_TrimSpace s)"
proof
  assume "starts_with_space (strings_TrimSpace s)"
  then obtain sp where sp: "sp \<in> set unicode_spaces" and "prefix sp (strings_TrimSpace s)"
    by (auto simp: starts_with_space_def HasPrefix_iff_prefix)
  then have "strings_HasPrefix (trim_with unicode_spaces s) sp"
    using prefix_order.trans [OF _ TrimSpace_prefix] by (simp add: HasPrefix_iff_prefix)
  with trim_with_done [OF sp spaces_nonempty [OF sp], of s] show False by simp
qed

lemma TrimSpace_ends: "\<not> ends_with_space (strings_TrimSpace s)"
proof
  assume "ends_with_space (strings_TrimSpace s)"
  then obtain sp where sp: "sp \<in> set unicode_spaces" and "suffix sp (strings_TrimSpace s)"
    by (auto simp: ends_with_space_def HasSuffix_iff_suffix)
  then have "strings_HasPrefix (trim_with (map rev unicode_spaces) (rev (trim_with unicode_spaces s))) (rev sp)"
    by (simp add: strings_TrimSpace_def HasPrefix_iff_prefix suffix_to_prefix)
  with trim_with_done [of "rev sp" "map rev unicode_spaces"] sp spaces_nonempty [OF sp] show False by simp
qed

lemma TrimSpace_id: "\<not> starts_with_space s \<Longrightarrow> \<not> ends_with_space s \<Longrightarrow> strings_TrimSpace s = s"
proof -
  assume s: "\<not> starts_with_space s" and e: "\<not> ends_with_space s"
  have "trim_with unicode_spaces s = s" using s by (intro trim_with_id) (auto simp: starts_with_space_def)
  moreover have "trim_with (map rev unicode_spaces) (rev s) = rev s"
    using e by (intro trim_with_id) (auto simp: ends_with_space_def HasPrefix_iff_prefix HasSuffix_iff_suffix suffix_to_prefix)
  ultimately show ?thesis by (simp add: strings_TrimSpace_def)
qed

lemma TrimSpace_set: "set (strings_TrimSpace s) \<subseteq> set s"
  using set_mono_prefix [OF TrimSpace_prefix [of s]] set_mono_suffix [OF trim_with_suffix [of unicode_spaces s]] by blast

subsection \<open>Hexadecimal output\<close>

definition hex_digit :: "nat \<Rightarrow> char" where
  "hex_digit n = (if n < 10 then char_of (48 + n) else char_of (87 + n))"

fun hex_EncodeToString :: "string \<Rightarrow> string" where
  "hex_EncodeToString [] = []"
| "hex_EncodeToString (c # s) = hex_digit (byte c div 16) # hex_digit (byte c mod 16) # hex_EncodeToString s"

lemma hex_value_digit: "n < 16 \<Longrightarrow> hex_value (hex_digit n) = Some n"
  by (auto simp: hex_value_def hex_digit_def byte_def)

lemma hex_digit_inject: "m < 16 \<Longrightarrow> n < 16 \<Longrightarrow> hex_digit m = hex_digit n \<Longrightarrow> m = n"
  by (metis hex_value_digit option.inject)

lemma hex_pair_inject:
  assumes "hex_digit (byte c div 16) = hex_digit (byte d div 16)" and "hex_digit (byte c mod 16) = hex_digit (byte d mod 16)"
  shows "c = d"
proof -
  have "byte c div 16 = byte d div 16" "byte c mod 16 = byte d mod 16"
    using assms byte_less [of c] byte_less [of d] by (auto intro!: hex_digit_inject)
  then have "byte c = byte d" by (metis div_mult_mod_eq)
  then show ?thesis by (simp add: byte_def)
qed

lemma hex_Encode_inject: "hex_EncodeToString s = hex_EncodeToString t \<Longrightarrow> s = t"
proof (induction s arbitrary: t)
  case Nil
  then show ?case by (cases t) auto
next
  case (Cons c s)
  then show ?case by (cases t) (auto dest: hex_pair_inject)
qed

lemma hex_Encode_ascii: "x \<in> set (hex_EncodeToString s) \<Longrightarrow> hex_value x \<noteq> None"
proof (induction s)
  case (Cons c s)
  then show ?case using byte_less [of c] by (auto simp: hex_value_digit)
qed simp

subsection \<open>Paths\<close>

text \<open>\<open>path.Clean\<close>: the elements of the path, with dots removed and dot-dots applied; \<open>st\<close> holds the elements kept so far, the last first.\<close>

fun clean_elems :: "bool \<Rightarrow> string list \<Rightarrow> string list \<Rightarrow> string list" where
  "clean_elems rooted st [] = rev st"
| "clean_elems rooted st (e # es) =
     (if e = [] \<or> e = ''.'' then clean_elems rooted st es
      else if e = ''..''
      then (case st of
              [] \<Rightarrow> if rooted then clean_elems rooted [] es else clean_elems rooted [e] es
            | x # xs \<Rightarrow> if x = ''..'' then clean_elems rooted (e # st) es else clean_elems rooted xs es)
      else clean_elems rooted (e # st) es)"

definition path_Clean :: "string \<Rightarrow> string" where
  "path_Clean p =
     (let rooted = strings_HasPrefix p ''/'';
          es = clean_elems rooted [] (strings_Split p CHR ''/'');
          body = strings_Join es ''/''
      in if rooted then CHR ''/'' # body else if es = [] then ''.'' else body)"

definition filepath_Dir :: "string \<Rightarrow> string" where
  "filepath_Dir p = path_Clean (rev (dropWhile (\<lambda>c. c \<noteq> CHR ''/'') (rev p)))"

definition filepath_Join :: "string list \<Rightarrow> string" where
  "filepath_Join es =
     (let es' = filter (\<lambda>e. e \<noteq> []) es in if es' = [] then [] else path_Clean (strings_Join es' ''/''))"

end
