(* ===== verification/MetricsServer.thy ===== *)
theory MetricsServer
  imports Metrics GoText
begin

text \<open>
  Package \<open>internal/metrics\<close>, file \<open>server.go\<close>: the path check and the routes of the metrics endpoint, with the functions of
  \<open>net/url\<close> and \<open>net/http\<close> they rest on. A pattern without method, host and wildcards, the only kind the path check
  lets through, is a sequence of literal segments, possibly ending in a slash, which then matches every path below it.
\<close>

subsection \<open>Model\<close>

definition DefaultPath :: string where "DefaultPath = ''/metrics''"
definition LivenessPath :: string where "LivenessPath = ''/healthz''"
definition ReadinessPath :: string where "ReadinessPath = ''/readyz''"

lemmas health_paths = LivenessPath_def ReadinessPath_def

text \<open>\<open>url.PathUnescape\<close>: \<open>None\<close> is an invalid escape.\<close>

fun url_PathUnescape :: "string \<Rightarrow> string option" where
  "url_PathUnescape [] = Some []"
| "url_PathUnescape (c # s) =
     (if c \<noteq> CHR ''%'' then map_option ((#) c) (url_PathUnescape s)
      else case s of
             a # b # t \<Rightarrow>
               (case (hex_value a, hex_value b) of
                  (Some x, Some y) \<Rightarrow> map_option ((#) (char_of (16 * x + y))) (url_PathUnescape t)
                | _ \<Rightarrow> None)
           | _ \<Rightarrow> None)"

text \<open>The literal patterns of \<open>http.ServeMux\<close>: unescaped segments, and whether the pattern ends in a slash.\<close>

type_synonym mux_pattern = "string list \<times> bool"

definition pathUnescape :: "string \<Rightarrow> string" where
  "pathUnescape seg = (case url_PathUnescape seg of None \<Rightarrow> seg | Some s \<Rightarrow> s)"

definition parsePattern :: "string \<Rightarrow> mux_pattern" where
  "parsePattern p =
     (let segs = strings_Split (drop 1 p) CHR ''/''
      in if last segs = [] then (map pathUnescape (butlast segs), True) else (map pathUnescape segs, False))"

definition conflictsWith :: "mux_pattern \<Rightarrow> mux_pattern \<Rightarrow> bool" where
  "conflictsWith p q \<longleftrightarrow> p = q"

datatype handler = MetricsHandler | LivenessHandler | ReadinessHandler

type_synonym mux = "(mux_pattern \<times> handler) list"

text \<open>\<open>mux.Handle\<close> panics on a conflicting pattern: \<open>None\<close>.\<close>

definition mux_Handle :: "string \<Rightarrow> handler \<Rightarrow> mux \<Rightarrow> mux option" where
  "mux_Handle p h m =
     (if list_ex (\<lambda>(q, _). conflictsWith (parsePattern p) q) m then None else Some ((parsePattern p, h) # m))"

definition newMux :: "string \<Rightarrow> mux option" where
  "newMux p =
     (case mux_Handle p MetricsHandler [] of
        None \<Rightarrow> None
      | Some m1 \<Rightarrow>
          (case mux_Handle LivenessPath LivenessHandler m1 of
             None \<Rightarrow> None
           | Some m2 \<Rightarrow> mux_Handle ReadinessPath ReadinessHandler m2))"

text \<open>Dispatch on the segments of a cleaned request path: an exact pattern, or else the longest one that ends in a slash.\<close>

definition mux_match :: "mux \<Rightarrow> string list \<Rightarrow> handler option" where
  "mux_match m segs =
     (case map_of m (segs, False) of
        Some h \<Rightarrow> Some h
      | None \<Rightarrow>
          (case filter (\<lambda>n. map_of m (take n segs, True) \<noteq> None) (rev [0..<Suc (length segs)]) of
             [] \<Rightarrow> None
           | n # _ \<Rightarrow> map_of m (take n segs, True)))"

definition ready_status :: "bool option \<Rightarrow> nat" where
  "ready_status ready = (case ready of Some False \<Rightarrow> 503 | _ \<Rightarrow> 200)"

text \<open>
  \<open>Serve\<close>, given how the server ends: its context is cancelled, and \<open>Shutdown\<close> and (if that failed) \<open>Close\<close> answer what is given
  here, or serving itself failed with an error other than \<open>ErrServerClosed\<close>. The outer \<open>None\<close> is the panic of a conflicting pattern.
\<close>

definition shutdownTimeout :: duration where "shutdownTimeout = 5 * second"

datatype serve_end =
    ServeCancelled "string option" "string option"
  | ServeFailed string

definition Serve :: "string \<Rightarrow> serve_end \<Rightarrow> string option option" where
  "Serve p e =
     (case newMux (if p = [] then DefaultPath else p) of
        None \<Rightarrow> None
      | Some _ \<Rightarrow>
          Some (case e of
                  ServeCancelled shutdown close \<Rightarrow> (case shutdown of Some _ \<Rightarrow> close | None \<Rightarrow> None)
                | ServeFailed err \<Rightarrow> Some err))"

datatype path_error = NotLiteralAbsolute | BadEscape | ReservedPath | CannotServe

definition ValidatePath :: "string \<Rightarrow> path_error option" where
  "ValidatePath p =
     (if \<not> strings_HasPrefix p ''/'' \<or> strings_ContainsAny p (''{} '' @ [CHR 0x09]) then Some NotLiteralAbsolute
      else case url_PathUnescape p of
        None \<Rightarrow> Some BadEscape
      | Some decoded \<Rightarrow>
          if path_Clean decoded = LivenessPath \<or> path_Clean decoded = ReadinessPath then Some ReservedPath
          else if newMux p = None then Some CannotServe
          else None)"

subsection \<open>The health endpoints keep their paths\<close>

text \<open>Unescaping works segment by segment: an escape never straddles a slash.\<close>

lemma PathUnescape_slash:
  "url_PathUnescape (s @ CHR ''/'' # t) = Some d \<Longrightarrow>
     \<exists>d1 d2. url_PathUnescape s = Some d1 \<and> url_PathUnescape t = Some d2 \<and> d = d1 @ CHR ''/'' # d2"
proof (induction s arbitrary: d rule: url_PathUnescape.induct)
  case (2 c s)
  have slash: "hex_value (CHR ''/'') = None" by code_simp
  show ?case
  proof (cases "c = CHR ''%''")
    case False
    with 2 show ?thesis by fastforce
  next
    case True
    show ?thesis
    proof (cases s)
      case (Cons a s')
      show ?thesis
      proof (cases s')
        case (Cons b u)
        with True \<open>s = a # s'\<close> 2 show ?thesis by (fastforce split: option.splits)
      qed (use True Cons 2 slash in \<open>auto split: option.splits\<close>)
    qed (use True 2 slash in \<open>auto split: list.splits option.splits\<close>)
  qed
qed auto

lemma Split_parts:
  "strings_Split s sep = [w] \<Longrightarrow> s = w" "strings_Split s sep = [w, []] \<Longrightarrow> s = w @ [sep]"
  using Join_Split [of s sep] by auto

text \<open>A pattern whose only literal segment is \<open>w\<close> is \<open>w\<close> under some escaping, possibly with a slash after it.\<close>

lemma parsePattern_single:
  assumes "parsePattern p = ([w], sl)" and "strings_HasPrefix p ''/''" and "url_PathUnescape p = Some d"
  shows "d = CHR ''/'' # w @ (if sl then ''/'' else [])"
proof -
  obtain rest where p: "p = CHR ''/'' # rest" using assms(2) by (cases p) (auto simp: strings_HasPrefix_def)
  let ?segs = "strings_Split rest CHR ''/''"
  have sl: "sl \<longleftrightarrow> last ?segs = []" and "map pathUnescape (if sl then butlast ?segs else ?segs) = [w]"
    using assms(1) by (auto simp: parsePattern_def p Let_def split: if_splits)
  then obtain seg where w: "pathUnescape seg = w" and "(if sl then butlast ?segs else ?segs) = [seg]" by auto
  moreover have "?segs = butlast ?segs @ [last ?segs]" by simp
  ultimately have "?segs = (if sl then [seg, []] else [seg])" using sl by (metis append_Cons append_Nil)
  then have "rest = (if sl then seg @ ''/'' else seg)" using Split_parts [of rest "CHR ''/''" seg] by (auto split: if_splits)
  with assms(3) w PathUnescape_slash [of seg "[]"] show ?thesis
    by (auto simp: p pathUnescape_def split: option.splits if_splits)
qed

lemma health_parsePattern:
  "parsePattern LivenessPath = ([''healthz''], False)" "parsePattern ReadinessPath = ([''readyz''], False)"
  by code_simp+

lemma health_Clean:
  "path_Clean ''/healthz'' = LivenessPath" "path_Clean ''/readyz'' = ReadinessPath"
  "path_Clean ''/healthz/'' = LivenessPath" "path_Clean ''/readyz/'' = ReadinessPath"
  by code_simp+

lemma newMux_None:
  "newMux p = None \<longleftrightarrow> parsePattern p \<in> {([''healthz''], False), ([''readyz''], False)}"
  by (auto simp: newMux_def mux_Handle_def conflictsWith_def health_parsePattern)

text \<open>Once the check for reserved paths has passed, no pattern is about a health endpoint.\<close>

lemma not_reserved_pattern:
  assumes "strings_HasPrefix p ''/''" and "url_PathUnescape p = Some d"
    and "path_Clean d \<noteq> LivenessPath" and "path_Clean d \<noteq> ReadinessPath"
  shows "fst (parsePattern p) \<notin> {[''healthz''], [''readyz'']}"
proof
  assume "fst (parsePattern p) \<in> {[''healthz''], [''readyz'']}"
  then obtain w sl where q: "parsePattern p = ([w], sl)" and w: "w \<in> {''healthz'', ''readyz''}"
    by (cases "parsePattern p") auto
  from parsePattern_single [OF q assms(1,2)] w assms(3,4) health_Clean show False by (auto split: if_splits)
qed

lemma ValidatePath_None:
  "ValidatePath p = None \<longleftrightarrow> strings_HasPrefix p ''/'' \<and> \<not> strings_ContainsAny p (''{} '' @ [CHR 0x09]) \<and>
     (\<exists>d. url_PathUnescape p = Some d \<and> path_Clean d \<noteq> LivenessPath \<and> path_Clean d \<noteq> ReadinessPath)"
  using not_reserved_pattern [of p] by (auto simp: ValidatePath_def newMux_None split: option.splits)

text \<open>A metrics path that passes the check can be served: registering the routes does not panic, the health endpoints
  answer at their own paths whatever the metrics path is, and the metrics answer at theirs. The check's own test
  registration never finds a conflict that the check for reserved paths missed.\<close>

theorem validated_path_serves:
  assumes "ValidatePath p = None"
  shows "\<exists>m. newMux p = Some m \<and> mux_match m [''healthz''] = Some LivenessHandler \<and>
    mux_match m [''readyz''] = Some ReadinessHandler \<and> mux_match m (fst (parsePattern p)) = Some MetricsHandler"
proof -
  have np: "fst (parsePattern p) \<notin> {[''healthz''], [''readyz'']}"
    using assms not_reserved_pattern by (auto simp: ValidatePath_None)
  let ?m = "[(([''readyz''], False), ReadinessHandler), (([''healthz''], False), LivenessHandler), (parsePattern p, MetricsHandler)]"
  obtain segs sl where q: "parsePattern p = (segs, sl)" by (cases "parsePattern p")
  have m: "newMux p = Some ?m"
    using np unfolding q by (auto simp: newMux_def mux_Handle_def conflictsWith_def health_parsePattern q)
  have "mux_match ?m segs = Some MetricsHandler"
    using np unfolding q by (cases sl) (auto simp: mux_match_def)
  with m q show ?thesis by (auto simp: mux_match_def)
qed

lemma DefaultPath_ok: "ValidatePath DefaultPath = None"
  by code_simp

lemma newMux_validated: "ValidatePath p = None \<Longrightarrow> newMux p \<noteq> None"
  using not_reserved_pattern [of p] by (auto simp: ValidatePath_None newMux_None)

text \<open>With a checked path, or none, the server starts, and it fails only if serving failed or the connections left after a failed drain could not be closed.\<close>

lemma Serve_validated:
  assumes "p = [] \<or> ValidatePath p = None"
  shows "\<exists>r. Serve p e = Some r \<and> (r = Some err \<longrightarrow> e = ServeFailed err \<or> (\<exists>d. e = ServeCancelled (Some d) (Some err)))"
proof -
  obtain m where "newMux (if p = [] then DefaultPath else p) = Some m"
    using assms newMux_validated DefaultPath_ok by (cases "p = []") auto
  then show ?thesis by (simp add: Serve_def split: serve_end.splits option.splits)
qed

text \<open>The path check refuses every spelling of a health endpoint: a literal absolute path is accepted exactly when its
  percent escapes are valid and, once decoded and cleaned of empty, dot and dot-dot elements, it is neither the
  liveness nor the readiness path. The check's test registration never fails on its own.\<close>

theorem ValidatePath_accepts_iff:
  "(ValidatePath p = None \<longleftrightarrow> strings_HasPrefix p ''/'' \<and> \<not> strings_ContainsAny p (''{} '' @ [CHR 0x09]) \<and>
     (\<exists>d. url_PathUnescape p = Some d \<and> path_Clean d \<noteq> LivenessPath \<and> path_Clean d \<noteq> ReadinessPath)) \<and>
   ValidatePath p \<noteq> Some CannotServe \<and>
   ValidatePath ''/x/%2e%2E//healthz/.'' = Some ReservedPath"
proof (intro conjI)
  show "ValidatePath p \<noteq> Some CannotServe"
    using not_reserved_pattern [of p] by (auto simp: ValidatePath_def newMux_None split: if_splits option.splits)
  show "ValidatePath ''/x/%2e%2E//healthz/.'' = Some ReservedPath" by code_simp
qed (rule ValidatePath_None)

end
