(* ===== verification/Config.thy ===== *)
theory Config
  imports AuthzProps MetricsServer
begin

text \<open>
  Package \<open>internal/config\<close>: the service configuration, its defaults and its validation. \<open>Validate\<close> also validates the
  policy in place, so it returns the configuration together with the error. The YAML decoder and the file system are
  arguments, as in \<open>Authz\<close>.
\<close>

subsection \<open>Model\<close>

record MetricsConfig =
  Enabled :: bool
  Address :: string
  Path :: string

record NATSConfig =
  NATS_URL :: string
  Credentials :: string
  Username :: string
  Password :: string
  NkeySeed :: string
  CACert :: string
  ClientCert :: string
  ClientKey :: string

record IssuerConfig =
  Issuer_URL :: string
  Issuer_RequireClaims :: go_map

record 'prg Config =
  NATS :: NATSConfig
  IssuerAccountSeed :: string
  XKeySeed :: string
  Cfg_Audiences :: "string list"
  Cfg_SigningAlgs :: "string list"
  Cfg_Issuers :: "IssuerConfig list"
  Cfg_HTTPTimeout :: duration
  Workers :: int
  VerifyTimeout :: duration
  Cfg_JWKSRefreshInterval :: duration
  OIDCCACert :: string
  Cfg_Metrics :: MetricsConfig
  Cfg_Policy :: "'prg Policy"
  PolicyFile :: string

definition DefaultHTTPTimeout :: duration where "DefaultHTTPTimeout = 10 * second"
definition DefaultWorkers :: int where "DefaultWorkers = 8"
definition Cfg_DefaultVerifyTimeout :: duration where "Cfg_DefaultVerifyTimeout = 1500 * millisecond"
definition Cfg_DefaultJWKSRefreshInterval :: duration where "Cfg_DefaultJWKSRefreshInterval = 30 * second"
definition DefaultMetricsAddress :: string where "DefaultMetricsAddress = '':9090''"

lemmas default_defs = DefaultHTTPTimeout_def DefaultWorkers_def Cfg_DefaultVerifyTimeout_def
  Cfg_DefaultJWKSRefreshInterval_def DefaultMetricsAddress_def second_def millisecond_def

datatype config_error =
    NATSURLRequired
  | MutuallyExclusiveAuth
  | PasswordRequiresUsername
  | IssuerAccountSeedRequired
  | AudienceRequired
  | SigningAlgRequired
  | IssuerRequired
  | IssuerURLRequired nat
  | MetricsPathError path_error
  | NegativeWorkers
  | NegativeVerifyTimeout
  | NegativeJWKSRefreshInterval
  | PolicyError policy_error
  | ReadConfig string
  | ParseConfig decode_error
  | LoadPolicyError load_error

fun missing_url :: "nat \<Rightarrow> IssuerConfig list \<Rightarrow> nat option" where
  "missing_url i [] = None"
| "missing_url i (iss # rest) = (if Issuer_URL iss = [] then Some i else missing_url (Suc i) rest)"

definition auth_methods :: "NATSConfig \<Rightarrow> nat" where
  "auth_methods n = length (filter (\<lambda>v. v \<noteq> []) [Credentials n, Username n, NkeySeed n])"

definition Config_Validate ::
    "('env, 'ast, 'prg) cel_lib \<Rightarrow> 'prg Config \<Rightarrow> 'prg Config \<times> config_error option" where
  "Config_Validate cel c =
     (if NATS_URL (NATS c) = [] then (c, Some NATSURLRequired)
      else if auth_methods (NATS c) > 1 then (c, Some MutuallyExclusiveAuth)
      else if Password (NATS c) \<noteq> [] \<and> Username (NATS c) = [] then (c, Some PasswordRequiresUsername)
      else if IssuerAccountSeed c = [] then (c, Some IssuerAccountSeedRequired)
      else if length (Cfg_Audiences c) = 0 then (c, Some AudienceRequired)
      else if length (Cfg_SigningAlgs c) = 0 then (c, Some SigningAlgRequired)
      else if length (Cfg_Issuers c) = 0 then (c, Some IssuerRequired)
      else case missing_url 0 (Cfg_Issuers c) of
        Some i \<Rightarrow> (c, Some (IssuerURLRequired i))
      | None \<Rightarrow>
        (case (if Enabled (Cfg_Metrics c) \<and> Path (Cfg_Metrics c) \<noteq> [] then ValidatePath (Path (Cfg_Metrics c)) else None) of
           Some e \<Rightarrow> (c, Some (MetricsPathError e))
         | None \<Rightarrow>
           if Workers c < 0 then (c, Some NegativeWorkers)
           else if VerifyTimeout c < 0 then (c, Some NegativeVerifyTimeout)
           else if Cfg_JWKSRefreshInterval c < 0 then (c, Some NegativeJWKSRefreshInterval)
           else (case Validate cel (Cfg_Policy c) of
                   (p, Some e) \<Rightarrow> (c\<lparr>Cfg_Policy := p\<rparr>, Some (PolicyError e))
                 | (p, None) \<Rightarrow> (c\<lparr>Cfg_Policy := p\<rparr>, None))))"

text \<open>The zero value a document is decoded into.\<close>

definition emptyConfig :: "'prg Config" where
  "emptyConfig = \<lparr>NATS = \<lparr>NATS_URL = [], Credentials = [], Username = [], Password = [], NkeySeed = [], CACert = [],
     ClientCert = [], ClientKey = []\<rparr>, IssuerAccountSeed = [], XKeySeed = [], Cfg_Audiences = [], Cfg_SigningAlgs = [],
     Cfg_Issuers = [], Cfg_HTTPTimeout = 0, Workers = 0, VerifyTimeout = 0, Cfg_JWKSRefreshInterval = 0, OIDCCACert = [],
     Cfg_Metrics = \<lparr>Enabled = False, Address = [], Path = []\<rparr>, Cfg_Policy = emptyPolicy, PolicyFile = []\<rparr>"

definition metrics_defaults :: "MetricsConfig \<Rightarrow> MetricsConfig" where
  "metrics_defaults m =
     (if Enabled m
      then m\<lparr>Address := (if Address m = [] then DefaultMetricsAddress else Address m),
             Path := (if Path m = [] then ''/metrics'' else Path m)\<rparr>
      else m)"

definition with_defaults :: "'prg Config \<Rightarrow> 'prg Config" where
  "with_defaults c =
     c\<lparr>Cfg_HTTPTimeout := (if Cfg_HTTPTimeout c = 0 then DefaultHTTPTimeout else Cfg_HTTPTimeout c),
       Workers := (if Workers c = 0 then DefaultWorkers else Workers c),
       VerifyTimeout := (if VerifyTimeout c = 0 then Cfg_DefaultVerifyTimeout else VerifyTimeout c),
       Cfg_JWKSRefreshInterval :=
         (if Cfg_JWKSRefreshInterval c = 0 then Cfg_DefaultJWKSRefreshInterval else Cfg_JWKSRefreshInterval c),
       Cfg_Metrics := metrics_defaults (Cfg_Metrics c)\<rparr>"

definition with_policy_file ::
    "('env, 'ast, 'prg) cel_lib \<Rightarrow> 'prg Policy yaml_lib \<Rightarrow> file_system \<Rightarrow> 'prg Config \<Rightarrow> config_error + 'prg Config" where
  "with_policy_file cel pyaml fs cfg =
     (if PolicyFile cfg \<noteq> []
      then (case LoadPolicy cel pyaml fs (PolicyFile cfg) of
              Inl e \<Rightarrow> Inl (LoadPolicyError e)
            | Inr pol \<Rightarrow> Inr (cfg\<lparr>Cfg_Policy := pol\<rparr>))
      else Inr cfg)"

definition Load ::
    "('env, 'ast, 'prg) cel_lib \<Rightarrow> 'prg Config yaml_lib \<Rightarrow> 'prg Policy yaml_lib \<Rightarrow> file_system \<Rightarrow> string \<Rightarrow>
     config_error + 'prg Config" where
  "Load cel yaml pyaml fs path =
     (case fs path of
        Inl e \<Rightarrow> Inl (ReadConfig e)
      | Inr data \<Rightarrow>
          (case DecodeStrict yaml data emptyConfig of
             Inl e \<Rightarrow> Inl (ParseConfig e)
           | Inr cfg \<Rightarrow>
               (case with_policy_file cel pyaml fs cfg of
                  Inl e \<Rightarrow> Inl e
                | Inr cfg' \<Rightarrow>
                    (case Config_Validate cel (with_defaults cfg') of
                       (c, Some e) \<Rightarrow> Inl e
                     | (c, None) \<Rightarrow> Inr c))))"

subsection \<open>What a loaded configuration guarantees\<close>

lemma missing_url_None: "missing_url i isss = None \<longleftrightarrow> (\<forall>iss \<in> set isss. Issuer_URL iss \<noteq> [])"
  by (induction i isss rule: missing_url.induct) auto

text \<open>The settings of a configuration that has passed validation.\<close>

definition config_valid :: "('env, 'ast, 'prg) cel_lib \<Rightarrow> 'prg Config \<Rightarrow> bool" where
  "config_valid cel c \<longleftrightarrow>
     NATS_URL (NATS c) \<noteq> [] \<and> auth_methods (NATS c) \<le> 1 \<and> (Password (NATS c) \<noteq> [] \<longrightarrow> Username (NATS c) \<noteq> []) \<and>
     IssuerAccountSeed c \<noteq> [] \<and> Cfg_Audiences c \<noteq> [] \<and> Cfg_SigningAlgs c \<noteq> [] \<and> Cfg_Issuers c \<noteq> [] \<and>
     (\<forall>iss \<in> set (Cfg_Issuers c). Issuer_URL iss \<noteq> []) \<and>
     (Enabled (Cfg_Metrics c) \<and> Path (Cfg_Metrics c) \<noteq> [] \<longrightarrow> ValidatePath (Path (Cfg_Metrics c)) = None) \<and>
     0 \<le> Workers c \<and> 0 \<le> VerifyTimeout c \<and> 0 \<le> Cfg_JWKSRefreshInterval c \<and>
     validated (Cfg_Policy c) \<and> policy_ok cel (Cfg_Policy c)"

lemma Config_Validate_ok:
  assumes "Config_Validate cel c = (c', None)"
  shows "config_valid cel c' \<and> (\<exists>p. Validate cel (Cfg_Policy c) = (p, None) \<and> c' = c\<lparr>Cfg_Policy := p\<rparr>)"
proof -
  from assms obtain p where v: "Validate cel (Cfg_Policy c) = (p, None)" and c': "c' = c\<lparr>Cfg_Policy := p\<rparr>"
    by (auto simp: Config_Validate_def split: if_splits option.splits prod.splits)
  have "validated p \<and> policy_ok cel p" using Validate_ok [OF v] by simp
  with assms c' show ?thesis using v
    by (auto simp: config_valid_def Config_Validate_def missing_url_None split: if_splits option.splits)
qed

lemma with_defaults_policy [simp]: "Cfg_Policy (with_defaults c) = Cfg_Policy c" "PolicyFile (with_defaults c) = PolicyFile c"
  by (simp_all add: with_defaults_def)

lemma LoadPolicy_valid: "LoadPolicy cel pyaml fs path = Inr p \<Longrightarrow> Validate cel p = (p, None)"
  by (auto simp: LoadPolicy_def split: sum.splits prod.splits option.splits intro: Validate_again)

lemma Load_InrE:
  assumes "Load cel yaml pyaml fs path = Inr c"
  obtains data cfg pol where "fs path = Inr data" "DecodeStrict yaml data emptyConfig = Inr cfg"
    "PolicyFile cfg \<noteq> [] \<Longrightarrow> LoadPolicy cel pyaml fs (PolicyFile cfg) = Inr pol"
    "PolicyFile cfg = [] \<Longrightarrow> pol = Cfg_Policy cfg"
    "Config_Validate cel (with_defaults (cfg\<lparr>Cfg_Policy := pol\<rparr>)) = (c, None)"
proof -
  from assms obtain data cfg cfg' where 1: "fs path = Inr data" "DecodeStrict yaml data emptyConfig = Inr cfg"
    and pol: "with_policy_file cel pyaml fs cfg = Inr cfg'"
    and 2: "Config_Validate cel (with_defaults cfg') = (c, None)"
    by (auto simp: Load_def split: sum.splits prod.splits option.splits)
  from pol have "cfg' = cfg\<lparr>Cfg_Policy := Cfg_Policy cfg'\<rparr>" by (auto simp: with_policy_file_def split: if_splits sum.splits)
  moreover from pol have "PolicyFile cfg \<noteq> [] \<Longrightarrow> LoadPolicy cel pyaml fs (PolicyFile cfg) = Inr (Cfg_Policy cfg')"
    and "PolicyFile cfg = [] \<Longrightarrow> Cfg_Policy cfg' = Cfg_Policy cfg"
    by (auto simp: with_policy_file_def split: if_splits sum.splits)
  ultimately show thesis using that [OF 1, of "Cfg_Policy cfg'"] 2 by simp
qed

text \<open>C32: a configuration that loads is complete and consistent: it names a server, a signing seed, audiences, algorithms
  and issuers with a URL each, at most one way to authenticate, a positive number of workers, positive verification
  timeout and refresh interval, a metrics address and a servable metrics path when metrics are on, and a
  validated policy, which is the policy file's when one is named.\<close>

theorem Load_is_complete:
  assumes "Load cel yaml pyaml fs path = Inr c"
  shows "config_valid cel c \<and> 0 < Workers c \<and> 0 < VerifyTimeout c \<and> 0 < Cfg_JWKSRefreshInterval c \<and> Cfg_HTTPTimeout c \<noteq> 0 \<and>
    (Enabled (Cfg_Metrics c) \<longrightarrow> Address (Cfg_Metrics c) \<noteq> [] \<and> Path (Cfg_Metrics c) \<noteq> [] \<and>
       ValidatePath (Path (Cfg_Metrics c)) = None) \<and>
    (PolicyFile c \<noteq> [] \<longrightarrow> LoadPolicy cel pyaml fs (PolicyFile c) = Inr (Cfg_Policy c))"
  using assms
proof (rule Load_InrE)
  fix data cfg pol
  assume pf: "PolicyFile cfg \<noteq> [] \<Longrightarrow> LoadPolicy cel pyaml fs (PolicyFile cfg) = Inr pol"
    and "Config_Validate cel (with_defaults (cfg\<lparr>Cfg_Policy := pol\<rparr>)) = (c, None)"
  from Config_Validate_ok [OF this(2)] obtain p where valid: "config_valid cel c" and v: "Validate cel pol = (p, None)"
    and c: "c = with_defaults (cfg\<lparr>Cfg_Policy := pol\<rparr>)\<lparr>Cfg_Policy := p\<rparr>" by auto
  have "p = pol" if "PolicyFile cfg \<noteq> []" using LoadPolicy_valid [OF pf [OF that]] v by simp
  with pf c have "PolicyFile c \<noteq> [] \<longrightarrow> LoadPolicy cel pyaml fs (PolicyFile c) = Inr (Cfg_Policy c)" by auto
  moreover have "0 < Workers c \<and> 0 < VerifyTimeout c \<and> 0 < Cfg_JWKSRefreshInterval c \<and> Cfg_HTTPTimeout c \<noteq> 0"
    using valid c by (auto simp: config_valid_def with_defaults_def default_defs split: if_splits)
  moreover have "Enabled (Cfg_Metrics c) \<longrightarrow> Address (Cfg_Metrics c) \<noteq> [] \<and> Path (Cfg_Metrics c) \<noteq> []"
    using c by (simp add: with_defaults_def metrics_defaults_def default_defs)
  ultimately show ?thesis using valid by (auto simp: config_valid_def)
qed

definition example_config :: "bool Config" where
  "example_config = emptyConfig\<lparr>NATS := (NATS (emptyConfig :: bool Config))\<lparr>NATS_URL := ''nats://n'', NkeySeed := ''SU''\<rparr>, IssuerAccountSeed := ''SA'',
     Cfg_Audiences := [''nats''], Cfg_SigningAlgs := [''RS256''],
     Cfg_Issuers := [\<lparr>Issuer_URL = ''https://i'', Issuer_RequireClaims = [(''team'', ''a'')]\<rparr>],
     Cfg_Metrics := \<lparr>Enabled = True, Address = [], Path = []\<rparr>, Cfg_Policy := example_policy\<rparr>"

definition example_loaded :: "bool Config" where
  "example_loaded = with_defaults example_config\<lparr>Cfg_Policy := example_validated\<rparr>"

definition example_config_yaml :: "bool Config yaml_lib" where
  "example_config_yaml = \<lparr>yaml_first = (\<lambda>_. YValue example_config), yaml_second = (\<lambda>_. YEOF)\<rparr>"

lemma example_Load: "Load const_cel example_config_yaml example_yaml (\<lambda>_. Inr ''doc'') path = Inr example_loaded"
proof -
  have "ValidatePath ''/metrics'' = None" by code_simp
  then have "Config_Validate const_cel (with_defaults example_config) = (example_loaded, None)"
    by (simp add: Config_Validate_def example_loaded_def)
       (simp add: example_config_def with_defaults_def emptyConfig_def metrics_defaults_def auth_methods_def
        example_policy_valid default_defs)
  then show ?thesis
    by (simp add: Load_def DecodeStrict_def example_config_yaml_def with_policy_file_def)
       (simp add: example_config_def emptyConfig_def)
qed

theorem Load_is_complete_witness:
  "config_valid const_cel example_loaded \<and> 0 < Workers example_loaded \<and>
   ValidatePath (Path (Cfg_Metrics example_loaded)) = None"
proof -
  have "Enabled (Cfg_Metrics example_loaded)"
    by (simp add: example_loaded_def with_defaults_def metrics_defaults_def example_config_def)
  with Load_is_complete [OF example_Load [of "''c''"]] show ?thesis by blast
qed

end
