(* ===== verification/GoFlag.thy ===== *)
theory GoFlag
  imports GoStrings "HOL-Library.AList"
begin

text \<open>
  The command-line parser of package \<open>flag\<close> for string and boolean flags, as \<open>flag.Parse\<close> applies it to the arguments of a
  process: \<open>-name value\<close>, \<open>-name=value\<close>, one or two dashes, a boolean flag without a value, the end of the flags at \<open>--\<close> or at
  the first argument that is not a flag, and the exit of the process on an error.
\<close>

datatype flag_value = FlagString string | FlagBool bool

type_synonym flag_set = "(string \<times> flag_value) list"

datatype flag_error =
    ErrHelp
  | BadFlagSyntax string
  | FlagNotDefined string
  | InvalidBoolean string string
  | FlagNeedsArgument string

definition ParseBool :: "string \<Rightarrow> bool option" where
  "ParseBool s =
     (if s \<in> set [''1'', ''t'', ''T'', ''true'', ''TRUE'', ''True''] then Some True
      else if s \<in> set [''0'', ''f'', ''F'', ''false'', ''FALSE'', ''False''] then Some False
      else None)"

text \<open>The name and the value of \<open>name=value\<close>; an equals sign in the first position is not looked for.\<close>

definition split_value :: "string \<Rightarrow> string \<times> string option" where
  "split_value name =
     (let eq = (\<lambda>c. c = CHR ''=''); rest = tl name
      in if list_ex eq rest
         then (hd name # takeWhile (Not \<circ> eq) rest, Some (tl (dropWhile (Not \<circ> eq) rest)))
         else (name, None))"

text \<open>One flag; the boolean says whether there was one.\<close>

definition parseOne :: "flag_set \<Rightarrow> string list \<Rightarrow> flag_error + bool \<times> flag_set \<times> string list" where
  "parseOne fs args =
     (case args of
        [] \<Rightarrow> Inr (False, fs, args)
      | s # rest \<Rightarrow>
          if length s < 2 \<or> hd s \<noteq> CHR ''-'' then Inr (False, fs, args)
          else if s = ''--'' then Inr (False, fs, rest)
          else let name = drop (if s ! 1 = CHR ''-'' then 2 else 1) s
               in if name = [] \<or> hd name = CHR ''-'' \<or> hd name = CHR ''='' then Inl (BadFlagSyntax s)
                  else (case split_value name of
                    (n, v) \<Rightarrow>
                      (case map_of fs n of
                         None \<Rightarrow> Inl (if n = ''help'' \<or> n = ''h'' then ErrHelp else FlagNotDefined n)
                       | Some (FlagBool _) \<Rightarrow>
                           (let x = (case v of None \<Rightarrow> ''true'' | Some x \<Rightarrow> x)
                            in case ParseBool x of
                                 None \<Rightarrow> Inl (InvalidBoolean x n)
                               | Some b \<Rightarrow> Inr (True, AList.update n (FlagBool b) fs, rest))
                       | Some (FlagString _) \<Rightarrow>
                           (case v of
                              Some x \<Rightarrow> Inr (True, AList.update n (FlagString x) fs, rest)
                            | None \<Rightarrow>
                                (case rest of
                                   [] \<Rightarrow> Inl (FlagNeedsArgument n)
                                 | x # rest' \<Rightarrow> Inr (True, AList.update n (FlagString x) fs, rest'))))))"

lemma parseOne_shorter: "parseOne fs args = Inr (True, fs', rest) \<Longrightarrow> length rest < length args"
  by (auto simp: parseOne_def Let_def split: list.splits if_splits prod.splits option.splits flag_value.splits)

function flag_Parse :: "flag_set \<Rightarrow> string list \<Rightarrow> flag_error + flag_set \<times> string list" where
  "flag_Parse fs args =
     (case parseOne fs args of
        Inl e \<Rightarrow> Inl e
      | Inr (seen, fs', rest) \<Rightarrow> if seen then flag_Parse fs' rest else Inr (fs', rest))"
  by pat_completeness auto
termination
  by (relation "measure (length \<circ> snd)") (auto simp: parseOne_shorter)

declare flag_Parse.simps [simp del]

definition flag_string :: "flag_set \<Rightarrow> string \<Rightarrow> string" where
  "flag_string fs n = (case map_of fs n of Some (FlagString s) \<Rightarrow> s | _ \<Rightarrow> [])"

definition flag_bool :: "flag_set \<Rightarrow> string \<Rightarrow> bool" where
  "flag_bool fs n \<longleftrightarrow> map_of fs n = Some (FlagBool True)"

text \<open>The exit code of a process whose command line is refused: asking for help is not an error.\<close>

definition flag_exit :: "flag_error \<Rightarrow> nat" where
  "flag_exit e = (if e = ErrHelp then 0 else 2)"

subsection \<open>Parsing keeps the declared flags and their types\<close>

fun same_type :: "flag_value \<Rightarrow> flag_value \<Rightarrow> bool" where
  "same_type (FlagString _) (FlagString _) = True"
| "same_type (FlagBool _) (FlagBool _) = True"
| "same_type _ _ = False"

definition same_flags :: "flag_set \<Rightarrow> flag_set \<Rightarrow> bool" where
  "same_flags fs fs' \<longleftrightarrow> (\<forall>n. rel_option same_type (map_of fs n) (map_of fs' n))"

lemma same_type_refl [simp]: "same_type v v"
  by (cases v) simp_all

lemma same_type_trans: "same_type u v \<Longrightarrow> same_type v w \<Longrightarrow> same_type u w"
  by (cases u; cases v; cases w) simp_all

lemma same_flags_refl [simp]: "same_flags fs fs"
  by (simp add: same_flags_def option.rel_refl)

lemma same_option_trans:
  "rel_option same_type x y \<Longrightarrow> rel_option same_type y z \<Longrightarrow> rel_option same_type x z"
  by (cases x; cases y; cases z) (auto intro: same_type_trans)

lemma same_flags_trans: "same_flags f g \<Longrightarrow> same_flags g h \<Longrightarrow> same_flags f h"
  unfolding same_flags_def using same_option_trans by blast

lemma same_flags_update:
  assumes "map_of fs n = Some v" and "same_type v u"
  shows "same_flags fs (AList.update n u fs)"
  using assms by (auto simp: same_flags_def update_conv' option.rel_refl)

lemma parseOne_same: "parseOne fs args = Inr (seen, fs', rest) \<Longrightarrow> same_flags fs fs'"
  by (auto simp: parseOne_def Let_def intro!: same_flags_update
      split: list.splits if_splits prod.splits option.splits flag_value.splits)

lemma flag_Parse_same: "flag_Parse fs args = Inr (fs', rest) \<Longrightarrow> same_flags fs fs'"
proof (induction fs args arbitrary: fs' rest rule: flag_Parse.induct)
  case (1 fs args)
  from 1(2) obtain seen g t where one: "parseOne fs args = Inr (seen, g, t)"
    and more: "if seen then flag_Parse g t = Inr (fs', rest) else g = fs'"
    by (subst (asm) flag_Parse.simps) (auto split: sum.splits prod.splits if_splits)
  show ?case
  proof (cases seen)
    case True
    with more have "flag_Parse g t = Inr (fs', rest)" by simp
    then have "same_flags g fs'" using 1(1) [OF one refl refl True] by blast
    with parseOne_same [OF one] show ?thesis by (rule same_flags_trans)
  next
    case False
    with more parseOne_same [OF one] show ?thesis by simp
  qed
qed

text \<open>The four spellings of a string flag.\<close>

lemma parse_string_flag:
  assumes "map_of fs n = Some (FlagString d)" and "n \<noteq> []" and "CHR ''='' \<notin> set n" and "hd n \<noteq> CHR ''-''"
    and "dash \<in> {''-'', ''--''}"
  shows "flag_Parse fs ((dash @ n) # x # args) = flag_Parse (AList.update n (FlagString x) fs) args"
    and "flag_Parse fs ((dash @ n @ ''='' @ x) # args) = flag_Parse (AList.update n (FlagString x) fs) args"
proof -
  obtain c m where n: "n = c # m" and c: "c \<noteq> CHR ''-''" "c \<noteq> CHR ''=''" and m: "CHR ''='' \<notin> set m"
    using assms(2,3,4) by (cases n) auto
  have plain: "split_value n = (n, None)"
    using m by (auto simp: split_value_def n list_ex_iff)
  have "takeWhile (Not \<circ> (\<lambda>c. c = CHR ''='')) (m @ CHR ''='' # x) = m"
    and "dropWhile (Not \<circ> (\<lambda>c. c = CHR ''='')) (m @ CHR ''='' # x) = CHR ''='' # x"
    using m by (induction m) auto
  then have valued: "split_value (n @ ''='' @ x) = (n, Some x)"
    by (simp add: split_value_def n)
  have "parseOne fs ((dash @ n) # x # args) = Inr (True, AList.update n (FlagString x) fs, args)"
    using assms(1,5) plain c by (auto simp: parseOne_def n)
  then show "flag_Parse fs ((dash @ n) # x # args) = flag_Parse (AList.update n (FlagString x) fs) args"
    by (subst flag_Parse.simps) simp
  have "parseOne fs ((dash @ n @ ''='' @ x) # args) = Inr (True, AList.update n (FlagString x) fs, args)"
    using assms(1,5) valued c by (auto simp: parseOne_def n)
  then show "flag_Parse fs ((dash @ n @ ''='' @ x) # args) = flag_Parse (AList.update n (FlagString x) fs) args"
    by (subst flag_Parse.simps) simp
qed

end
