(* ===== verification/Service.thy ===== *)
theory Service
  imports CalloutProps Config GoFlag
begin

text \<open>
  The main program, \<open>cmd/nats-oidc-callout/main.go\<close>: start-up, reload, the options of the NATS connection, readiness and
  shutdown. The NATS client, nkeys, certificate parsing and the callout library are arguments. Effects on the
  outside act on the world \<open>'w\<close> that is threaded through, so that the order of discovery, listening and connecting is visible.
\<close>

subsection \<open>Libraries\<close>

record 'kp nkeys_lib =
  FromSeed :: "string \<Rightarrow> string + 'kp"
  PublicKey :: "'kp \<Rightarrow> string + string"
  IsValidPublicUserKey :: "string \<Rightarrow> bool"

text \<open>\<open>AppendCertsFromPEM\<close> into a new pool: \<open>None\<close> when no certificate was found.\<close>

record 'cert x509_lib =
  AppendCertsFromPEM :: "string \<Rightarrow> string option"
  LoadX509KeyPair :: "string \<Rightarrow> string \<Rightarrow> string + 'cert"

record 'cert tls_Config =
  MinVersion :: nat
  Certificates :: "'cert list"
  TLS_Pool :: "string option"

datatype ('kp, 'cert) nats_option =
    NatsName string
  | MaxReconnects int
  | ReconnectWait duration
  | ReconnectJitter duration duration
  | DisconnectErrHandler
  | ReconnectHandler
  | ClosedHandler
  | ErrorHandler
  | UserCredentials string
  | UserInfo string string
  | Nkey string 'kp
  | Secure "'cert tls_Config"

record ('kp, 'cert, 'nc, 'svc, 'w) nats_lib =
  nats_Connect :: "string \<Rightarrow> ('kp, 'cert) nats_option list \<Rightarrow> 'w \<Rightarrow> (string + 'nc) \<times> 'w"
  NewAuthorizationService :: "'nc \<Rightarrow> 'kp \<Rightarrow> int \<Rightarrow> 'kp option \<Rightarrow> 'w \<Rightarrow> (string + 'svc) \<times> 'w"
  net_Listen :: "string \<Rightarrow> 'w \<Rightarrow> string option \<times> 'w"
  IsConnected :: "'nc \<Rightarrow> bool"
  nc_Drain :: "'nc \<Rightarrow> 'w \<Rightarrow> string option \<times> 'w"
  nc_IsClosed :: "'nc \<Rightarrow> 'w \<Rightarrow> time \<Rightarrow> bool"
  nc_Close :: "'nc \<Rightarrow> 'w \<Rightarrow> 'w"

text \<open>
  \<open>nc_IsClosed nc w t\<close> is the answer at time \<open>t\<close> when nothing but the background work of the connection has happened since
  \<open>w\<close>. The clock: \<open>time_Now\<close> reads it, and a sleep of \<open>d\<close> begun at \<open>t\<close> ends at \<open>t + d + time_Late t\<close>.
\<close>

record 'w time_lib =
  time_Now :: "'w \<Rightarrow> time"
  time_Late :: "time \<Rightarrow> nat"

datatype service_error =
    ConfigError config_error
  | IssuerSeedError string
  | XKeySeedError string
  | ReadOIDCCACert string
  | NoOIDCCertificates string
  | VerifierError new_error
  | MetricsListen string string
  | NkeySeedError string
  | NotAUserSeed
  | BothCertAndKeyRequired
  | LoadClientCertificate string
  | ReadCACert string
  | NoCACertificates string
  | ConnectError string
  | StartCalloutService string

subsection \<open>Building the verifier\<close>

definition load_pool :: "'cert x509_lib \<Rightarrow> file_system \<Rightarrow> string \<Rightarrow> service_error + string option" where
  "load_pool x509 fs path =
     (if path = [] then Inr None
      else case fs path of
        Inl e \<Rightarrow> Inl (ReadOIDCCACert e)
      | Inr pem \<Rightarrow>
          (case AppendCertsFromPEM x509 pem of
             None \<Rightarrow> Inl (NoOIDCCertificates path)
           | Some pool \<Rightarrow> Inr (Some pool)))"

definition verifier_options :: "'prg Config \<Rightarrow> string option \<Rightarrow> Options" where
  "verifier_options cfg rootCAs =
     \<lparr>Opt_Issuers = map (\<lambda>iss. \<lparr>URL = Issuer_URL iss, RequireClaims = Issuer_RequireClaims iss\<rparr>) (Cfg_Issuers cfg),
      Opt_Audiences = Cfg_Audiences cfg, SigningAlgs = Cfg_SigningAlgs cfg, HTTPTimeout = Cfg_HTTPTimeout cfg,
      RootCAs = rootCAs, JWKSRefreshInterval = Cfg_JWKSRefreshInterval cfg\<rparr>"

definition buildVerifier ::
    "('prov, 'key, 'v, 'c, 'w) oidc_lib \<Rightarrow> 'cert x509_lib \<Rightarrow> file_system \<Rightarrow> 'prg Config \<Rightarrow> 'w \<Rightarrow>
     (service_error + 'v Verifier) \<times> 'w" where
  "buildVerifier oidc x509 fs cfg w =
     (case load_pool x509 fs (OIDCCACert cfg) of
        Inl e \<Rightarrow> (Inl e, w)
      | Inr rootCAs \<Rightarrow>
          (case verifier_New oidc (verifier_options cfg rootCAs) w of
             (Inl e, w') \<Rightarrow> (Inl (VerifierError e), w')
           | (Inr v, w') \<Rightarrow> (Inr v, w')))"

subsection \<open>Reload\<close>

datatype restart_warning = WarnNATS | WarnSeeds | WarnMetrics | WarnWorkers

definition warnUnreloadable :: "'prg Config \<Rightarrow> 'prg Config \<Rightarrow> restart_warning list" where
  "warnUnreloadable oldCfg newCfg =
     (if NATS oldCfg \<noteq> NATS newCfg then [WarnNATS] else []) @
     (if IssuerAccountSeed oldCfg \<noteq> IssuerAccountSeed newCfg \<or> XKeySeed oldCfg \<noteq> XKeySeed newCfg then [WarnSeeds] else []) @
     (if Cfg_Metrics oldCfg \<noteq> Cfg_Metrics newCfg then [WarnMetrics] else []) @
     (if Workers oldCfg \<noteq> Workers newCfg \<or> VerifyTimeout oldCfg \<noteq> VerifyTimeout newCfg then [WarnWorkers] else [])"

datatype reload_log =
    ReloadFailed service_error
  | RestartRequired restart_warning
  | Reloaded nat nat

text \<open>
  The arguments of \<open>reloadConfig\<close>: libraries, files, the configuration the process started with, and the authorizer. The
  result is the authorizer, the world and the log.
\<close>

definition reloadConfig ::
    "('prov, 'key, 'v, 'c, 'w) oidc_lib \<Rightarrow> ('env, 'ast, 'prg) cel_lib \<Rightarrow> 'prg Config yaml_lib \<Rightarrow> 'prg Policy yaml_lib \<Rightarrow>
     'cert x509_lib \<Rightarrow> file_system \<Rightarrow> string \<Rightarrow> 'prg Config \<Rightarrow> ('v, 'prg, 'kp, 'n) Authorizer \<Rightarrow> 'w \<Rightarrow>
     ('v, 'prg, 'kp, 'n) Authorizer \<times> 'w \<times> reload_log list" where
  "reloadConfig oidc cel yaml pyaml x509 fs configPath startup a w =
     (case Load cel yaml pyaml fs configPath of
        Inl e \<Rightarrow> (a, w, [ReloadFailed (ConfigError e)])
      | Inr newCfg \<Rightarrow>
          (let warnings = map RestartRequired (warnUnreloadable startup newCfg)
           in case buildVerifier oidc x509 fs newCfg w of
                (Inl e, w') \<Rightarrow> (a, w', warnings @ [ReloadFailed e])
              | (Inr v, w') \<Rightarrow>
                  (Reload v (Cfg_Policy newCfg) a, w',
                   warnings @ [Reloaded (length (Cfg_Issuers newCfg)) (length (Rules (Cfg_Policy newCfg)))])))"

subsection \<open>The NATS connection\<close>

definition natsReconnectWait :: duration where "natsReconnectWait = 2 * second"
definition natsReconnectJitter :: duration where "natsReconnectJitter = 500 * millisecond"
definition natsReconnectJitterTLS :: duration where "natsReconnectJitterTLS = second"

definition nkeyOption :: "'kp nkeys_lib \<Rightarrow> string \<Rightarrow> service_error + ('kp, 'cert) nats_option" where
  "nkeyOption nk seed =
     (case FromSeed nk seed of
        Inl e \<Rightarrow> Inl (NkeySeedError e)
      | Inr kp \<Rightarrow>
          (case PublicKey nk kp of
             Inl e \<Rightarrow> Inl (NkeySeedError e)
           | Inr pub \<Rightarrow> if \<not> IsValidPublicUserKey nk pub then Inl NotAUserSeed else Inr (Nkey pub kp)))"

definition client_certificates :: "'cert x509_lib \<Rightarrow> NATSConfig \<Rightarrow> service_error + 'cert list" where
  "client_certificates x509 cfg =
     (if ClientCert cfg \<noteq> [] \<or> ClientKey cfg \<noteq> []
      then if ClientCert cfg = [] \<or> ClientKey cfg = [] then Inl BothCertAndKeyRequired
           else (case LoadX509KeyPair x509 (ClientCert cfg) (ClientKey cfg) of
                   Inl e \<Rightarrow> Inl (LoadClientCertificate e)
                 | Inr cert \<Rightarrow> Inr [cert])
      else Inr [])"

definition ca_pool :: "'cert x509_lib \<Rightarrow> file_system \<Rightarrow> NATSConfig \<Rightarrow> service_error + string option" where
  "ca_pool x509 fs cfg =
     (if CACert cfg = [] then Inr None
      else case fs (CACert cfg) of
        Inl e \<Rightarrow> Inl (ReadCACert e)
      | Inr pem \<Rightarrow>
          (case AppendCertsFromPEM x509 pem of
             None \<Rightarrow> Inl (NoCACertificates (CACert cfg))
           | Some pool \<Rightarrow> Inr (Some pool)))"

definition tlsConfig :: "'cert x509_lib \<Rightarrow> file_system \<Rightarrow> NATSConfig \<Rightarrow> service_error + 'cert tls_Config option" where
  "tlsConfig x509 fs cfg =
     (if ClientCert cfg = [] \<and> ClientKey cfg = [] \<and> CACert cfg = [] then Inr None
      else case client_certificates x509 cfg of
        Inl e \<Rightarrow> Inl e
      | Inr certs \<Rightarrow>
          (case ca_pool x509 fs cfg of
             Inl e \<Rightarrow> Inl e
           | Inr pool \<Rightarrow> Inr (Some \<lparr>MinVersion = 12, Certificates = certs, TLS_Pool = pool\<rparr>)))"

definition base_options :: "string \<Rightarrow> ('kp, 'cert) nats_option list" where
  "base_options version =
     [NatsName (''nats-oidc-callout/'' @ version), MaxReconnects (- 1), ReconnectWait natsReconnectWait,
      ReconnectJitter natsReconnectJitter natsReconnectJitterTLS, DisconnectErrHandler, ReconnectHandler, ClosedHandler,
      ErrorHandler]"

definition auth_option :: "'kp nkeys_lib \<Rightarrow> NATSConfig \<Rightarrow> service_error + ('kp, 'cert) nats_option list" where
  "auth_option nk cfg =
     (if Credentials cfg \<noteq> [] then Inr [UserCredentials (Credentials cfg)]
      else if Username cfg \<noteq> [] then Inr [UserInfo (Username cfg) (Password cfg)]
      else if NkeySeed cfg \<noteq> [] then map_sum id (\<lambda>opt. [opt]) (nkeyOption nk (NkeySeed cfg))
      else Inr [])"

definition connectNATS ::
    "('kp, 'cert, 'nc, 'svc, 'w) nats_lib \<Rightarrow> 'kp nkeys_lib \<Rightarrow> 'cert x509_lib \<Rightarrow> file_system \<Rightarrow> string \<Rightarrow> NATSConfig \<Rightarrow> 'w \<Rightarrow>
     (service_error + 'nc) \<times> 'w" where
  "connectNATS nats nk x509 fs version cfg w =
     (case auth_option nk cfg of
        Inl e \<Rightarrow> (Inl e, w)
      | Inr auth \<Rightarrow>
          (case tlsConfig x509 fs cfg of
             Inl e \<Rightarrow> (Inl e, w)
           | Inr tls \<Rightarrow>
               (case nats_Connect nats (NATS_URL cfg)
                       (base_options version @ auth @ (case tls of None \<Rightarrow> [] | Some t \<Rightarrow> [Secure t])) w of
                  (Inl e, w') \<Rightarrow> (Inl (ConnectError e), w')
                | (Inr nc, w') \<Rightarrow> (Inr nc, w'))))"

text \<open>The failure channel holds one error; a second one is dropped. The closed handler and the error handler report to it.\<close>

datatype nats_failure = ClosedPermanently "string option" | SubscriptionRevoked string

definition fail :: "nats_failure \<Rightarrow> nats_failure option \<Rightarrow> nats_failure option" where
  "fail e failed = (case failed of None \<Rightarrow> Some e | Some x \<Rightarrow> Some x)"

definition onClosed :: "string option \<Rightarrow> nats_failure option \<Rightarrow> nats_failure option" where
  "onClosed lastError failed = fail (ClosedPermanently lastError) failed"

text \<open>\<open>subj\<close> is the callout library's request subject, printed as a quoted string.\<close>

definition authSubViolation :: "string \<Rightarrow> string" where
  "authSubViolation subj = ''Subscription to '' @ js subj"

definition onError :: "string \<Rightarrow> bool \<Rightarrow> string \<Rightarrow> nats_failure option \<Rightarrow> nats_failure option" where
  "onError subj isPermissionViolation msg failed =
     (if isPermissionViolation \<and> strings_Contains msg (authSubViolation subj) then fail (SubscriptionRevoked msg) failed
      else failed)"

text \<open>The callback of the callout library keeps the first error that marks a failure of the micro service.\<close>

definition onServiceError :: "bool \<Rightarrow> string \<Rightarrow> string option \<Rightarrow> string option" where
  "onServiceError isErrService e svcFailed =
     (if isErrService then (case svcFailed of None \<Rightarrow> Some e | Some x \<Rightarrow> Some x) else svcFailed)"

subsection \<open>Shutdown\<close>

definition shutdownDrainTimeout :: duration where "shutdownDrainTimeout = 10 * second"

text \<open>The polling loop of \<open>stopService\<close>; \<open>isClosed t\<close> says whether the connection is closed at time \<open>t\<close>.\<close>

function drain_wait :: "(time \<Rightarrow> bool) \<Rightarrow> (time \<Rightarrow> nat) \<Rightarrow> time \<Rightarrow> time \<Rightarrow> time" where
  "drain_wait isClosed late deadline t =
     (if \<not> isClosed t \<and> t < deadline then drain_wait isClosed late deadline (t + 10 * millisecond + int (late t)) else t)"
  by pat_completeness auto
termination
  by (relation "measure (\<lambda>(_, _, deadline, t). nat (deadline - t))") (auto simp: millisecond_def)

declare drain_wait.simps [simp del]

text \<open>The result is the time at which the connection is closed, and the world after it.\<close>

definition stopService :: "('kp, 'cert, 'nc, 'svc, 'w) nats_lib \<Rightarrow> 'w time_lib \<Rightarrow> 'nc \<Rightarrow> 'w \<Rightarrow> time \<times> 'w" where
  "stopService nats tm nc w =
     (case nc_Drain nats nc w of
        (Some _, w') \<Rightarrow> (time_Now tm w', nc_Close nats nc w')
      | (None, w') \<Rightarrow>
          (let t = time_Now tm w'
           in (drain_wait (nc_IsClosed nats nc w') (time_Late tm) (t + shutdownDrainTimeout) t, nc_Close nats nc w')))"

subsection \<open>Start-up and readiness\<close>

text \<open>The start-up sequence. An exit after the connection is made goes through the deferred \<open>stopService\<close>.\<close>

record ('v, 'prg, 'kp, 'n, 'nc, 'svc) running =
  run_authorizer :: "('v, 'prg, 'kp, 'n) Authorizer"
  run_config :: "'prg Config"
  run_nc :: 'nc
  run_svc :: 'svc

definition load_xkey :: "'kp nkeys_lib \<Rightarrow> 'prg Config \<Rightarrow> service_error + 'kp option" where
  "load_xkey nk cfg =
     (if XKeySeed cfg = [] then Inr None
      else case FromSeed nk (XKeySeed cfg) of Inl e \<Rightarrow> Inl (XKeySeedError e) | Inr kp \<Rightarrow> Inr (Some kp))"

definition start_metrics ::
    "('kp, 'cert, 'nc, 'svc, 'w) nats_lib \<Rightarrow> 'prg Config \<Rightarrow> 'w \<Rightarrow> (service_error + 'nc Metrics option) \<times> 'w" where
  "start_metrics nats cfg w =
     (if \<not> Enabled (Cfg_Metrics cfg) then (Inr None, w)
      else case net_Listen nats (Address (Cfg_Metrics cfg)) w of
        (Some e, w') \<Rightarrow> (Inl (MetricsListen (Address (Cfg_Metrics cfg)) e), w')
      | (None, w') \<Rightarrow> (Inr (Some metrics_New), w'))"

definition start_service ::
    "('kp, 'cert, 'nc, 'svc, 'w) nats_lib \<Rightarrow> 'w time_lib \<Rightarrow> 'kp nkeys_lib \<Rightarrow> 'cert x509_lib \<Rightarrow> file_system \<Rightarrow> string \<Rightarrow>
     'prg Config \<Rightarrow> 'kp \<Rightarrow> 'kp option \<Rightarrow> 'v Verifier \<Rightarrow> 'nc Metrics option \<Rightarrow> 'w \<Rightarrow>
     (service_error + ('v, 'prg, 'kp, 'nc, 'nc, 'svc) running) \<times> 'w" where
  "start_service nats tm nk x509 fs version cfg key xkey v m w =
     (case connectNATS nats nk x509 fs version (NATS cfg) w of
        (Inl e, w1) \<Rightarrow> (Inl e, w1)
      | (Inr nc, w1) \<Rightarrow>
          (let m' = TrackNATSConnection (IsConnected nats) m;
               a = callout_New v (Cfg_Policy cfg) key m' (VerifyTimeout cfg)
           in case NewAuthorizationService nats nc key (Workers cfg) xkey w1 of
                (Inl e, w2) \<Rightarrow> (Inl (StartCalloutService e), snd (stopService nats tm nc w2))
              | (Inr svc, w2) \<Rightarrow>
                  (Inr \<lparr>run_authorizer = a, run_config = cfg, run_nc = nc, run_svc = svc\<rparr>, w2)))"

definition run_start ::
    "('kp, 'cert, 'nc, 'svc, 'w) nats_lib \<Rightarrow> 'w time_lib \<Rightarrow> 'kp nkeys_lib \<Rightarrow> ('prov, 'key, 'v, 'c, 'w) oidc_lib \<Rightarrow>
     ('env, 'ast, 'prg) cel_lib \<Rightarrow> 'prg Config yaml_lib \<Rightarrow> 'prg Policy yaml_lib \<Rightarrow> 'cert x509_lib \<Rightarrow> file_system \<Rightarrow>
     string \<Rightarrow> string \<Rightarrow> 'w \<Rightarrow> (service_error + ('v, 'prg, 'kp, 'nc, 'nc, 'svc) running) \<times> 'w" where
  "run_start nats tm nk oidc cel yaml pyaml x509 fs version configPath w =
     (case Load cel yaml pyaml fs configPath of
        Inl e \<Rightarrow> (Inl (ConfigError e), w)
      | Inr cfg \<Rightarrow>
        (case FromSeed nk (IssuerAccountSeed cfg) of
           Inl e \<Rightarrow> (Inl (IssuerSeedError e), w)
         | Inr key \<Rightarrow>
           (case load_xkey nk cfg of
              Inl e \<Rightarrow> (Inl e, w)
            | Inr xkey \<Rightarrow>
              (case buildVerifier oidc x509 fs cfg w of
                 (Inl e, w1) \<Rightarrow> (Inl e, w1)
               | (Inr v, w1) \<Rightarrow>
                 (case start_metrics nats cfg w1 of
                    (Inl e, w2) \<Rightarrow> (Inl e, w2)
                  | (Inr m, w2) \<Rightarrow> start_service nats tm nk x509 fs version cfg key xkey v m w2)))))"

datatype run_event = ContextDone_ev | NATSFailed nats_failure | ServiceFailed string

text \<open>The final select: nil on shutdown, an error when the connection or the service is gone for good.\<close>

datatype run_error = RunStart service_error | RunNATS nats_failure | RunServiceStopped string

definition run_wait :: "run_event \<Rightarrow> run_error option" where
  "run_wait ev =
     (case ev of
        ContextDone_ev \<Rightarrow> None
      | NATSFailed e \<Rightarrow> Some (RunNATS e)
      | ServiceFailed e \<Rightarrow> Some (RunServiceStopped e))"

text \<open>
  The whole of \<open>run\<close>. What happens between start-up and the final select, requests, reloads, signals and failures, is the
  argument \<open>serving\<close>: it yields the event that ends the wait.
\<close>

definition run ::
    "('kp, 'cert, 'nc, 'svc, 'w) nats_lib \<Rightarrow> 'w time_lib \<Rightarrow> 'kp nkeys_lib \<Rightarrow> ('prov, 'key, 'v, 'c, 'w) oidc_lib \<Rightarrow>
     ('env, 'ast, 'prg) cel_lib \<Rightarrow> 'prg Config yaml_lib \<Rightarrow> 'prg Policy yaml_lib \<Rightarrow> 'cert x509_lib \<Rightarrow> file_system \<Rightarrow>
     string \<Rightarrow> (('v, 'prg, 'kp, 'nc, 'nc, 'svc) running \<Rightarrow> 'w \<Rightarrow> run_event \<times> 'w) \<Rightarrow> string \<Rightarrow> 'w \<Rightarrow>
     run_error option \<times> 'w" where
  "run nats tm nk oidc cel yaml pyaml x509 fs version serving path w =
     (case run_start nats tm nk oidc cel yaml pyaml x509 fs version path w of
        (Inl e, w1) \<Rightarrow> (Some (RunStart e), w1)
      | (Inr r, w1) \<Rightarrow>
          (case serving r w1 of (ev, w2) \<Rightarrow> (run_wait ev, snd (stopService nats tm (run_nc r) w2))))"

definition service_ready :: "bool \<Rightarrow> bool \<Rightarrow> bool \<Rightarrow> bool" where
  "service_ready started connected stopped \<longleftrightarrow> started \<and> connected \<and> \<not> stopped"

datatype log_level = LevelDebug | LevelInfo | LevelWarn | LevelError

definition newLogger :: "string \<Rightarrow> log_level" where
  "newLogger level =
     (if level = ''debug'' then LevelDebug else if level = ''warn'' then LevelWarn
      else if level = ''error'' then LevelError else LevelInfo)"

text \<open>Build metadata: the defaults of the variables that the linker may replace.\<close>

record build_info =
  build_version :: string
  build_commit :: string
  build_date :: string

definition dev_build :: build_info where
  "dev_build = \<lparr>build_version = ''dev'', build_commit = ''none'', build_date = ''unknown''\<rparr>"

definition version_line :: "build_info \<Rightarrow> string" where
  "version_line b = ''nats-oidc-callout '' @ build_version b @ '' (commit '' @ build_commit b @ '', built '' @ build_date b @ '')'' @ [CHR 0x0A]"

definition main_flags :: flag_set where
  "main_flags = [(''config'', FlagString []), (''log-level'', FlagString ''info''), (''version'', FlagBool False)]"

text \<open>\<open>main\<close> on the arguments of the process, with \<open>run\<close> as above for an argument: the exit code, what it prints to
  standard output and the world it leaves.\<close>

definition main ::
    "build_info \<Rightarrow> string list \<Rightarrow> (log_level \<Rightarrow> string \<Rightarrow> 'w \<Rightarrow> run_error option \<times> 'w) \<Rightarrow> 'w \<Rightarrow> nat \<times> string \<times> 'w" where
  "main b args run_service w =
     (case flag_Parse main_flags args of
        Inl e \<Rightarrow> (flag_exit e, [], w)
      | Inr (fl, _) \<Rightarrow>
          let configPath = flag_string fl ''config''; logLevel = flag_string fl ''log-level''; showVersion = flag_bool fl ''version''
          in if showVersion then (0, version_line b, w)
             else let logger = newLogger logLevel
                  in if configPath = [] then (2, [], w)
                     else (case run_service logger configPath w of (None, w') \<Rightarrow> (0, [], w') | (Some _, w') \<Rightarrow> (1, [], w')))"

end
