(* ===== verification/ServiceProps.thy ===== *)
theory ServiceProps
  imports Service
begin

text \<open>
  The guarantees of the running service: what its authorizer works with after start-up and any number of reloads, and the
  connection's security settings.
\<close>

subsection \<open>Example service\<close>

definition example_x509 :: "string x509_lib" where
  "example_x509 = \<lparr>AppendCertsFromPEM = (\<lambda>pem. if pem = [] then None else Some pem), LoadX509KeyPair = (\<lambda>c k. Inr (c @ k))\<rparr>"

definition example_nkeys :: "bool nkeys_lib" where
  "example_nkeys = \<lparr>FromSeed = (\<lambda>seed. Inr (seed \<noteq> [])), PublicKey = (\<lambda>_. Inr ''U''), IsValidPublicUserKey = (\<lambda>pub. pub = ''U'')\<rparr>"

definition example_nats :: "(bool, string, unit, unit, nat) nats_lib" where
  "example_nats = \<lparr>nats_Connect = (\<lambda>url opts w. (Inr (), Suc w)), NewAuthorizationService = (\<lambda>nc key workers xkey w. (Inr (), Suc w)),
     net_Listen = (\<lambda>addr w. (None, Suc w)), IsConnected = (\<lambda>_. True), nc_Drain = (\<lambda>_ w. (None, Suc w)),
     nc_IsClosed = (\<lambda>_ w t. False), nc_Close = (\<lambda>_ w. 100)\<rparr>"

definition example_time :: "nat time_lib" where
  "example_time = \<lparr>time_Now = int, time_Late = (\<lambda>_. 0)\<rparr>"

definition example_files :: file_system where
  "example_files = (\<lambda>_. Inr ''doc'')"

definition example_running :: "(string, bool, bool, unit, unit, unit) running" where
  "example_running = \<lparr>run_authorizer = callout_New example_verifier example_validated True
       (TrackNATSConnection (\<lambda>_. True) (Some metrics_New)) Cfg_DefaultVerifyTimeout,
     run_config = example_loaded, run_nc = (), run_svc = ()\<rparr>"

lemma example_files_Load: "Load const_cel example_config_yaml example_yaml example_files path = Inr example_loaded"
  unfolding example_files_def by (rule example_Load)

lemmas example_loaded_simps = example_loaded_def with_defaults_def example_config_def emptyConfig_def metrics_defaults_def

lemma example_loaded_fields [simp]:
  "IssuerAccountSeed example_loaded = ''SA''" "XKeySeed example_loaded = []" "Workers example_loaded = 8"
  "VerifyTimeout example_loaded = Cfg_DefaultVerifyTimeout" "Cfg_Policy example_loaded = example_validated"
  "Enabled (Cfg_Metrics example_loaded)" "NkeySeed (NATS example_loaded) = ''SU''" "Credentials (NATS example_loaded) = []"
  "Username (NATS example_loaded) = []" "CACert (NATS example_loaded) = []" "ClientCert (NATS example_loaded) = []"
  "ClientKey (NATS example_loaded) = []"
  by (simp_all add: example_loaded_simps DefaultWorkers_def)

lemma example_libs [simp]:
  "FromSeed example_nkeys seed = Inr (seed \<noteq> [])" "PublicKey example_nkeys kp = Inr ''U''"
  "IsValidPublicUserKey example_nkeys pub = (pub = ''U'')" "nats_Connect example_nats url opts w = (Inr (), Suc w)"
  "NewAuthorizationService example_nats nc key workers xkey w = (Inr (), Suc w)"
  "net_Listen example_nats addr w = (None, Suc w)" "IsConnected example_nats = (\<lambda>_. True)"
  "nc_Drain example_nats nc w = (None, Suc w)" "nc_IsClosed example_nats nc w t = False" "nc_Close example_nats nc w = 100"
  by (simp_all add: example_nkeys_def example_nats_def)

lemma example_buildVerifier:
  "buildVerifier example_oidc example_x509 example_files example_loaded w = (Inr example_verifier, Suc w)"
  by (simp add: buildVerifier_def load_pool_def verifier_options_def verifier_New_def example_loaded_simps example_oidc_def
      example_verifier_def)

lemma example_run_start:
  "run_start example_nats example_time example_nkeys example_oidc const_cel example_config_yaml example_yaml example_x509 example_files
     ''dev'' ''c'' 0 = (Inr example_running, 4)"
  by (simp add: run_start_def example_files_Load example_buildVerifier load_xkey_def start_metrics_def start_service_def
      connectNATS_def auth_option_def nkeyOption_def tlsConfig_def example_running_def)

lemma example_reload:
  "reloadConfig example_oidc const_cel example_config_yaml example_yaml example_x509 example_files path example_loaded a w =
     (Reload example_verifier example_validated a, Suc w, [Reloaded 1 2])"
  by (simp add: reloadConfig_def example_files_Load example_buildVerifier warnUnreloadable_def)
     (simp add: example_loaded_simps example_validated_def)

lemma example_state_reply:
  assumes "state a = \<lparr>rs_verifier = example_verifier, rs_policy = example_validated\<rparr>" and "signKey a"
  shows "reply (Authorize example_jwt example_oidc const_cel (\<lambda>v. v) clk a example_request w) = Some (Inr ''jwt UA'')"
  using assms
  by (simp add: Authorize_def example_request_def example_Verify verified_evaluates example_jwt_def example_token_nonempty
      userClaims_def Let_def)

subsection \<open>The ruleset in use always comes from a valid configuration\<close>

text \<open>
  A ruleset built from a loaded configuration: its policy is the validated one, its trust set the configured one, every issuer has
  the verifier that discovery built for it, and the certificates trusted for that are the configured ones.
\<close>

definition issuer_option :: "IssuerConfig \<Rightarrow> IssuerOption" where
  "issuer_option iss = \<lparr>URL = Issuer_URL iss, RequireClaims = Issuer_RequireClaims iss\<rparr>"

definition installed_from ::
    "('prov, 'key, 'v, 'c, 'w) oidc_lib \<Rightarrow> 'cert x509_lib \<Rightarrow> ('env, 'ast, 'prg) cel_lib \<Rightarrow> 'prg Config \<Rightarrow> ('v, 'prg) ruleset \<Rightarrow> bool" where
  "installed_from oidc x509 cel cfg st \<longleftrightarrow>
     config_valid cel cfg \<and> rs_policy st = Cfg_Policy cfg \<and> Validate cel (rs_policy st) = (rs_policy st, None) \<and>
     dom (issuers (rs_verifier st)) = Issuer_URL ` set (Cfg_Issuers cfg) \<and>
     audiences (rs_verifier st) = set (Cfg_Audiences cfg) \<and>
     (\<exists>fs pool. load_pool x509 fs (OIDCCACert cfg) = Inr pool \<and>
        (\<forall>iss \<in> set (Cfg_Issuers cfg). \<exists>entry. issuers (rs_verifier st) (Issuer_URL iss) = Some entry \<and>
           built oidc (verifier_options cfg pool) (discovery_client (verifier_options cfg pool)) (issuer_option iss) entry))"

lemma verifier_New_config:
  assumes "verifier_New oidc opts w = (Inr v, w')"
  shows "dom (issuers v) = URL ` set (Opt_Issuers opts) \<and> audiences v = set (Opt_Audiences opts) \<and>
    (\<forall>iss \<in> set (Opt_Issuers opts). \<exists>entry. issuers v (URL iss) = Some entry \<and>
       built oidc opts (discovery_client opts) iss entry)"
proof -
  from assms obtain m where m: "new_issuers oidc opts (discovery_client opts) (Opt_Issuers opts) Map.empty w = (Inr m, w')"
    and v: "v = \<lparr>issuers = m, audiences = set (Opt_Audiences opts)\<rparr>"
    by (auto simp: verifier_New_def split: if_splits prod.splits sum.splits)
  from new_issuers_Inr [OF m] v show ?thesis by simp
qed

lemma buildVerifier_config:
  assumes "buildVerifier oidc x509 fs cfg w = (Inr v, w')"
  shows "dom (issuers v) = Issuer_URL ` set (Cfg_Issuers cfg) \<and> audiences v = set (Cfg_Audiences cfg) \<and>
    (\<exists>fs pool. load_pool x509 fs (OIDCCACert cfg) = Inr pool \<and>
       (\<forall>iss \<in> set (Cfg_Issuers cfg). \<exists>entry. issuers v (Issuer_URL iss) = Some entry \<and>
          built oidc (verifier_options cfg pool) (discovery_client (verifier_options cfg pool)) (issuer_option iss) entry))"
proof -
  from assms obtain pool where p: "load_pool x509 fs (OIDCCACert cfg) = Inr pool"
    and v: "verifier_New oidc (verifier_options cfg pool) w = (Inr v, w')"
    by (auto simp: buildVerifier_def split: sum.splits prod.splits)
  have o: "Opt_Issuers (verifier_options cfg pool) = map issuer_option (Cfg_Issuers cfg)"
    "Opt_Audiences (verifier_options cfg pool) = Cfg_Audiences cfg" "URL (issuer_option iss) = Issuer_URL iss" for iss
    by (auto simp: verifier_options_def issuer_option_def)
  have "\<forall>iss \<in> set (Cfg_Issuers cfg). \<exists>entry. issuers v (Issuer_URL iss) = Some entry \<and>
      built oidc (verifier_options cfg pool) (discovery_client (verifier_options cfg pool)) (issuer_option iss) entry"
    using verifier_New_config [OF v] by (simp add: o)
  with p verifier_New_config [OF v] show ?thesis by (auto simp: o image_image)
qed

lemma Load_valid:
  assumes "Load cel yaml pyaml fs path = Inr c"
  shows "config_valid cel c \<and> Validate cel (Cfg_Policy c) = (Cfg_Policy c, None)"
  using assms
proof (rule Load_InrE)
  fix data cfg pol assume "Config_Validate cel (with_defaults (cfg\<lparr>Cfg_Policy := pol\<rparr>)) = (c, None)"
  from Config_Validate_ok [OF this] show ?thesis by (auto intro: Validate_again)
qed

lemma installed_fresh:
  assumes "Load cel yaml pyaml fs path = Inr cfg" and "buildVerifier oidc x509 fs cfg w = (Inr v, w')"
  shows "installed_from oidc x509 cel cfg \<lparr>rs_verifier = v, rs_policy = Cfg_Policy cfg\<rparr>"
  using Load_valid [OF assms(1)] buildVerifier_config [OF assms(2)] by (simp only: installed_from_def ruleset.simps simp_thms)

text \<open>C22: a reload is all or nothing. Either it fails, says so in the log and the authorizer is untouched, or the new
  configuration loaded, its issuers were discovered, and verifier and policy are both replaced by those of the new
  configuration; the signing key, the metrics and the verification timeout are kept in either case.\<close>

theorem reload_all_or_nothing:
  assumes "reloadConfig oidc cel yaml pyaml x509 fs path startup a w = (a', w', log)"
  shows "(a' = a \<and> (\<exists>e. last log = ReloadFailed e)) \<or>
    (\<exists>cfg. Load cel yaml pyaml fs path = Inr cfg \<and> installed_from oidc x509 cel cfg (state a') \<and>
       signKey a' = signKey a \<and> metrics a' = metrics a \<and> verifyTimeout a' = verifyTimeout a)"
  using assms
  by (auto simp: reloadConfig_def Reload_def Let_def split: sum.splits prod.splits dest: installed_fresh)

theorem reload_all_or_nothing_witness:
  "\<exists>cfg. Load const_cel example_config_yaml example_yaml example_files ''c'' = Inr cfg \<and>
     installed_from example_oidc example_x509 const_cel cfg (state (Reload example_verifier example_validated (example_authorizer True)))"
  using reload_all_or_nothing [OF example_reload [of "''c''" "example_authorizer True" 0]] by auto

lemma reloadConfig_installed:
  assumes "reloadConfig oidc cel yaml pyaml x509 fs path startup a w = (a', w', log)"
    and "\<exists>cfg. installed_from oidc x509 cel cfg (state a)"
  shows "\<exists>cfg. installed_from oidc x509 cel cfg (state a')"
  using assms
  by (fastforce simp: reloadConfig_def Reload_def Let_def split: sum.splits prod.splits dest: installed_fresh)

lemma run_start_installed:
  assumes "run_start nats tm nk oidc cel yaml pyaml x509 fs version path w = (Inr r, w')"
  shows "installed_from oidc x509 cel (run_config r) (state (run_authorizer r))"
  using assms
  by (auto simp: run_start_def start_service_def callout_New_def Let_def split: sum.splits prod.splits dest: installed_fresh)

text \<open>The reloads of a running service: each one finds the files and the world of its moment.\<close>

fun reloads ::
    "('prov, 'key, 'v, 'c, 'w) oidc_lib \<Rightarrow> ('env, 'ast, 'prg) cel_lib \<Rightarrow> 'prg Config yaml_lib \<Rightarrow> 'prg Policy yaml_lib \<Rightarrow>
     'cert x509_lib \<Rightarrow> string \<Rightarrow> 'prg Config \<Rightarrow> (file_system \<times> 'w) list \<Rightarrow> ('v, 'prg, 'kp, 'n) Authorizer \<Rightarrow>
     ('v, 'prg, 'kp, 'n) Authorizer" where
  "reloads oidc cel yaml pyaml x509 path startup [] a = a"
| "reloads oidc cel yaml pyaml x509 path startup ((fs, w) # rest) a =
     reloads oidc cel yaml pyaml x509 path startup rest
       (fst (reloadConfig oidc cel yaml pyaml x509 fs path startup a w))"

lemma reloads_installed:
  "\<exists>cfg. installed_from oidc x509 cel cfg (state a) \<Longrightarrow>
   \<exists>cfg. installed_from oidc x509 cel cfg (state (reloads oidc cel yaml pyaml x509 path startup rs a))"
proof (induction oidc cel yaml pyaml x509 path startup rs a rule: reloads.induct)
  case (2 oidc cel yaml pyaml x509 path startup fs w rest a)
  obtain a' w' log where r: "reloadConfig oidc cel yaml pyaml x509 fs path startup a w = (a', w', log)"
    by (cases "reloadConfig oidc cel yaml pyaml x509 fs path startup a w")
  from reloadConfig_installed [OF r] "2.prems" "2.IH" r show ?case by simp
qed simp

text \<open>C11: from start-up on, and after any sequence of reloads, successful or not, a user JWT is issued only under a valid
  configuration: the token's audience is one of those configured, the identity was matched by a rule of the configured
  policy that pins it or is marked allow\_broad, and the JWT is bound to that rule's account.\<close>

theorem service_issues_only_configured_grants:
  assumes "run_start nats tm nk oidc cel yaml pyaml x509 fs version path w0 = (Inr r, w1)"
    and "a = reloads oidc cel yaml pyaml x509 path (run_config r) rs (run_authorizer r)"
    and "reply (Authorize jwt oidc cel ord clk a req w) = Some (Inr userJWT)"
  shows "\<exists>cfg i k uc. config_valid cel cfg \<and> Cfg_Policy cfg = rs_policy (state a) \<and>
    dom (issuers (rs_verifier (state a))) = Issuer_URL ` set (Cfg_Issuers cfg) \<and>
    (\<exists>aud \<in> set (Id_Audience i). aud \<in> set (Cfg_Audiences cfg)) \<and>
    fst (Verify oidc ord (rs_verifier (state a)) (t_deadline clk + verifyTimeout a) (Token req) w) = Inr i \<and>
    k < length (Rules (Cfg_Policy cfg)) \<and> matches cel (t_eval clk k) (Rules (Cfg_Policy cfg) ! k) i \<and>
    (AllowBroad (Rule_Match (Rules (Cfg_Policy cfg) ! k)) \<or> pinned (Rule_Match (Rules (Cfg_Policy cfg) ! k)) i) \<and>
    Encode jwt uc (signKey a) = Inr userJWT \<and> UC_Audience uc = Account (Rule_Grant (Rules (Cfg_Policy cfg) ! k))"
proof -
  have "\<exists>cfg. installed_from oidc x509 cel cfg (state (run_authorizer r))" using run_start_installed [OF assms(1)] by auto
  then have "\<exists>cfg. installed_from oidc x509 cel cfg (state a)" unfolding assms(2) by (rule reloads_installed)
  then obtain cfg where cfg: "installed_from oidc x509 cel cfg (state a)" by auto
  then have v: "Validate cel (rs_policy (state a)) = (rs_policy (state a), None)"
    unfolding installed_from_def by blast
  from Authorize_issues_grants [OF v assms(3)] obtain i uc k where
      "fst (Verify oidc ord (rs_verifier (state a)) (t_deadline clk + verifyTimeout a) (Token req) w) = Inr i"
      "trusted_identity (rs_verifier (state a)) i" "k < length (Rules (rs_policy (state a)))"
      "matches cel (t_eval clk k) (Rules (rs_policy (state a)) ! k) i"
      "AllowBroad (Rule_Match (Rules (rs_policy (state a)) ! k)) \<or> pinned (Rule_Match (Rules (rs_policy (state a)) ! k)) i"
      "Encode jwt uc (signKey a) = Inr userJWT"
      "UC_Audience uc = Account (Rule_Grant (Rules (rs_policy (state a)) ! k))" by blast
  with cfg show ?thesis
    by (intro exI [of _ cfg] exI [of _ i] exI [of _ k] exI [of _ uc])
       (auto simp: installed_from_def trusted_identity_def)
qed

theorem service_issues_only_configured_grants_witness:
  "\<exists>cfg (i :: Identity) k uc. config_valid const_cel cfg \<and> Cfg_Policy cfg = example_validated \<and> k < length (Rules (Cfg_Policy cfg)) \<and>
     Encode example_jwt uc True = Inr ''jwt UA'' \<and> UC_Audience uc = Account (Rule_Grant (Rules (Cfg_Policy cfg) ! k)) \<and>
     (\<exists>aud \<in> set (Id_Audience i). aud \<in> set (Cfg_Audiences cfg))"
proof -
  let ?a = "reloads example_oidc const_cel example_config_yaml example_yaml example_x509 ''c'' (run_config example_running)
      [(example_files, 9)] (run_authorizer example_running)"
  have a: "state ?a = \<lparr>rs_verifier = example_verifier, rs_policy = example_validated\<rparr>" "signKey ?a"
    by (simp_all add: example_running_def example_reload Reload_def callout_New_def)
  from service_issues_only_configured_grants [OF example_run_start refl example_state_reply [OF a, of example_clock 20]] a(2)
  show ?thesis unfolding a by (simp only: ruleset.simps) blast
qed

subsection \<open>The connection to NATS\<close>

text \<open>Configured TLS is never dropped silently. The connection is made without a TLS configuration exactly when no
  certificate, key or CA is configured; otherwise the result is an error, or requires at least TLS 1.2, presents the
  configured client certificate when there is one, and trusts exactly the configured CA when there is one. A
  certificate without a key, or a key without a certificate, is refused.\<close>

theorem tlsConfig_not_silent:
  "(tlsConfig x509 fs cfg = Inr None \<longleftrightarrow> ClientCert cfg = [] \<and> ClientKey cfg = [] \<and> CACert cfg = []) \<and>
   (tlsConfig x509 fs cfg = Inr (Some t) \<longrightarrow>
      MinVersion t = 12 \<and>
      (ClientCert cfg = [] \<longleftrightarrow> ClientKey cfg = []) \<and>
      (if ClientCert cfg = [] then Certificates t = []
       else \<exists>cert. LoadX509KeyPair x509 (ClientCert cfg) (ClientKey cfg) = Inr cert \<and> Certificates t = [cert]) \<and>
      (if CACert cfg = [] then TLS_Pool t = None
       else \<exists>pem pool. fs (CACert cfg) = Inr pem \<and> AppendCertsFromPEM x509 pem = Some pool \<and> TLS_Pool t = Some pool)) \<and>
   ((ClientCert cfg = []) \<noteq> (ClientKey cfg = []) \<longrightarrow> tlsConfig x509 fs cfg = Inl BothCertAndKeyRequired)"
  by (auto simp: tlsConfig_def client_certificates_def ca_pool_def split: if_splits sum.splits option.splits)

text \<open>With a valid configuration the connection authenticates by exactly the method the configuration sets, and
  anonymously only if it sets none: no configured credential is ignored in favour of another, and a password always goes
  with its user name.\<close>

theorem configured_auth_is_used:
  assumes "config_valid cel cfg" and "auth_option nk (NATS cfg) = Inr opts"
  shows "(Credentials (NATS cfg) \<noteq> [] \<longrightarrow> opts = [UserCredentials (Credentials (NATS cfg))]) \<and>
    (Username (NATS cfg) \<noteq> [] \<longrightarrow> opts = [UserInfo (Username (NATS cfg)) (Password (NATS cfg))]) \<and>
    (NkeySeed (NATS cfg) \<noteq> [] \<longrightarrow>
       (\<exists>kp pub. FromSeed nk (NkeySeed (NATS cfg)) = Inr kp \<and> PublicKey nk kp = Inr pub \<and>
          IsValidPublicUserKey nk pub \<and> opts = [Nkey pub kp])) \<and>
    (opts = [] \<longrightarrow> auth_methods (NATS cfg) = 0 \<and> Password (NATS cfg) = [])"
proof -
  have "auth_methods (NATS cfg) \<le> 1" and "Password (NATS cfg) \<noteq> [] \<longrightarrow> Username (NATS cfg) \<noteq> []"
    using assms(1) by (simp_all add: config_valid_def)
  then have "Credentials (NATS cfg) = [] \<or> Username (NATS cfg) = []"
      "Credentials (NATS cfg) = [] \<or> NkeySeed (NATS cfg) = []" "Username (NATS cfg) = [] \<or> NkeySeed (NATS cfg) = []"
      "Username (NATS cfg) = [] \<longrightarrow> Password (NATS cfg) = []"
    by (auto simp: auth_methods_def split: if_splits)
  with assms(2) show ?thesis
    by (auto simp: auth_option_def nkeyOption_def auth_methods_def split: if_splits sum.splits)
qed

theorem configured_auth_is_used_witness:
  "\<exists>kp pub. FromSeed example_nkeys ''SU'' = Inr kp \<and> PublicKey example_nkeys kp = Inr pub \<and> IsValidPublicUserKey example_nkeys pub"
proof -
  have "config_valid const_cel example_loaded" using Load_valid [OF example_files_Load [of "''c''"]] by simp
  moreover have "auth_option example_nkeys (NATS example_loaded) = Inr [Nkey ''U'' True :: (bool, string) nats_option]"
    by (simp add: auth_option_def nkeyOption_def)
  ultimately show ?thesis using configured_auth_is_used [of const_cel example_loaded example_nkeys]
    by fastforce
qed

subsection \<open>Shutdown\<close>

lemma drain_wait_bounds:
  assumes "\<forall>t. late t \<le> L"
  shows "t \<le> drain_wait isClosed late deadline t \<and>
    drain_wait isClosed late deadline t \<le> max t (deadline + 10 * millisecond + int L)"
  using assms
proof (induction isClosed late deadline t rule: drain_wait.induct)
  case (1 isClosed late deadline t)
  let ?t = "t + 10 * millisecond + int (late t)"
  show ?case
  proof (cases "\<not> isClosed t \<and> t < deadline")
    case True
    have "late t \<le> L" using "1.prems" by blast
    moreover from True "1" have "?t \<le> drain_wait isClosed late deadline ?t"
      and "drain_wait isClosed late deadline ?t \<le> max ?t (deadline + 10 * millisecond + int L)" by auto
    ultimately show ?thesis using True by (subst (1 2) drain_wait.simps) (auto simp: millisecond_def)
  next
    case False
    then show ?thesis by (subst (1 2) drain_wait.simps) (auto simp: millisecond_def)
  qed
qed

lemma drain_wait_closed:
  "drain_wait isClosed late deadline t < deadline \<Longrightarrow> isClosed (drain_wait isClosed late deadline t)"
proof (induction isClosed late deadline t rule: drain_wait.induct)
  case (1 isClosed late deadline t)
  then show ?case by (cases "\<not> isClosed t \<and> t < deadline") (simp_all add: drain_wait.simps [of isClosed late deadline t])
qed

text \<open>C37: shutdown always ends, and ends with the connection closed: whatever the connection does, closing it is the last thing done
  to it, it is called after at most the drain timeout, one polling step and the lateness of a sleep, and it is called
  before the drain timeout only if the connection could not be drained or had closed by itself.\<close>

theorem shutdown_is_bounded:
  assumes "\<forall>t. time_Late tm t \<le> L" and "nc_Drain nats nc w = (err, w1)" and "stopService nats tm nc w = (t, w2)"
  shows "w2 = nc_Close nats nc w1 \<and> time_Now tm w1 \<le> t \<and>
    t \<le> time_Now tm w1 + shutdownDrainTimeout + 10 * millisecond + int L \<and>
    (t < time_Now tm w1 + shutdownDrainTimeout \<longrightarrow> err \<noteq> None \<or> nc_IsClosed nats nc w1 t)"
  using assms(2,3) drain_wait_bounds [OF assms(1), of "time_Now tm w1" "nc_IsClosed nats nc w1" "time_Now tm w1 + shutdownDrainTimeout"]
    drain_wait_closed [of "nc_IsClosed nats nc w1" "time_Late tm" "time_Now tm w1 + shutdownDrainTimeout" "time_Now tm w1"]
  by (auto simp: stopService_def Let_def shutdownDrainTimeout_def duration_defs split: option.splits)

theorem shutdown_is_bounded_witness:
  "\<exists>t. stopService example_nats example_time () 5 = (t, 100) \<and> 6 + 10000 * millisecond \<le> t \<and> t \<le> 6 + 10010 * millisecond"
proof -
  obtain t w2 where s: "stopService example_nats example_time () 5 = (t, w2)" by fastforce
  have "\<forall>t. time_Late example_time t \<le> 0" by (simp add: example_time_def)
  from shutdown_is_bounded [OF this _ s] s show ?thesis
    by (fastforce simp: example_time_def shutdownDrainTimeout_def duration_defs)
qed

subsection \<open>The process\<close>

lemma stopService_closes: "\<exists>w'. snd (stopService nats tm nc w) = nc_Close nats nc w'"
  by (auto simp: stopService_def Let_def split: prod.splits option.splits)

text \<open>The last thing done was to close a connection that had been made.\<close>

definition connection_closed :: "('kp, 'cert, 'nc, 'svc, 'w) nats_lib \<Rightarrow> 'w \<Rightarrow> bool" where
  "connection_closed nats w' \<longleftrightarrow>
     (\<exists>url opts w1 w2 nc w3. nats_Connect nats url opts w1 = (Inr nc, w2) \<and> w' = nc_Close nats nc w3)"

text \<open>The only failure of start-up behind an established connection is that of the callout service.\<close>

lemma connectNATS_Inr:
  assumes "connectNATS nats nk x509 fs version cfg w = (Inr nc, w')"
  shows "\<exists>url opts. nats_Connect nats url opts w = (Inr nc, w')"
  using assms by (auto simp: connectNATS_def split: sum.splits prod.splits option.splits)

lemma connectNATS_Inl:
  "connectNATS nats nk x509 fs version cfg w \<noteq> (Inl (StartCalloutService e), w')"
proof -
  have "auth_option nk cfg \<noteq> Inl (StartCalloutService e)"
    by (simp add: auth_option_def nkeyOption_def split: sum.split)
  moreover have "client_certificates x509 cfg \<noteq> Inl (StartCalloutService e)" and "ca_pool x509 fs cfg \<noteq> Inl (StartCalloutService e)"
    by (simp_all add: client_certificates_def ca_pool_def split: sum.split option.split)
  then have "tlsConfig x509 fs cfg \<noteq> Inl (StartCalloutService e)"
    by (auto simp: tlsConfig_def split: sum.splits if_splits)
  ultimately show ?thesis by (auto simp: connectNATS_def split: sum.splits prod.splits)
qed

lemma start_service_failure:
  assumes "start_service nats tm nk x509 fs version cfg key xkey v m w = (Inl (StartCalloutService e), w')"
  shows "connection_closed nats w'"
proof -
  from assms connectNATS_Inl [of nats nk x509 fs version "NATS cfg" w e] obtain nc w1 w2
    where c: "connectNATS nats nk x509 fs version (NATS cfg) w = (Inr nc, w1)" and w': "w' = snd (stopService nats tm nc w2)"
    by (auto simp: start_service_def Let_def split: sum.splits prod.splits)
  from connectNATS_Inr [OF c] stopService_closes [of nats tm nc w2] w' show ?thesis unfolding connection_closed_def by metis
qed

lemma run_start_failure:
  assumes "run_start nats tm nk oidc cel yaml pyaml x509 fs version path w = (Inl (StartCalloutService e), w')"
  shows "connection_closed nats w'"
  using assms
  by (auto simp: run_start_def load_xkey_def buildVerifier_def load_pool_def start_metrics_def
      split: sum.splits prod.splits if_splits option.splits dest!: start_service_failure)

lemma main_flags_spellings:
  assumes "dash \<in> {''-'', ''--''}"
  shows "flag_Parse main_flags [dash @ ''config'', p] = Inr (AList.update ''config'' (FlagString p) main_flags, [])"
    and "flag_Parse main_flags [dash @ ''config'' @ ''='' @ p] = Inr (AList.update ''config'' (FlagString p) main_flags, [])"
proof -
  have fin: "flag_Parse fs [] = Inr (fs, [])" for fs by (subst flag_Parse.simps) (simp add: parseOne_def)
  have "map_of main_flags ''config'' = Some (FlagString [])" by (simp add: main_flags_def)
  note parse_string_flag [OF this _ _ _ assms, of p "[]"]
  then show "flag_Parse main_flags [dash @ ''config'', p] = Inr (AList.update ''config'' (FlagString p) main_flags, [])"
    and "flag_Parse main_flags [dash @ ''config'' @ ''='' @ p] = Inr (AList.update ''config'' (FlagString p) main_flags, [])"
    by (simp_all add: fin)
qed

text \<open>C36: the process exits with 2 exactly when its command line is refused or names no configuration file, and
  then, as when it only prints its usage or its version, it has done nothing. It exits with 0 exactly when it only
  printed its usage or version or the service started and was then asked to shut down; everything else, a failed start or a
  connection or service that is gone for good, exits with 1, so that a supervisor restarts it. Whichever way a
  service ends that had connected to NATS, closing that connection is the last thing the process does.\<close>

theorem exit_codes:
  assumes "main b args (\<lambda>_. run nats tm nk oidc cel yaml pyaml x509 fs (build_version b) serving) w = (code, out, w')"
  shows "code \<in> {0, 1, 2} \<and> (out \<noteq> [] \<longrightarrow> code = 0 \<and> out = version_line b) \<and>
    (case flag_Parse main_flags args of
       Inl e \<Rightarrow> code = (if e = ErrHelp then 0 else 2) \<and> w' = w
     | Inr (fl, _) \<Rightarrow>
         let path = flag_string fl ''config'';
             start = run_start nats tm nk oidc cel yaml pyaml x509 fs (build_version b) path w
         in if flag_bool fl ''version'' then code = 0 \<and> out = version_line b \<and> w' = w
            else if path = [] then code = 2 \<and> w' = w
            else code \<noteq> 2 \<and>
              (code = 0 \<longleftrightarrow> (\<exists>r w1. start = (Inr r, w1) \<and> fst (serving r w1) = ContextDone_ev)) \<and>
              (case start of
                 (Inr r, _) \<Rightarrow> \<exists>w2. w' = nc_Close nats (run_nc r) w2
               | (Inl (StartCalloutService _), _) \<Rightarrow> connection_closed nats w'
               | (Inl _, w1) \<Rightarrow> w' = w1))"
proof (cases "flag_Parse main_flags args")
  case (Inl e)
  then show ?thesis using assms by (auto simp: main_def flag_exit_def split: if_splits)
next
  case (Inr p)
  obtain fl rest where p: "p = (fl, rest)" by fastforce
  let ?path = "flag_string fl ''config''"
  let ?start = "run_start nats tm nk oidc cel yaml pyaml x509 fs (build_version b) ?path w"
  show ?thesis
  proof (cases "flag_bool fl ''version'' \<or> ?path = []")
    case True
    then show ?thesis using assms Inr p by (auto simp: main_def Let_def split: if_splits)
  next
    case False
    obtain res w1 where st: "?start = (res, w1)" by (cases ?start)
    show ?thesis
    proof (cases res)
      case (Inl e)
      with False assms \<open>flag_Parse _ _ = Inr p\<close> p st have "code = 1" "out = []" "w' = w1"
        by (auto simp: main_def run_def Let_def)
      moreover have "connection_closed nats w1" if "e = StartCalloutService x" for x
        using st Inl that by (intro run_start_failure) simp
      ultimately show ?thesis
        using False \<open>flag_Parse _ _ = Inr p\<close> p st Inl by (auto simp: Let_def split: service_error.splits)
    next
      case (Inr r)
      obtain ev w2 where ev: "serving r w1 = (ev, w2)" by fastforce
      from False assms \<open>flag_Parse _ _ = Inr p\<close> p st Inr ev have "code = (if ev = ContextDone_ev then 0 else 1)"
        and "out = []" and "w' = snd (stopService nats tm (run_nc r) w2)"
        by (auto simp: main_def run_def Let_def run_wait_def split: run_event.splits)
      with False \<open>flag_Parse _ _ = Inr p\<close> p st Inr ev stopService_closes [of nats tm "run_nc r" w2]
      show ?thesis by (auto simp: Let_def)
    qed
  qed
qed

theorem exit_codes_witness:
  "fst (main dev_build [''--config=c'']
     (\<lambda>_. run example_nats example_time example_nkeys example_oidc const_cel example_config_yaml example_yaml example_x509
        example_files (build_version dev_build) (\<lambda>_ w. (ContextDone_ev, w))) 0) = 0"
proof -
  let ?m = "main dev_build [''--config=c''] (\<lambda>_. run example_nats example_time example_nkeys example_oidc const_cel
      example_config_yaml example_yaml example_x509 example_files (build_version dev_build) (\<lambda>_ w. (ContextDone_ev, w))) 0"
  have m: "?m = (fst ?m, fst (snd ?m), snd (snd ?m))" by simp
  have "flag_Parse main_flags [''--config=c''] = Inr (AList.update ''config'' (FlagString ''c'') main_flags, [])"
    using main_flags_spellings(2) [of "''--''" "''c''"] by simp
  with exit_codes [OF m] show ?thesis
    by (simp add: main_flags_def flag_string_def flag_bool_def dev_build_def example_run_start Let_def)
qed

end
