(* ===== verification/KeySetLaws.thy ===== *)
theory KeySetLaws
  imports KeySet
begin

text \<open>
  The invariant of the JWKS cache, one predicate per concern, each preserved by every step, and its
  consequences in every reachable state.
\<close>

subsection \<open>The critical sections\<close>

lemma refresh_section_frame:
  "refresh_section since start new k = (k', a) \<Longrightarrow>
     jwksURL k' = jwksURL k \<and> client k' = client k \<and> algs k' = algs k \<and> interval k' = interval k \<and> keys k' = keys k"
  by (auto simp: refresh_section_def split: option.splits if_splits)

lemma refresh_section_Throttled:
  "refresh_section since start new k = (k', Throttled) \<Longrightarrow> k' = k"
  by (auto simp: refresh_section_def split: option.splits if_splits)

lemma refresh_section_Join:
  "refresh_section since start new k = (k', Join r) \<Longrightarrow> k' = k \<and> inflight k = Some r \<and> keys k = []"
  by (auto simp: refresh_section_def split: option.splits if_splits)

lemma refresh_section_Start:
  "refresh_section since start new k = (k', Start r) \<Longrightarrow>
     r = new \<and> inflight k = None \<and> k' = k\<lparr>inflight := Some new, lastFetch := start\<rparr> \<and>
     (lastFetch k = zeroTime \<or> lastFetch k + interval k \<le> since)"
  by (auto simp: refresh_section_def Time_IsZero_def split: option.splits if_splits)

lemmas refresh_section_cases =
  refresh_section_Throttled refresh_section_Join refresh_section_Start

lemma refresh_publish_simps [simp]:
  "jwksURL (refresh_publish res k) = jwksURL k" "client (refresh_publish res k) = client k"
  "algs (refresh_publish res k) = algs k" "interval (refresh_publish res k) = interval k"
  "lastFetch (refresh_publish res k) = lastFetch k" "inflight (refresh_publish res k) = None"
  "keys (refresh_publish res k) = (case res of Inl _ \<Rightarrow> keys k | Inr ks \<Rightarrow> ks)"
  by (simp_all add: refresh_publish_def split: sum.splits)

text \<open>The three outcomes of the critical section as updates of the system.\<close>

lemma do_refresh_cases:
  obtains (throttled) "do_refresh since start new q raw jws kid s =
      s\<lparr>sys_now := start, reqs := (reqs s)(q \<mapsto> (raw, Done (Inl RefreshThrottled)))\<rparr>"
  | (join) r where "inflight (kset s) = Some r" "keys (kset s) = []" "do_refresh since start new q raw jws kid s =
      s\<lparr>sys_now := start, reqs := (reqs s)(q \<mapsto> (raw, Waiting jws kid r))\<rparr>"
  | (start) "inflight (kset s) = None"
      "lastFetch (kset s) = zeroTime \<or> lastFetch (kset s) + interval (kset s) \<le> since"
      "do_refresh since start new q raw jws kid s =
      s\<lparr>kset := (kset s)\<lparr>inflight := Some new, lastFetch := start\<rparr>, sys_now := start,
        results := (results s)(new \<mapsto> \<lparr>closed = False, Result_err = None\<rparr>),
        goroutines := (goroutines s)(new \<mapsto> Fetching),
        reqs := (reqs s)(q \<mapsto> (raw, Waiting jws kid new)), starts := start # starts s\<rparr>"
proof (cases "refresh_section since start new (kset s)")
  case (Pair k a)
  show thesis
  proof (cases a)
    case Throttled
    with Pair refresh_section_Throttled [of since start new "kset s" k] that(1) show thesis
      by (simp add: do_refresh_def)
  next
    case (Join r)
    with Pair refresh_section_Join [of since start new "kset s" k r] that(2) [of r] show thesis
      by (simp add: do_refresh_def)
  next
    case (Start r)
    with Pair refresh_section_Start [of since start new "kset s" k r] that(3) show thesis
      by (simp add: do_refresh_def)
  qed
qed

subsection \<open>Configuration\<close>

definition config_ok :: "'key keySet \<Rightarrow> ('jws, 'key) sys \<Rightarrow> bool" where
  "config_ok k0 s \<longleftrightarrow> jwksURL (kset s) = jwksURL k0 \<and> client (kset s) = client k0 \<and>
     algs (kset s) = algs k0 \<and> interval (kset s) = interval k0"

lemma config_step: "kstep jose s s' \<Longrightarrow> config_ok k0 s \<Longrightarrow> config_ok k0 s'"
proof (induction rule: kstep.induct)
  case (Refresh s q raw jws kid since start new)
  then show ?case by (cases rule: do_refresh_cases [where since = since and start = start and new = new and q = q
        and raw = raw and jws = jws and kid = kid and s = s]) (auto simp: config_ok_def)
qed (auto simp: config_ok_def)

subsection \<open>Throttling\<close>

fun spaced :: "duration \<Rightarrow> time list \<Rightarrow> bool" where
  "spaced d (t # u # ts) \<longleftrightarrow> u + d \<le> t \<and> spaced d (u # ts)"
| "spaced d ts \<longleftrightarrow> True"

definition times_ok :: "time \<Rightarrow> ('jws, 'key) sys \<Rightarrow> bool" where
  "times_ok t0 s \<longleftrightarrow>
     0 < interval (kset s) \<and> zeroTime < t0 \<and> t0 \<le> sys_now s \<and> spaced (interval (kset s)) (starts s) \<and>
     (\<forall>t \<in> set (starts s). t0 \<le> t \<and> t \<le> sys_now s) \<and>
     lastFetch (kset s) = (case starts s of [] \<Rightarrow> zeroTime | t # _ \<Rightarrow> t)"

lemma times_step: "kstep jose s s' \<Longrightarrow> times_ok t0 s \<Longrightarrow> times_ok t0 s'"
proof (induction rule: kstep.induct)
  case (Refresh s q raw jws kid since start new)
  then show ?case
  proof (cases rule: do_refresh_cases [where since = since and start = start and new = new and q = q
        and raw = raw and jws = jws and kid = kid and s = s])
    case start
    from Refresh start show ?thesis by (cases "starts s") (force simp: times_ok_def)+
  qed (force simp: times_ok_def)+
qed (force simp: times_ok_def split: sum.splits)+

text \<open>Spaced starts are few: \<open>n\<close> of them span at least \<open>n - 1\<close> intervals.\<close>

lemma spaced_span:
  "spaced d (t # ts) \<Longrightarrow> last (t # ts) + int (length ts) * d \<le> t"
  by (induction d "t # ts" arbitrary: t ts rule: spaced.induct) (auto simp: algebra_simps)

lemma times_bound:
  assumes "times_ok t0 s"
  shows "int (length (starts s)) \<le> (sys_now s - t0) div interval (kset s) + 1"
proof (cases "starts s")
  case Nil
  with assms show ?thesis by (simp add: times_ok_def pos_imp_zdiv_nonneg_iff)
next
  case (Cons t ts)
  let ?d = "interval (kset s)"
  have d: "0 < ?d" using assms by (simp add: times_ok_def)
  have "last (t # ts) + int (length ts) * ?d \<le> t"
    using assms Cons by (intro spaced_span) (simp add: times_ok_def)
  moreover have "t0 \<le> last (t # ts)" and "t \<le> sys_now s"
    using assms Cons last_in_set [of "t # ts"] by (auto simp: times_ok_def)
  ultimately have "int (length ts) * ?d \<le> sys_now s - t0" by linarith
  then have "int (length ts) * ?d div ?d \<le> (sys_now s - t0) div ?d" by (intro zdiv_mono1 d)
  with d Cons show ?thesis by simp
qed

subsection \<open>One refresh at a time\<close>

definition running :: "'key goroutine option \<Rightarrow> bool" where
  "running g \<longleftrightarrow> (case g of Some Fetching \<Rightarrow> True | Some (Fetched _) \<Rightarrow> True | _ \<Rightarrow> False)"

definition flight_ok :: "('jws, 'key) sys \<Rightarrow> bool" where
  "flight_ok s \<longleftrightarrow> (\<forall>r. running (goroutines s r) \<longleftrightarrow> inflight (kset s) = Some r) \<and>
     (\<forall>r. goroutines s r \<noteq> None \<longleftrightarrow> (\<exists>x. results s r = Some x \<and> \<not> closed x)) \<and>
     (\<forall>q raw jws kid r. reqs s q = Some (raw, Waiting jws kid r) \<longrightarrow> results s r \<noteq> None)"

lemma running_simps [simp]:
  "running (Some Fetching)" "running (Some (Fetched x))" "\<not> running (Some (Closing e))" "\<not> running None"
  by (simp_all add: running_def)

lemma VerifySignature_pcs [simp]:
  "VerifySignature_parse jose k raw \<noteq> Waiting jws kid r"
  "VerifySignature_cached jose k jws' kid' \<noteq> Waiting jws kid r"
  "VerifySignature_final jose k jws' kid' \<noteq> Waiting jws kid r"
  "refresh_result jws' kid' res \<noteq> Waiting jws kid r"
  by (simp_all add: VerifySignature_parse_def VerifySignature_cached_def VerifySignature_final_def
      refresh_result_def split: sum.splits option.splits)

lemma flight_okD:
  assumes "flight_ok s"
  shows "running (goroutines s r) \<longleftrightarrow> inflight (kset s) = Some r"
    and "goroutines s r \<noteq> None \<longleftrightarrow> (\<exists>x. results s r = Some x \<and> \<not> closed x)"
    and "reqs s q = Some (raw, Waiting jws kid r) \<Longrightarrow> results s r \<noteq> None"
  using assms by (auto simp: flight_ok_def)

lemma flight_running:
  assumes "flight_ok s" and "inflight (kset s) = Some r"
  shows "results s r \<noteq> None"
proof -
  have "goroutines s r \<noteq> None" using flight_okD(1) [OF assms(1), of r] assms(2) by (cases "goroutines s r") auto
  then show ?thesis using flight_okD(2) [OF assms(1), of r] by auto
qed

text \<open>Steps that only move one request.\<close>

lemma flight_request:
  assumes "flight_ok s" and "kset t = kset s" and "goroutines t = goroutines s" and "results t = results s"
    and "reqs t = (reqs s)(q \<mapsto> (raw, p))" and "\<And>jws kid r. p = Waiting jws kid r \<Longrightarrow> results s r \<noteq> None"
  shows "flight_ok t"
  using assms(1,6) unfolding flight_ok_def assms(2-5) by (auto split: if_splits)

lemma flight_step: "kstep jose s s' \<Longrightarrow> flight_ok s \<Longrightarrow> flight_ok s'"
proof (induction rule: kstep.induct)
  case (Refresh s q raw jws kid since start new)
  then show ?case
  proof (cases rule: do_refresh_cases [where since = since and start = start and new = new and q = q
        and raw = raw and jws = jws and kid = kid and s = s])
    case start
    note inv = flight_okD [OF Refresh.prems]
    show ?thesis
      unfolding flight_ok_def start(3)
      using start(1) Refresh.hyps(4) by (simp add: inv(1,2)) (use inv(2) in \<open>auto split: if_splits dest: inv(3)\<close>)
  next
    case (join r)
    then show ?thesis
      by (intro flight_request [OF Refresh.prems, where raw = raw]) (auto dest: flight_running [OF Refresh.prems])
  next
    case throttled
    then show ?thesis by (intro flight_request [OF Refresh.prems]) auto
  qed
next
  case (Call s q raw)
  then show ?case by (intro flight_request [OF Call.prems]) auto
next
  case (Read s q raw jws kid)
  then show ?case by (intro flight_request [OF Read.prems]) auto
next
  case (Wake s q raw jws kid r res)
  then show ?case by (intro flight_request [OF Wake.prems]) auto
next
  case (Cancel s q raw jws kid r)
  then show ?case by (intro flight_request [OF Cancel.prems]) auto
next
  case (Final s q raw jws kid)
  then show ?case by (intro flight_request [OF Final.prems]) auto
next
  case (Fetch s r http)
  then show ?case by (force simp: flight_ok_def)
next
  case (Publish s r res)
  then show ?case by (force simp: flight_ok_def)
next
  case (Close s r e)
  then show ?case by (force simp: flight_ok_def)
qed (simp add: flight_ok_def)

subsection \<open>Where keys and payloads come from\<close>

text \<open>A key set read from an answer that the configured address gave with status 200.\<close>

definition from_url ::
    "('jws, 'key) jose_lib \<Rightarrow> 'key keySet \<Rightarrow> (http_client \<times> http_request \<times> http_response) list \<Rightarrow> 'key list \<Rightarrow> bool" where
  "from_url jose k0 A ks \<longleftrightarrow>
     (\<exists>resp. (client k0, jwks_request k0, resp) \<in> set A \<and> StatusCode resp = 200 \<and>
        JSONWebKeySet_Decode jose (take maxJWKSSize (Body resp)) = Inr ks)"

lemma from_url_append: "from_url jose k0 A ks \<Longrightarrow> from_url jose k0 (B @ A) ks"
  by (auto simp: from_url_def)

definition keys_ok :: "('jws, 'key) jose_lib \<Rightarrow> 'key keySet \<Rightarrow> ('jws, 'key) sys \<Rightarrow> bool" where
  "keys_ok jose k0 s \<longleftrightarrow>
     (keys (kset s) = [] \<or> keys (kset s) \<in> set (fetched s)) \<and>
     (\<forall>ks \<in> set (fetched s). from_url jose k0 (answers s) ks) \<and>
     (\<forall>r ks. goroutines s r = Some (Fetched (Inr ks)) \<longrightarrow> from_url jose k0 (answers s) ks)"

lemma exchange_frame: "config_ok k0 s \<Longrightarrow> exchange http (kset s) = exchange http k0"
  by (simp add: exchange_def config_ok_def jwks_request_def split: option.splits sum.splits)

lemma fetch_frame: "config_ok k0 s \<Longrightarrow> fetch jose http (kset s) = fetch jose http k0"
  by (simp add: fetch_def config_ok_def jwks_request_def split: option.splits)

lemma fetch_from_url: "fetch jose http k0 = Inr ks \<Longrightarrow> from_url jose k0 (exchange http k0 @ A) ks"
  by (auto simp: fetch_def exchange_def from_url_def split: option.splits sum.splits if_splits)

lemma keys_step:
  "kstep jose s s' \<Longrightarrow> config_ok k0 s \<Longrightarrow> keys_ok jose k0 s \<Longrightarrow> keys_ok jose k0 s'"
proof (induction rule: kstep.induct)
  case (Refresh s q raw jws kid since start new)
  then show ?case
    by (cases rule: do_refresh_cases [where since = since and start = start and new = new and q = q
        and raw = raw and jws = jws and kid = kid and s = s]) (auto simp: keys_ok_def)
next
  case (Fetch s r http)
  then show ?case
    unfolding keys_ok_def by (auto simp: fetch_frame exchange_frame intro: fetch_from_url from_url_append)
qed (auto simp: keys_ok_def split: sum.splits)

definition parsed :: "('jws, 'key) jose_lib \<Rightarrow> 'key keySet \<Rightarrow> string \<Rightarrow> 'jws \<Rightarrow> string \<Rightarrow> bool" where
  "parsed jose k0 raw jws kid \<longleftrightarrow>
     ParseSigned jose raw (algs k0) = Inr jws \<and> Signature_KeyIDs jose jws = [kid]"

text \<open>An accepted payload was verified with a key set that some fetch returned.\<close>

definition accepted :: "('jws, 'key) jose_lib \<Rightarrow> 'key keySet \<Rightarrow> 'key list list \<Rightarrow> string \<Rightarrow> string \<Rightarrow> bool" where
  "accepted jose k0 F raw payload \<longleftrightarrow>
     (\<exists>jws kid. parsed jose k0 raw jws kid \<and> (\<exists>ks \<in> set F. verifyWith jose jws kid ks = Some payload))"

fun pc_ok :: "('jws, 'key) jose_lib \<Rightarrow> 'key keySet \<Rightarrow> 'key list list \<Rightarrow> string \<Rightarrow> 'jws pc \<Rightarrow> bool" where
  "pc_ok jose k0 F raw (ReadKeys jws kid) = parsed jose k0 raw jws kid"
| "pc_ok jose k0 F raw (CallRefresh jws kid) = parsed jose k0 raw jws kid"
| "pc_ok jose k0 F raw (Waiting jws kid r) = parsed jose k0 raw jws kid"
| "pc_ok jose k0 F raw (Reread jws kid) = parsed jose k0 raw jws kid"
| "pc_ok jose k0 F raw (Done (Inr payload)) = accepted jose k0 F raw payload"
| "pc_ok jose k0 F raw (Done (Inl e)) = True"

definition reqs_ok :: "('jws, 'key) jose_lib \<Rightarrow> 'key keySet \<Rightarrow> ('jws, 'key) sys \<Rightarrow> bool" where
  "reqs_ok jose k0 s \<longleftrightarrow> (\<forall>q raw p. reqs s q = Some (raw, p) \<longrightarrow> pc_ok jose k0 (fetched s) raw p)"

lemma reqs_okD: "reqs_ok jose k0 s \<Longrightarrow> reqs s q = Some (raw, p) \<Longrightarrow> pc_ok jose k0 (fetched s) raw p"
  by (simp add: reqs_ok_def)

lemma reqs_update:
  "reqs_ok jose k0 s \<Longrightarrow> pc_ok jose k0 (fetched s) raw p \<Longrightarrow> fetched t = fetched s \<Longrightarrow>
   reqs t = (reqs s)(q \<mapsto> (raw, p)) \<Longrightarrow> reqs_ok jose k0 t"
  by (auto simp: reqs_ok_def)

lemma pc_ok_mono: "pc_ok jose k0 F raw p \<Longrightarrow> set F \<subseteq> set G \<Longrightarrow> pc_ok jose k0 G raw p"
  by (induction jose k0 F raw p rule: pc_ok.induct) (auto simp: accepted_def)

lemma pc_ok_verify:
  assumes "verifyWith jose jws kid (keys (kset s)) = Some payload" and "parsed jose k0 raw jws kid"
    and "keys_ok jose k0 s"
  shows "accepted jose k0 (fetched s) raw payload"
proof -
  have "keys (kset s) \<noteq> []" using assms(1) by auto
  then show ?thesis using assms by (auto simp: accepted_def keys_ok_def)
qed

lemma pc_ok_parse: "config_ok k0 s \<Longrightarrow> pc_ok jose k0 F raw (VerifySignature_parse jose (kset s) raw)"
  by (auto simp: VerifySignature_parse_def config_ok_def parsed_def length_Suc_conv split: sum.splits)

lemma reqs_step:
  assumes "kstep jose s s'" and "config_ok k0 s" and "keys_ok jose k0 s" and "reqs_ok jose k0 s"
  shows "reqs_ok jose k0 s'"
  using assms
proof (induction rule: kstep.induct)
  case (Call s q raw)
  then show ?case by (intro reqs_update [OF Call.prems(3) pc_ok_parse]) auto
next
  case (Read s q raw jws kid)
  have "parsed jose k0 raw jws kid" using reqs_okD [OF Read.prems(3) Read.hyps(1)] by simp
  with Read.prems show ?case
    by (intro reqs_update [OF Read.prems(3), where raw = raw])
       (auto simp: VerifySignature_cached_def split: option.splits intro: pc_ok_verify)
next
  case (Final s q raw jws kid)
  have "parsed jose k0 raw jws kid" using reqs_okD [OF Final.prems(3) Final.hyps(1)] by simp
  with Final.prems show ?case
    by (intro reqs_update [OF Final.prems(3), where raw = raw])
       (auto simp: VerifySignature_final_def split: option.splits intro: pc_ok_verify)
next
  case (Refresh s q raw jws kid since start new)
  have "parsed jose k0 raw jws kid" using reqs_okD [OF Refresh.prems(3) Refresh.hyps(1)] by simp
  with Refresh.prems show ?case
    by (cases rule: do_refresh_cases [where since = since and start = start and new = new and q = q
        and raw = raw and jws = jws and kid = kid and s = s]) (auto simp: reqs_ok_def)
next
  case (Wake s q raw jws kid r res)
  have "parsed jose k0 raw jws kid" using reqs_okD [OF Wake.prems(3) Wake.hyps(1)] by simp
  with Wake.prems show ?case
    by (intro reqs_update [OF Wake.prems(3), where raw = raw])
       (auto simp: refresh_result_def split: option.splits)
next
  case (Publish s r res)
  then show ?case by (auto simp: reqs_ok_def split: sum.splits intro: pc_ok_mono [where F = "fetched s"])
qed (auto simp: reqs_ok_def)

subsection \<open>Finitely many results\<close>

definition heap_ok :: "('jws, 'key) sys \<Rightarrow> bool" where
  "heap_ok s \<longleftrightarrow> finite (dom (results s))"

lemma heap_step: "kstep jose s s' \<Longrightarrow> heap_ok s \<Longrightarrow> heap_ok s'"
proof (induction rule: kstep.induct)
  case (Refresh s q raw jws kid since start new)
  then show ?case
    by (cases rule: do_refresh_cases [where since = since and start = start and new = new and q = q
        and raw = raw and jws = jws and kid = kid and s = s]) (simp_all add: heap_ok_def)
qed (simp_all add: heap_ok_def)

lemma heap_fresh: "heap_ok s \<Longrightarrow> \<exists>new. results s new = None"
  using ex_new_if_finite [of "dom (results s)"] by (auto simp: heap_ok_def)

subsection \<open>The invariant\<close>

definition kinv :: "('jws, 'key) jose_lib \<Rightarrow> 'key keySet \<Rightarrow> time \<Rightarrow> ('jws, 'key) sys \<Rightarrow> bool" where
  "kinv jose k0 t0 s \<longleftrightarrow>
     config_ok k0 s \<and> times_ok t0 s \<and> flight_ok s \<and> keys_ok jose k0 s \<and> reqs_ok jose k0 s \<and>
     heap_ok s"

lemma kinv_init: "cache_start k0 t0 s \<Longrightarrow> kinv jose k0 t0 s"
  by (auto simp: cache_start_def kinv_def config_ok_def times_ok_def flight_ok_def keys_ok_def reqs_ok_def
      heap_ok_def sys_init_def newKeySet_def DefaultJWKSRefreshInterval_def second_def)

lemma kinv_step: "kinv jose k0 t0 s \<Longrightarrow> kstep jose s s' \<Longrightarrow> kinv jose k0 t0 s'"
  unfolding kinv_def by (blast intro: config_step times_step flight_step keys_step reqs_step heap_step)

interpretation cache: invariant_system "cache_start k0 t0" "kstep jose" "kinv jose k0 t0" for k0 t0 jose
  by unfold_locales (blast intro: kinv_init kinv_step)+

lemma kreach_inv: "kreach jose k0 t0 s \<Longrightarrow> kinv jose k0 t0 s"
  by (simp add: kreach_reachable cache.inv_reachable)

lemma verifyWith_Some:
  "verifyWith jose jws kid ks = Some payload \<Longrightarrow>
     \<exists>k \<in> set ks. (kid = [] \<or> KeyID jose k = kid) \<and> jws_Verify jose jws k = Some payload"
  by (induction jose jws kid ks rule: verifyWith.induct) (auto split: if_splits option.splits)

lemma verifyWith_None:
  "verifyWith jose jws kid ks = None \<longleftrightarrow>
     (\<forall>k \<in> set ks. (kid = [] \<or> KeyID jose k = kid) \<longrightarrow> jws_Verify jose jws k = None)"
  by (induction jose jws kid ks rule: verifyWith.induct) (auto split: option.splits)

text \<open>
  The payload was verified by a key of a key set that the issuer's JWKS address served: what a successful
  check means, in terms of the HTTP exchanges of the run.
\<close>

definition authentic ::
    "('jws, 'key) jose_lib \<Rightarrow> 'key keySet \<Rightarrow> (http_client \<times> http_request \<times> http_response) list \<Rightarrow> string \<Rightarrow> string \<Rightarrow> bool" where
  "authentic jose k0 A raw payload \<longleftrightarrow> (
   \<exists>jws kid (resp :: http_response) ks k.
    ParseSigned jose raw (algs k0) = Inr jws \<and> Signature_KeyIDs jose jws = [kid] \<and>
    (client k0, jwks_request k0, resp) \<in> set A \<and> StatusCode resp = 200 \<and>
    JSONWebKeySet_Decode jose (take maxJWKSSize (Body resp)) = Inr ks \<and> k \<in> set ks \<and>
    (kid = [] \<or> KeyID jose k = kid) \<and> jws_Verify jose jws k = Some payload)"

lemma kreach_authentic:
  assumes "kreach jose k0 t0 s" and "reqs s q = Some (raw, Done (Inr payload))"
  shows "authentic jose k0 (answers s) raw payload"
proof -
  have inv: "keys_ok jose k0 s" "reqs_ok jose k0 s" using kreach_inv [OF assms(1)] by (simp_all add: kinv_def)
  from reqs_okD [OF inv(2) assms(2)] obtain jws kid ks where p: "parsed jose k0 raw jws kid"
    and ks: "ks \<in> set (fetched s)" and v: "verifyWith jose jws kid ks = Some payload"
    by (auto simp: accepted_def)
  from ks inv(1) obtain resp where "(client k0, jwks_request k0, resp) \<in> set (answers s)" "StatusCode resp = 200"
      "JSONWebKeySet_Decode jose (take maxJWKSSize (Body resp)) = Inr ks"
    by (auto simp: keys_ok_def from_url_def)
  moreover from verifyWith_Some [OF v] obtain k where "k \<in> set ks" "kid = [] \<or> KeyID jose k = kid"
      "jws_Verify jose jws k = Some payload" by auto
  ultimately show ?thesis using p unfolding parsed_def authentic_def by blast
qed

subsection \<open>Requests can always be finished\<close>

text \<open>
  \<open>settles\<close>: some continuation lets the request return with an outcome other than its own
  context running out. Each position of a request leads to the next one.
\<close>

definition settles :: "('jws, 'key) jose_lib \<Rightarrow> nat \<Rightarrow> ('jws, 'key) sys \<Rightarrow> bool" where
  "settles jose q s \<longleftrightarrow>
     (\<exists>s' raw res. (kstep jose)\<^sup>*\<^sup>* s s' \<and> reqs s' q = Some (raw, Done res) \<and> res \<noteq> Inl ContextDone)"

lemma settles_back: "kstep jose s s' \<Longrightarrow> settles jose q s' \<Longrightarrow> settles jose q s"
  by (auto simp: settles_def intro: converse_rtranclp_into_rtranclp)

lemma settles_now: "reqs s q = Some (raw, Done res) \<Longrightarrow> res \<noteq> Inl ContextDone \<Longrightarrow> settles jose q s"
  by (auto simp: settles_def)

lemma settles_Reread:
  assumes "reqs s q = Some (raw, Reread jws kid)"
  shows "settles jose q s"
  using kstep.Final [OF assms, of jose]
  by (rule settles_back)
     (auto simp: VerifySignature_final_def split: option.splits intro: settles_now)

lemma settles_Wake:
  assumes "reqs s q = Some (raw, Waiting jws kid r)" and "results s r = Some res" and "closed res"
  shows "settles jose q s"
  using kstep.Wake [OF assms, of jose]
proof (rule settles_back)
  show "settles jose q (s\<lparr>reqs := (reqs s)(q \<mapsto> (raw, refresh_result jws kid res))\<rparr>)"
    by (cases "Result_err res") (auto simp: refresh_result_def intro: settles_Reread settles_now)
qed

lemma settles_Close:
  assumes "reqs s q = Some (raw, Waiting jws kid r)" and "goroutines s r = Some (Closing e)"
  shows "settles jose q s"
  using kstep.Close [OF assms(2), of jose]
  by (rule settles_back) (rule settles_Wake, use assms in auto)

lemma settles_Publish:
  assumes "reqs s q = Some (raw, Waiting jws kid r)" and "goroutines s r = Some (Fetched res)"
  shows "settles jose q s"
  using kstep.Publish [OF assms(2), of jose]
  by (rule settles_back) (rule settles_Close, use assms in auto)

lemma settles_Fetch:
  assumes "reqs s q = Some (raw, Waiting jws kid r)" and "goroutines s r = Some Fetching"
  shows "settles jose q s"
  using kstep.Fetch [OF assms(2), of jose]
  by (rule settles_back) (rule settles_Publish, use assms in auto)

lemma settles_Waiting:
  assumes "reqs s q = Some (raw, Waiting jws kid r)" and "flight_ok s"
  shows "settles jose q s"
proof -
  from flight_okD(3) [OF assms(2,1)] obtain res where res: "results s r = Some res" by auto
  show ?thesis
  proof (cases "closed res")
    case True
    with assms(1) res show ?thesis by (rule settles_Wake)
  next
    case False
    with flight_okD(2) [OF assms(2), of r] res obtain g where g: "goroutines s r = Some g" by auto
    with assms(1) show ?thesis by (cases g) (auto intro: settles_Close settles_Publish settles_Fetch)
  qed
qed

lemma settles_Refresh:
  assumes "reqs s q = Some (raw, CallRefresh jws kid)" and "flight_ok s" and "heap_ok s"
  shows "settles jose q s"
proof -
  obtain new where new: "results s new = None" using heap_fresh [OF assms(3)] by auto
  let ?s' = "do_refresh (sys_now s) (sys_now s) new q raw jws kid s"
  have step: "kstep jose s ?s'" by (rule kstep.Refresh [OF assms(1) _ _ new]) simp_all
  have "flight_ok ?s'" by (rule flight_step [OF step assms(2)])
  then have "settles jose q ?s'"
    by (cases rule: do_refresh_cases [where since = "sys_now s" and start = "sys_now s" and new = new and q = q
          and raw = raw and jws = jws and kid = kid and s = s])
       (auto intro: settles_now settles_Waiting)
  then show ?thesis by (rule settles_back [OF step])
qed

lemma settles_Read:
  assumes "reqs s q = Some (raw, ReadKeys jws kid)" and "flight_ok s" and "heap_ok s"
  shows "settles jose q s"
proof -
  let ?s' = "s\<lparr>reqs := (reqs s)(q \<mapsto> (raw, VerifySignature_cached jose (kset s) jws kid))\<rparr>"
  have step: "kstep jose s ?s'" by (rule kstep.Read [OF assms(1)])
  have "flight_ok ?s'" "heap_ok ?s'" using flight_step [OF step assms(2)] heap_step [OF step assms(3)] by simp_all
  then have "settles jose q ?s'"
    by (cases "verifyWith jose jws kid (keys (kset s))")
       (auto simp: VerifySignature_cached_def intro: settles_now settles_Refresh)
  then show ?thesis by (rule settles_back [OF step])
qed

end
