(* ===== verification/KeySetProps.thy ===== *)
theory KeySetProps
  imports KeySetLaws
begin

text \<open>
  The guarantees of the JWKS cache in every reachable state, with schedules of a small instance: tokens
  are their own signed payload, keys are their key ids, and a key set document lists one key.
\<close>

subsection \<open>Example instance\<close>

definition toy_jose :: "(string, string) jose_lib" where
  "toy_jose = \<lparr>ParseSigned = (\<lambda>raw as. if as = [] then Inl ''alg'' else Inr raw),
     Signature_KeyIDs = (\<lambda>jws. [jws]), KeyID = id,
     jws_Verify = (\<lambda>jws k. if jws = k then Some (''payload '' @ jws) else None),
     JSONWebKeySet_Decode = (\<lambda>body. Inr [body])\<rparr>"

definition toy_http :: "nat \<Rightarrow> string \<Rightarrow> http_lib" where
  "toy_http status body = \<lparr>http_NewRequest = (\<lambda>_ _. None),
     http_Do = (\<lambda>_ _. Inr \<lparr>StatusCode = status, Body = body\<rparr>)\<rparr>"

definition toy_keySet :: "string keySet" where
  "toy_keySet = newKeySet ''https://issuer/jwks'' \<lparr>Client_Timeout = 10 * second, Client_Transport = None\<rparr> [''RS256''] 0"

definition toy_run :: "event list \<Rightarrow> (string, string) sys option" where
  "toy_run es = schedule toy_jose es (sys_init toy_keySet 0)"

lemma toy_reach:
  assumes "toy_run es = Some s"
  shows "kreach toy_jose toy_keySet 0 s"
  unfolding kreach_def
proof (intro exI conjI)
  show "cache_start toy_keySet 0 (sys_init toy_keySet 0 :: (string, string) sys)"
    by (auto simp: cache_start_def toy_keySet_def zeroTime_def)
  show "(kstep toy_jose)\<^sup>*\<^sup>* (sys_init toy_keySet 0) s"
    using assms by (simp add: toy_run_def schedule_sound)
qed

text \<open>A first token misses, starts a fetch and is accepted with the fetched key.\<close>

definition cold_start :: "event list" where
  "cold_start = [ECall 1 ''k1'', ERead 1, ERefresh 1 5 5 7, EFetch 7 (toy_http 200 ''k1''), EPublish 7, EClose 7,
     EWake 1, EFinal 1]"

definition after :: "event list \<Rightarrow> (string, string) sys" where
  "after es = the (toy_run es)"

lemma toy_fetch:
  "fetch toy_jose (toy_http status body) k =
     (if status \<noteq> 200 then Inl (UnexpectedStatus status) else Inr [take maxJWKSSize body])"
  by (simp add: fetch_def toy_http_def toy_jose_def)

lemma toy_body: "take maxJWKSSize ''k1'' = ''k1''"
  by (simp add: maxJWKSSize_def)

lemma toy_lib [simp]:
  "KeyID toy_jose k = k" "jws_Verify toy_jose jws k = (if jws = k then Some (''payload '' @ jws) else None)"
  by (simp_all add: toy_jose_def)

lemma toy_parse: "algs k \<noteq> [] \<Longrightarrow> VerifySignature_parse toy_jose k raw = ReadKeys raw raw"
  by (simp add: VerifySignature_parse_def toy_jose_def)

lemmas toy_simps = toy_run_def sys_init_def VerifySignature_cached_def VerifySignature_final_def do_refresh_def
  refresh_section_def refresh_publish_def refresh_result_def fetch_err_def toy_fetch toy_body toy_parse
  after_def

lemma toy_fields:
  "keys toy_keySet = []" "inflight toy_keySet = None" "lastFetch toy_keySet = zeroTime"
  "interval toy_keySet = 30 * second" "algs toy_keySet = [''RS256'']"
  by (simp_all add: toy_keySet_def newKeySet_def DefaultJWKSRefreshInterval_def)

lemma toy_after: "toy_run es \<noteq> None \<Longrightarrow> kreach toy_jose toy_keySet 0 (after es)"
  by (rule toy_reach [of es]) (auto simp: after_def)

lemma cold_start_runs: "toy_run cold_start \<noteq> None"
  by (simp add: toy_simps toy_fields cold_start_def Time_IsZero_def)

subsection \<open>Outbound requests\<close>

text \<open>C6: whatever tokens arrive, and however requests and refreshes interleave, JWKS fetches of an issuer
  start at least one refresh interval apart, failed ones included, so that at any time at most
  one plus the elapsed time divided by the interval have been started.\<close>

theorem jwks_fetch_rate:
  assumes "kreach jose k0 t0 s"
  shows "spaced (interval k0) (starts s) \<and>
    int (length (starts s)) \<le> (sys_now s - t0) div interval k0 + 1"
proof -
  have "times_ok t0 s" and "interval (kset s) = interval k0"
    using kreach_inv [OF assms] by (simp_all add: kinv_def config_ok_def)
  with times_bound [of t0 s] show ?thesis by (simp add: times_ok_def)
qed

theorem jwks_fetch_rate_witness:
  "spaced (interval toy_keySet) (starts (after cold_start)) \<and>
    int (length (starts (after cold_start))) \<le> (sys_now (after cold_start) - 0) div interval toy_keySet + 1"
  by (rule jwks_fetch_rate [OF toy_after [OF cold_start_runs]])

text \<open>C13: at most one refresh runs at a time: two goroutines that have not yet published their result are
  the same one, and it is the one the cache points to.\<close>

theorem single_refresh:
  assumes "kreach jose k0 t0 s" and "running (goroutines s r)" and "running (goroutines s r')"
  shows "r = r' \<and> inflight (kset s) = Some r"
proof -
  have "flight_ok s" using kreach_inv [OF assms(1)] by (simp add: kinv_def)
  with assms(2,3) show ?thesis by (simp add: flight_okD(1))
qed

theorem single_refresh_witness:
  "(7 :: nat) = 7 \<and> inflight (kset (after [ECall 1 ''k1'', ERead 1, ERefresh 1 5 5 7])) = Some 7"
proof -
  let ?es = "[ECall 1 ''k1'', ERead 1, ERefresh 1 5 5 7]"
  have "kreach toy_jose toy_keySet 0 (after ?es)"
    by (rule toy_after) (simp add: toy_simps toy_fields Time_IsZero_def)
  moreover have "running (goroutines (after ?es) 7)"
    by (simp add: toy_simps toy_fields Time_IsZero_def)
  ultimately show ?thesis by (intro single_refresh)
qed

subsection \<open>Authenticity\<close>

text \<open>C7: a signature check that succeeds is authentic: the token parsed under the allowed algorithms with
  exactly one signature, and its payload was verified by a key that carries the token's key id (any key if it
  has none) and was in a key set served with status 200 at the configured JWKS address, within the size limit.\<close>

theorem accepted_signature_authentic:
  assumes "kreach jose k0 t0 s" and "reqs s q = Some (raw, Done (Inr payload))"
  shows "\<exists>jws kid (resp :: http_response) ks k.
    ParseSigned jose raw (algs k0) = Inr jws \<and> Signature_KeyIDs jose jws = [kid] \<and>
    (client k0, jwks_request k0, resp) \<in> set (answers s) \<and> StatusCode resp = 200 \<and>
    JSONWebKeySet_Decode jose (take maxJWKSSize (Body resp)) = Inr ks \<and> k \<in> set ks \<and>
    (kid = [] \<or> KeyID jose k = kid) \<and> jws_Verify jose jws k = Some payload"
  using kreach_authentic [OF assms] unfolding authentic_def .

theorem accepted_signature_authentic_witness:
  "\<exists>jws kid (resp :: http_response) ks k.
    ParseSigned toy_jose ''k1'' (algs toy_keySet) = Inr jws \<and> Signature_KeyIDs toy_jose jws = [kid] \<and>
    (client toy_keySet, jwks_request toy_keySet, resp) \<in> set (answers (after cold_start)) \<and> StatusCode resp = 200 \<and>
    JSONWebKeySet_Decode toy_jose (take maxJWKSSize (Body resp)) = Inr ks \<and> k \<in> set ks \<and>
    (kid = [] \<or> KeyID toy_jose k = kid) \<and> jws_Verify toy_jose jws k = Some ''payload k1''"
proof -
  have "reqs (after cold_start) 1 = Some (''k1'', Done (Inr ''payload k1''))"
    by (simp add: toy_simps toy_fields cold_start_def Time_IsZero_def)
  then show ?thesis by (rule accepted_signature_authentic [OF toy_after [OF cold_start_runs]])
qed

subsection \<open>Progress\<close>

text \<open>C12: no request is stuck and no wake-up is lost: from every reachable state, a request that has not
  returned can be brought to its return by finitely many steps of the cache, without its own context having to
  run out; in particular a request that waits for a refresh always has a live refresh or a closed result.\<close>

theorem request_can_finish:
  assumes "kreach jose k0 t0 s" and "reqs s q = Some (raw, p)" and "p \<noteq> Done (Inl ContextDone)"
  shows "\<exists>s' raw' res. (kstep jose)\<^sup>*\<^sup>* s s' \<and> reqs s' q = Some (raw', Done res) \<and> res \<noteq> Inl ContextDone"
proof -
  have "flight_ok s" "heap_ok s" using kreach_inv [OF assms(1)] by (simp_all add: kinv_def)
  with assms(2,3) have "settles jose q s"
    by (cases p) (auto intro: settles_now settles_Reread settles_Waiting settles_Refresh settles_Read)
  then show ?thesis by (simp add: settles_def)
qed

theorem request_can_finish_witness:
  "\<exists>s' raw' res. (kstep toy_jose)\<^sup>*\<^sup>* (after [ECall 1 ''k1'', ERead 1, ERefresh 1 5 5 7]) s' \<and>
     reqs s' 1 = Some (raw', Done res) \<and> res \<noteq> Inl ContextDone"
proof -
  let ?es = "[ECall 1 ''k1'', ERead 1, ERefresh 1 5 5 7]"
  have "kreach toy_jose toy_keySet 0 (after ?es)"
    by (rule toy_after) (simp add: toy_simps toy_fields Time_IsZero_def)
  moreover have "reqs (after ?es) 1 = Some (''k1'', Waiting ''k1'' ''k1'' 7)"
    by (simp add: toy_simps toy_fields Time_IsZero_def)
  ultimately show ?thesis by (rule request_can_finish) simp
qed



definition failed_start :: "event list" where
  "failed_start = [ECall 1 ''k1'', ERead 1, ERefresh 1 5 5 7, EFetch 7 (toy_http 503 []), EPublish 7, EClose 7,
     ECall 2 ''k1'', ERead 2, ERefresh 2 6 6 8]"

text \<open>Throttling also applies to an empty cache: after a failed first fetch, a request within the interval
  is refused at once although no keys were ever fetched.\<close>

theorem empty_cache_is_throttled:
  "kreach toy_jose toy_keySet 0 (after failed_start) \<and> fetched (after failed_start) = [] \<and>
   reqs (after failed_start) 2 = Some (''k1'', Done (Inl RefreshThrottled))"
proof (intro conjI)
  show "kreach toy_jose toy_keySet 0 (after failed_start)"
    by (rule toy_after) (simp add: toy_simps toy_fields failed_start_def Time_IsZero_def zeroTime_def second_def)
qed (simp_all add: toy_simps toy_fields failed_start_def Time_IsZero_def zeroTime_def second_def)

end
