(* ===== verification/EndToEnd.thy ===== *)
theory EndToEnd
  imports ServiceProps KeySetProps
begin

text \<open>
  The parts put together: service, authorizer, token verifier and JWKS cache. The token verifier reaches the cache through
  go-oidc, whose contract is the hypothesis \<open>go_oidc\<close>; from there a user JWT is traced back to an HTTP exchange with the
  issuer that the configuration names.
\<close>

subsection \<open>The contract of go-oidc\<close>

text \<open>
  \<open>tie v\<close> is what a verifier was built with: its issuer and its key set. \<open>cache w v\<close> is the state of that key set in the world
  \<open>w\<close>, a state of the cache's step relation. A verifier that accepts a token checked that its issuer is the verifier's own,
  called \<open>VerifySignature\<close> on the raw token and got a payload; the claims of the token are read from that payload.
\<close>

definition go_oidc ::
    "('jws, 'key) jose_lib \<Rightarrow> ('prov, 'key, 'v, 'c, 'w) oidc_lib \<Rightarrow> ('v \<Rightarrow> string \<times> 'key keySet) \<Rightarrow>
     ('w \<Rightarrow> 'v \<Rightarrow> ('jws, 'key) sys) \<Rightarrow> bool" where
  "go_oidc jose oidc tie cache \<longleftrightarrow>
     (\<forall>url ks cfg w v w'. NewVerifier oidc url ks cfg w = (v, w') \<longrightarrow> tie v = (url, ks)) \<and>
     (\<forall>v ctx raw w tok w' payload.
        IDTokenVerifier_Verify oidc v ctx raw w = (Inr tok, w') \<and> IDToken_Claims oidc (Tok_claims tok) = Inr payload \<longrightarrow>
        Tok_Issuer tok = fst (tie v) \<and>
        (\<exists>t0 q. kreach jose (snd (tie v)) t0 (cache w' v) \<and> reqs (cache w' v) q = Some (raw, Done (Inr payload))))"

lemma go_oidc_built:
  assumes "go_oidc jose oidc tie cache" and "built oidc opts c iss entry"
  shows "\<exists>provider jwks u1 u2. NewProvider oidc c (URL iss) u1 = (Inr provider, u2) \<and>
    Provider_jwks_uri oidc provider = Inr jwks \<and>
    tie (verifier entry) = (URL iss, newKeySet jwks c (SigningAlgs opts) (JWKSRefreshInterval opts))"
  using assms unfolding go_oidc_def built_def by blast

lemma go_oidc_accepts:
  assumes "go_oidc jose oidc tie cache" and "IDTokenVerifier_Verify oidc v ctx raw w = (Inr tok, w')"
    and "IDToken_Claims oidc (Tok_claims tok) = Inr payload"
  shows "Tok_Issuer tok = fst (tie v) \<and> authentic jose (snd (tie v)) (answers (cache w' v)) raw payload"
proof -
  from assms obtain t0 q where "Tok_Issuer tok = fst (tie v)" "kreach jose (snd (tie v)) t0 (cache w' v)"
    "reqs (cache w' v) q = Some (raw, Done (Inr payload))" unfolding go_oidc_def by blast
  then show ?thesis using kreach_authentic by blast
qed

subsection \<open>From an identity to the issuer's answer\<close>

text \<open>
  What backs an identity: a configured issuer, whose discovery document names the JWKS address; a successful answer of that
  address, fetched with the configured client, holding a key that verifies the token's payload under the configured
  algorithms; and the identity's claims are those of that payload.
\<close>

definition backed ::
    "('jws, 'key) jose_lib \<Rightarrow> ('prov, 'key, 'v, 'c, 'w) oidc_lib \<Rightarrow> (json \<Rightarrow> json) \<Rightarrow> Options \<Rightarrow> IssuerOption \<Rightarrow>
     (http_client \<times> http_request \<times> http_response) list \<Rightarrow> string \<Rightarrow> Identity \<Rightarrow> bool" where
  "backed jose oidc ord opts iss A raw i \<longleftrightarrow>
     (\<exists>provider jwks u1 u2 payload i0.
        NewProvider oidc (discovery_client opts) (URL iss) u1 = (Inr provider, u2) \<and>
        Provider_jwks_uri oidc provider = Inr jwks \<and>
        authentic jose (newKeySet jwks (discovery_client opts) (SigningAlgs opts) (JWKSRefreshInterval opts)) A raw payload \<and>
        Parse ord payload = Inr i0 \<and> Id_claims i = Id_claims i0) \<and>
     Id_Issuer i = URL iss \<and> (\<forall>(k, want) \<in> set (RequireClaims iss). Claim i k = Some want)"

lemma Verify_backed:
  assumes "go_oidc jose oidc tie cache" and "Verify oidc ord v ctx raw w = (Inr i, w')"
    and "\<forall>u entry. issuers v u = Some entry \<longrightarrow> (\<exists>iss \<in> I. u = URL iss \<and> built oidc opts (discovery_client opts) iss entry)"
  shows "\<exists>iss \<in> I. \<exists>entry. issuers v (URL iss) = Some entry \<and>
    backed jose oidc ord opts iss (answers (cache w' (verifier entry))) raw i"
proof -
  from assms(2) obtain u entry tok payload i0 where e: "issuers v u = Some entry"
    and t: "IDTokenVerifier_Verify oidc (verifier entry) ctx raw w = (Inr tok, w')"
    and c: "IDToken_Claims oidc (Tok_claims tok) = Inr payload" and p: "Parse ord payload = Inr i0"
    and i: "i = identity_of tok i0" and r: "\<forall>(k, want) \<in> set (requireClaims entry). Claim i k = Some want"
    unfolding Verify_Inr by blast
  from assms(3) e obtain iss where iss: "iss \<in> I" "u = URL iss" "built oidc opts (discovery_client opts) iss entry" by blast
  from go_oidc_built [OF assms(1) iss(3)] go_oidc_accepts [OF assms(1) t c]
  obtain provider jwks u1 u2 where b: "NewProvider oidc (discovery_client opts) (URL iss) u1 = (Inr provider, u2)"
      "Provider_jwks_uri oidc provider = Inr jwks" "Tok_Issuer tok = URL iss"
      "authentic jose (newKeySet jwks (discovery_client opts) (SigningAlgs opts) (JWKSRefreshInterval opts))
        (answers (cache w' (verifier entry))) raw payload" by fastforce
  have "requireClaims entry = RequireClaims iss" using iss(3) by (simp add: built_def)
  with r have "\<forall>(k, want) \<in> set (RequireClaims iss). Claim i k = Some want" by simp
  moreover have "Id_claims i = Id_claims i0" "Id_Issuer i = URL iss" using i b(3) by (simp_all add: identity_of_def)
  ultimately have "backed jose oidc ord opts iss (answers (cache w' (verifier entry))) raw i"
    unfolding backed_def using b p by blast
  with iss e show ?thesis by blast
qed

subsection \<open>From a user JWT to the issuer's answer\<close>

lemma installed_entries:
  assumes "installed_from oidc x509 cel cfg st"
  shows "\<exists>fs pool. load_pool x509 fs (OIDCCACert cfg) = Inr pool \<and>
    (\<forall>u entry. issuers (rs_verifier st) u = Some entry \<longrightarrow>
       (\<exists>iss \<in> issuer_option ` set (Cfg_Issuers cfg). u = URL iss \<and>
          built oidc (verifier_options cfg pool) (discovery_client (verifier_options cfg pool)) iss entry))"
proof -
  from assms obtain fs pool where p: "load_pool x509 fs (OIDCCACert cfg) = Inr pool"
    and b: "\<forall>iss \<in> set (Cfg_Issuers cfg). \<exists>entry. issuers (rs_verifier st) (Issuer_URL iss) = Some entry \<and>
      built oidc (verifier_options cfg pool) (discovery_client (verifier_options cfg pool)) (issuer_option iss) entry"
    and d: "dom (issuers (rs_verifier st)) = Issuer_URL ` set (Cfg_Issuers cfg)"
    unfolding installed_from_def by blast
  have "\<exists>iss \<in> issuer_option ` set (Cfg_Issuers cfg). u = URL iss \<and>
      built oidc (verifier_options cfg pool) (discovery_client (verifier_options cfg pool)) iss entry"
    if e: "issuers (rs_verifier st) u = Some entry" for u entry
  proof -
    from e d obtain iss where iss: "iss \<in> set (Cfg_Issuers cfg)" "u = Issuer_URL iss" by blast
    with b e have "built oidc (verifier_options cfg pool) (discovery_client (verifier_options cfg pool)) (issuer_option iss) entry"
      by fastforce
    with iss show ?thesis by (intro bexI [of _ "issuer_option iss"]) (auto simp: issuer_option_def)
  qed
  with p show ?thesis by blast
qed

lemma service_installed:
  assumes "run_start nats tm nk oidc cel yaml pyaml x509 fs version path w0 = (Inr r, w1)"
    and "a = reloads oidc cel yaml pyaml x509 path (run_config r) rs (run_authorizer r)"
  shows "\<exists>cfg. installed_from oidc x509 cel cfg (state a)"
  unfolding assms(2) using run_start_installed [OF assms(1)] by (intro reloads_installed) blast

text \<open>C1: a user JWT is traced back to the issuer. Whatever configuration is in force after start-up and any number of reloads, a
  JWT is issued only for an identity whose issuer is configured there, with an audience of its allowlist and every claim required for
  that issuer, parsed from a payload that a key verified under the configured algorithms; the key was served with status 200 at
  the JWKS address of the issuer's discovery document, fetched with the configured client and certificates; and the JWT is
  bound to the account of a rule of the configured policy that the identity matches.\<close>

theorem issued_jwt_is_backed:
  assumes "run_start nats tm nk oidc cel yaml pyaml x509 fs version path w0 = (Inr r, w1)"
    and "a = reloads oidc cel yaml pyaml x509 path (run_config r) rs (run_authorizer r)"
    and "reply (Authorize jwt oidc cel ord clk a req w) = Some (Inr userJWT)"
    and "go_oidc jose oidc tie cache"
  shows "\<exists>cfg fs' pool iss entry w' i k uc.
    config_valid cel cfg \<and> load_pool x509 fs' (OIDCCACert cfg) = Inr pool \<and> iss \<in> set (Cfg_Issuers cfg) \<and>
    issuers (rs_verifier (state a)) (Issuer_URL iss) = Some entry \<and>
    backed jose oidc ord (verifier_options cfg pool) (issuer_option iss) (answers (cache w' (verifier entry))) (Token req) i \<and>
    Verify oidc ord (rs_verifier (state a)) (t_deadline clk + verifyTimeout a) (Token req) w = (Inr i, w') \<and>
    (\<exists>aud \<in> set (Id_Audience i). aud \<in> set (Cfg_Audiences cfg)) \<and>
    k < length (Rules (Cfg_Policy cfg)) \<and> matches cel (t_eval clk k) (Rules (Cfg_Policy cfg) ! k) i \<and>
    Encode jwt uc (signKey a) = Inr userJWT \<and> UC_Audience uc = Account (Rule_Grant (Rules (Cfg_Policy cfg) ! k))"
proof -
  from service_installed [OF assms(1,2)] obtain cfg where cfg: "installed_from oidc x509 cel cfg (state a)" by blast
  then have pol: "rs_policy (state a) = Cfg_Policy cfg" "config_valid cel cfg" "audiences (rs_verifier (state a)) = set (Cfg_Audiences cfg)"
    and v: "Validate cel (rs_policy (state a)) = (rs_policy (state a), None)" by (auto simp: installed_from_def)
  from Authorize_issues_grants [OF v assms(3)] obtain i uc k where
      i: "fst (Verify oidc ord (rs_verifier (state a)) (t_deadline clk + verifyTimeout a) (Token req) w) = Inr i"
    and tr: "trusted_identity (rs_verifier (state a)) i" and k: "k < length (Rules (rs_policy (state a)))"
      "matches cel (t_eval clk k) (Rules (rs_policy (state a)) ! k) i" "Encode jwt uc (signKey a) = Inr userJWT"
      "UC_Audience uc = Account (Rule_Grant (Rules (rs_policy (state a)) ! k))" by blast
  from i obtain w' where ver: "Verify oidc ord (rs_verifier (state a)) (t_deadline clk + verifyTimeout a) (Token req) w = (Inr i, w')"
    by (metis prod.collapse)
  from installed_entries [OF cfg] obtain fs' pool where p: "load_pool x509 fs' (OIDCCACert cfg) = Inr pool"
    and b: "\<forall>u entry. issuers (rs_verifier (state a)) u = Some entry \<longrightarrow>
       (\<exists>iss \<in> issuer_option ` set (Cfg_Issuers cfg). u = URL iss \<and>
          built oidc (verifier_options cfg pool) (discovery_client (verifier_options cfg pool)) iss entry)" by blast
  from Verify_backed [OF assms(4) ver b] obtain iss entry where "iss \<in> set (Cfg_Issuers cfg)"
      "issuers (rs_verifier (state a)) (Issuer_URL iss) = Some entry"
      "backed jose oidc ord (verifier_options cfg pool) (issuer_option iss) (answers (cache w' (verifier entry))) (Token req) i"
    by (auto simp: issuer_option_def)
  moreover have "\<exists>aud \<in> set (Id_Audience i). aud \<in> set (Cfg_Audiences cfg)" using tr pol(3) by (auto simp: trusted_identity_def)
  ultimately show ?thesis using p pol k ver by metis
qed

subsection \<open>Example\<close>

text \<open>One issuer, whose key set fetches one key and verifies the example token with it.\<close>

definition e2e_jose :: "(string, string) jose_lib" where
  "e2e_jose = \<lparr>ParseSigned = (\<lambda>raw as. if as = [] then Inl ''no algorithms'' else Inr raw), Signature_KeyIDs = (\<lambda>_. [''k1'']),
     KeyID = (\<lambda>k. k), jws_Verify = (\<lambda>jws k. if jws = example_token \<and> k = ''k1'' then Some example_claims else None),
     JSONWebKeySet_Decode = (\<lambda>body. Inr [body])\<rparr>"

definition e2e_keySet :: "string keySet" where
  "e2e_keySet = newKeySet ''https://i/jwks'' (discovery_client (verifier_options example_loaded None))
     (Cfg_SigningAlgs example_loaded) (Cfg_JWKSRefreshInterval example_loaded)"

definition e2e_events :: "event list" where
  "e2e_events = [ECall 1 example_token, ERead 1, ERefresh 1 5 5 7, EFetch 7 (toy_http 200 ''k1''), EPublish 7, EClose 7,
     EWake 1, EFinal 1]"

definition e2e_cache :: "nat \<Rightarrow> string \<times> string keySet \<Rightarrow> (string, string) sys" where
  "e2e_cache w v = the (schedule e2e_jose e2e_events (sys_init (snd v) 0))"

definition e2e_oidc :: "(string, string, string \<times> string keySet, string, nat) oidc_lib" where
  "e2e_oidc = \<lparr>NewProvider = (\<lambda>c url w. (Inr url, Suc w)), Provider_jwks_uri = (\<lambda>url. Inr (url @ ''/jwks'')),
     NewVerifier = (\<lambda>url ks cfg w. ((url, ks), w)),
     IDTokenVerifier_Verify = (\<lambda>v ctx raw w.
       (if raw = example_token \<and> v = (''https://i'', e2e_keySet) then Inr example_IDToken else Inl ''bad signature'', Suc w)),
     IDToken_Claims = Inr\<rparr>"

lemma e2e_fields:
  "keys e2e_keySet = []" "inflight e2e_keySet = None" "lastFetch e2e_keySet = zeroTime" "algs e2e_keySet \<noteq> []"
  by (simp_all add: e2e_keySet_def newKeySet_def example_loaded_simps)

lemma e2e_run:
  "\<exists>s. schedule e2e_jose e2e_events (sys_init e2e_keySet 0) = Some s \<and> reqs s 1 = Some (example_token, Done (Inr example_claims))"
proof -
  have "fetch e2e_jose (toy_http 200 ''k1'') k = Inr [''k1'']" for k :: "string keySet"
    by (simp add: fetch_def toy_http_def e2e_jose_def toy_body)
  moreover have "VerifySignature_parse e2e_jose k raw = ReadKeys raw ''k1''" if "algs k \<noteq> []" for k raw
    using that by (simp add: VerifySignature_parse_def e2e_jose_def)
  moreover have "verifyWith e2e_jose example_token ''k1'' [''k1''] = Some example_claims" by (simp add: e2e_jose_def)
  ultimately show ?thesis
    by (simp add: e2e_events_def e2e_fields sys_init_def VerifySignature_cached_def VerifySignature_final_def do_refresh_def
        refresh_section_def refresh_publish_def refresh_result_def fetch_err_def Time_IsZero_def)
qed

lemma e2e_contract: "go_oidc e2e_jose e2e_oidc (\<lambda>v. v) e2e_cache"
proof -
  obtain s where s: "schedule e2e_jose e2e_events (sys_init e2e_keySet 0) = Some s"
    "reqs s 1 = Some (example_token, Done (Inr example_claims))" using e2e_run by blast
  have "cache_start e2e_keySet 0 (sys_init e2e_keySet 0 :: (string, string) sys)"
    by (auto simp: cache_start_def e2e_keySet_def zeroTime_def)
  then have "kreach e2e_jose e2e_keySet 0 s" using schedule_sound [OF s(1)] by (auto simp: kreach_def)
  with s show ?thesis
    by (auto simp: go_oidc_def e2e_oidc_def e2e_cache_def example_IDToken_def split: if_splits)
qed

definition e2e_verifier :: "(string \<times> string keySet) Verifier" where
  "e2e_verifier = \<lparr>issuers = [''https://i'' \<mapsto> \<lparr>verifier = (''https://i'', e2e_keySet), requireClaims = [(''team'', ''a'')]\<rparr>],
     audiences = {''nats''}\<rparr>"

lemma e2e_buildVerifier: "buildVerifier e2e_oidc example_x509 example_files example_loaded w = (Inr e2e_verifier, Suc w)"
  by (simp add: buildVerifier_def load_pool_def verifier_New_def e2e_oidc_def e2e_verifier_def e2e_keySet_def)
     (simp add: verifier_options_def example_loaded_simps)

lemma e2e_Verify: "Verify e2e_oidc (\<lambda>v. v) e2e_verifier ctx example_token w = (Inr verified_identity, Suc w)"
proof -
  have "example_token \<noteq> []" by (simp add: example_token_def)
  moreover have "IDTokenVerifier_Verify e2e_oidc (''https://i'', e2e_keySet) ctx example_token w = (Inr example_IDToken, Suc w)"
    by (simp add: e2e_oidc_def)
  ultimately show ?thesis
    by (simp add: Verify_def example_token_issuer e2e_verifier_def example_IDToken_def Let_def
        example_claims_parse Claim_def verified_identity_def)
       (simp add: e2e_oidc_def example_claims_parse example_IDToken_def Claim_def)
qed

definition e2e_running :: "(string \<times> string keySet, bool, bool, unit, unit, unit) running" where
  "e2e_running = \<lparr>run_authorizer = callout_New e2e_verifier example_validated True
       (TrackNATSConnection (\<lambda>_. True) (Some metrics_New)) Cfg_DefaultVerifyTimeout,
     run_config = example_loaded, run_nc = (), run_svc = ()\<rparr>"

lemma e2e_run_start:
  "run_start example_nats example_time example_nkeys e2e_oidc const_cel example_config_yaml example_yaml example_x509 example_files
     ''dev'' ''c'' 0 = (Inr e2e_running, 4)"
  by (simp add: run_start_def example_files_Load e2e_buildVerifier load_xkey_def start_metrics_def start_service_def
      connectNATS_def auth_option_def nkeyOption_def tlsConfig_def e2e_running_def)

lemma e2e_reply:
  "reply (Authorize example_jwt e2e_oidc const_cel (\<lambda>v. v) clk (run_authorizer e2e_running) example_request w) = Some (Inr ''jwt UA'')"
  by (simp add: Authorize_def e2e_running_def callout_New_def example_request_def e2e_Verify verified_evaluates example_jwt_def
      example_token_nonempty userClaims_def Let_def)

theorem issued_jwt_is_backed_witness:
  "\<exists>(cfg :: bool Config) pool iss entry (w' :: nat) (i :: Identity). iss \<in> set (Cfg_Issuers cfg) \<and>
    issuers e2e_verifier (Issuer_URL iss) = Some entry \<and>
    backed e2e_jose e2e_oidc (\<lambda>v. v) (verifier_options cfg pool) (issuer_option iss) (answers (e2e_cache w' (verifier entry)))
      (Token example_request) i"
proof -
  let ?a = "run_authorizer e2e_running"
  have a: "?a = reloads e2e_oidc const_cel example_config_yaml example_yaml example_x509 ''c'' (run_config e2e_running) [] ?a" by simp
  have v: "rs_verifier (state ?a) = e2e_verifier" by (simp add: e2e_running_def callout_New_def)
  from issued_jwt_is_backed [OF e2e_run_start a e2e_reply [of example_clock 20] e2e_contract] show ?thesis
    unfolding v by blast
qed

end
