(* ===== verification/Reloading.thy ===== *)
theory Reloading
  imports CalloutProps
begin

text \<open>
  Concurrent requests and reloads. \<open>Authorize\<close> touches shared state at three points: it loads the ruleset pointer,
  it verifies the token (which acts on the world), and it evaluates and signs. \<open>cstep\<close> interleaves these phases of any
  number of requests with \<open>Reload\<close>; running the phases of one request without interruption is \<open>Authorize\<close>. The field
  \<open>installed\<close> records every ruleset ever stored, and a request records how many there were when it loaded its own.
\<close>

subsection \<open>Phases of a request\<close>

definition phase_verify ::
    "('prov, 'key, 'v, 'c, 'w) oidc_lib \<Rightarrow> (json \<Rightarrow> json) \<Rightarrow> ('v, 'prg) ruleset \<Rightarrow> time \<Rightarrow> string \<Rightarrow> 'w \<Rightarrow>
     Identity option \<times> 'w" where
  "phase_verify oidc ord st ctx token w =
     (if token = [] then (None, w)
      else case Verify oidc ord (rs_verifier st) ctx token w of (Inl _, w') \<Rightarrow> (None, w') | (Inr i, w') \<Rightarrow> (Some i, w'))"

definition phase_grant ::
    "('kp, 'x) jwt_lib \<Rightarrow> ('env, 'ast, 'prg) cel_lib \<Rightarrow> ('v, 'prg) ruleset \<Rightarrow> 'kp \<Rightarrow> string \<Rightarrow> (nat \<Rightarrow> time) \<Rightarrow> time \<Rightarrow>
     Identity \<Rightarrow> (denied + string) option" where
  "phase_grant jwt cel st key nkey ev cap i =
     (case Evaluate cel ev (rs_policy st) i of
        Inl _ \<Rightarrow> Some (Inl errDenied)
      | Inr d \<Rightarrow>
          (case NewUserClaims jwt nkey of
             None \<Rightarrow> None
           | Some uc \<Rightarrow> Some (map_sum (\<lambda>_. errDenied) id (Encode jwt (userClaims uc i d cap) key))))"

lemma Authorize_phases:
  "reply (Authorize jwt oidc cel ord clk a req w) =
     (case phase_verify oidc ord (state a) (t_deadline clk + verifyTimeout a) (Token req) w of
        (None, _) \<Rightarrow> Some (Inl errDenied)
      | (Some i, _) \<Rightarrow> phase_grant jwt cel (state a) (signKey a) (UserNkey req) (t_eval clk) (t_cap clk) i)"
  and Authorize_world:
  "out_world (Authorize jwt oidc cel ord clk a req w) =
     snd (phase_verify oidc ord (state a) (t_deadline clk + verifyTimeout a) (Token req) w)"
  by (auto simp: Authorize_def phase_verify_def phase_grant_def Let_def split: sum.splits prod.splits option.splits)

subsection \<open>Interleavings\<close>

datatype ('v, 'prg) apc =
    ALoaded "('v, 'prg) ruleset"
  | AVerified "('v, 'prg) ruleset" Identity
  | AReplied "(denied + string) option"

record ('v, 'prg, 'kp, 'n, 'w) csys =
  authorizer :: "('v, 'prg, 'kp, 'n) Authorizer"
  world :: 'w
  creqs :: "nat \<rightharpoonup> AuthorizationRequest \<times> nat \<times> ('v, 'prg) apc"
  installed :: "('v, 'prg) ruleset list"

inductive cstep ::
    "('kp, 'x) jwt_lib \<Rightarrow> ('prov, 'key, 'v, 'c, 'w) oidc_lib \<Rightarrow> ('env, 'ast, 'prg) cel_lib \<Rightarrow> (json \<Rightarrow> json) \<Rightarrow>
     ('v, 'prg, 'kp, 'n, 'w) csys \<Rightarrow> ('v, 'prg, 'kp, 'n, 'w) csys \<Rightarrow> bool"
  for jwt :: "('kp, 'x) jwt_lib" and oidc :: "('prov, 'key, 'v, 'c, 'w) oidc_lib"
  and cel :: "('env, 'ast, 'prg) cel_lib" and ord :: "json \<Rightarrow> json" where
  Load: "creqs s q = None \<Longrightarrow>
     cstep jwt oidc cel ord s
       (s\<lparr>creqs := (creqs s)(q \<mapsto> (req, length (installed s), ALoaded (state (authorizer s))))\<rparr>)"
| Check: "creqs s q = Some (req, n, ALoaded st) \<Longrightarrow> phase_verify oidc ord st ctx (Token req) (world s) = (res, w') \<Longrightarrow>
     cstep jwt oidc cel ord s (s\<lparr>world := w', creqs := (creqs s)(q \<mapsto>
       (req, n, case res of None \<Rightarrow> AReplied (Some (Inl errDenied)) | Some i \<Rightarrow> AVerified st i))\<rparr>)"
| Grant: "creqs s q = Some (req, n, AVerified st i) \<Longrightarrow>
     cstep jwt oidc cel ord s (s\<lparr>creqs := (creqs s)(q \<mapsto>
       (req, n, AReplied (phase_grant jwt cel st (signKey (authorizer s)) (UserNkey req) ev cap i)))\<rparr>)"
| Swap: "cstep jwt oidc cel ord s (s\<lparr>authorizer := Reload v p (authorizer s),
     installed := installed s @ [\<lparr>rs_verifier = v, rs_policy = p\<rparr>]\<rparr>)"

definition cstart :: "('v, 'prg, 'kp, 'n) Authorizer \<Rightarrow> ('v, 'prg, 'kp, 'n, 'w) csys \<Rightarrow> bool" where
  "cstart a s \<longleftrightarrow> authorizer s = a \<and> creqs s = Map.empty \<and> installed s = [state a]"

definition creach ::
    "('kp, 'x) jwt_lib \<Rightarrow> ('prov, 'key, 'v, 'c, 'w) oidc_lib \<Rightarrow> ('env, 'ast, 'prg) cel_lib \<Rightarrow> (json \<Rightarrow> json) \<Rightarrow>
     ('v, 'prg, 'kp, 'n) Authorizer \<Rightarrow> ('v, 'prg, 'kp, 'n, 'w) csys \<Rightarrow> bool" where
  "creach jwt oidc cel ord a s \<longleftrightarrow> (\<exists>s0. cstart a s0 \<and> (cstep jwt oidc cel ord)\<^sup>*\<^sup>* s0 s)"

text \<open>What a request may claim about itself: it loaded the \<open>n\<close>-th ruleset, and still works with that one.\<close>

definition answered ::
    "('kp, 'x) jwt_lib \<Rightarrow> ('prov, 'key, 'v, 'c, 'w) oidc_lib \<Rightarrow> ('env, 'ast, 'prg) cel_lib \<Rightarrow> (json \<Rightarrow> json) \<Rightarrow>
     'kp \<Rightarrow> ('v, 'prg) ruleset \<Rightarrow> AuthorizationRequest \<Rightarrow> (denied + string) option \<Rightarrow> bool" where
  "answered jwt oidc cel ord key st req r \<longleftrightarrow>
     (\<exists>ctx w. fst (phase_verify oidc ord st ctx (Token req) w) = None \<and> r = Some (Inl errDenied)) \<or>
     (\<exists>ctx w i ev cap. fst (phase_verify oidc ord st ctx (Token req) w) = Some i \<and>
        r = phase_grant jwt cel st key (UserNkey req) ev cap i)"

fun apc_ok ::
    "('kp, 'x) jwt_lib \<Rightarrow> ('prov, 'key, 'v, 'c, 'w) oidc_lib \<Rightarrow> ('env, 'ast, 'prg) cel_lib \<Rightarrow> (json \<Rightarrow> json) \<Rightarrow>
     'kp \<Rightarrow> ('v, 'prg) ruleset \<Rightarrow> AuthorizationRequest \<Rightarrow> ('v, 'prg) apc \<Rightarrow> bool" where
  "apc_ok jwt oidc cel ord key st req (ALoaded st') = (st' = st)"
| "apc_ok jwt oidc cel ord key st req (AVerified st' i) =
     (st' = st \<and> (\<exists>ctx w. fst (phase_verify oidc ord st ctx (Token req) w) = Some i))"
| "apc_ok jwt oidc cel ord key st req (AReplied r) = answered jwt oidc cel ord key st req r"

definition cinv ::
    "('kp, 'x) jwt_lib \<Rightarrow> ('prov, 'key, 'v, 'c, 'w) oidc_lib \<Rightarrow> ('env, 'ast, 'prg) cel_lib \<Rightarrow> (json \<Rightarrow> json) \<Rightarrow>
     'kp \<Rightarrow> ('v, 'prg, 'kp, 'n, 'w) csys \<Rightarrow> bool" where
  "cinv jwt oidc cel ord key s \<longleftrightarrow>
     signKey (authorizer s) = key \<and> installed s \<noteq> [] \<and> last (installed s) = state (authorizer s) \<and>
     (\<forall>q req n p. creqs s q = Some (req, n, p) \<longrightarrow>
        0 < n \<and> n \<le> length (installed s) \<and> apc_ok jwt oidc cel ord key (installed s ! (n - 1)) req p)"

lemma cinv_request:
  assumes "cinv jwt oidc cel ord key s" and "authorizer t = authorizer s" and "installed t = installed s"
    and "creqs t = (creqs s)(q \<mapsto> (req, n, p))" and "0 < n" and "n \<le> length (installed s)"
    and "apc_ok jwt oidc cel ord key (installed s ! (n - 1)) req p"
  shows "cinv jwt oidc cel ord key t"
  using assms by (auto simp: cinv_def)

lemma cinv_requestD:
  assumes "cinv jwt oidc cel ord key s" and "creqs s q = Some (req, n, p)"
  shows "0 < n" and "n \<le> length (installed s)" and "apc_ok jwt oidc cel ord key (installed s ! (n - 1)) req p"
  using assms by (auto simp: cinv_def)

lemma cinv_step: "cinv jwt oidc cel ord key s \<Longrightarrow> cstep jwt oidc cel ord s t \<Longrightarrow> cinv jwt oidc cel ord key t"
proof (rotate_tac, induction rule: cstep.induct)
  case (Load s q req)
  then have "installed s ! (length (installed s) - 1) = state (authorizer s)" and "installed s \<noteq> []"
    by (auto simp: cinv_def last_conv_nth)
  then show ?case by (intro cinv_request [OF Load.prems]) auto
next
  case (Check s q req n st ctx res w')
  note inv = cinv_requestD [OF Check.prems Check.hyps(1)]
  have "fst (phase_verify oidc ord st ctx (Token req) (world s)) = res" using Check.hyps(2) by simp
  with inv have "apc_ok jwt oidc cel ord key (installed s ! (n - 1)) req
      (case res of None \<Rightarrow> AReplied (Some (Inl errDenied)) | Some i \<Rightarrow> AVerified st i)"
    unfolding apc_ok.simps by (cases res) (auto simp: answered_def)
  with inv show ?case by (intro cinv_request [OF Check.prems, where q = q and req = req and n = n]) simp_all
next
  case (Grant s q req n st i ev cap)
  note inv = cinv_requestD [OF Grant.prems Grant.hyps]
  have "signKey (authorizer s) = key" using Grant.prems by (simp add: cinv_def)
  with inv show ?case
    by (intro cinv_request [OF Grant.prems, where q = q and req = req and n = n])
       (force simp: answered_def)+
next
  case (Swap s v p)
  have "(installed s @ [st]) ! (n - 1) = installed s ! (n - 1)" and "n \<le> length (installed s @ [st])"
    if "creqs s q = Some (req, n, pc)" for q req n pc st
    using cinv_requestD [OF Swap that] by (auto simp: nth_append)
  with Swap show ?case by (fastforce simp: cinv_def Reload_def)
qed

interpretation reloading: invariant_system "cstart a" "cstep jwt oidc cel ord" "cinv jwt oidc cel ord (signKey a)"
  for a jwt oidc cel ord
proof
  show "cstart a s \<Longrightarrow> cinv jwt oidc cel ord (signKey a) s" for s
    by (simp add: cstart_def cinv_def)
qed (rule cinv_step)

text \<open>C10: a reload is atomic for every request, however requests and reloads interleave: the answer of a request is that of
  verifying its token with the verifier, and evaluating the policy, of one and the same ruleset, the one that was
  installed when the request loaded it. No request mixes an old verifier with a new policy or the other way round,
  and none that starts after a reload uses an older ruleset.\<close>

theorem reload_is_atomic:
  assumes "creach jwt oidc cel ord a s" and "creqs s q = Some (req, n, AReplied r)"
  shows "0 < n \<and> n \<le> length (installed s) \<and>
    ((\<exists>ctx w. fst (phase_verify oidc ord (installed s ! (n - 1)) ctx (Token req) w) = None \<and>
        r = Some (Inl errDenied)) \<or>
     (\<exists>ctx w i ev cap. fst (phase_verify oidc ord (installed s ! (n - 1)) ctx (Token req) w) = Some i \<and>
        r = phase_grant jwt cel (installed s ! (n - 1)) (signKey a) (UserNkey req) ev cap i))"
proof -
  have "cinv jwt oidc cel ord (signKey a) s"
    using assms(1) reloading.inv_reachable [of a jwt oidc cel ord s]
    by (simp add: creach_def transition_system.reachable_def)
  from cinv_requestD [OF this assms(2)] show ?thesis unfolding apc_ok.simps answered_def by blast
qed

text \<open>A request that starts before a reload and finishes after it.\<close>

definition reload_run :: "(string, bool, bool, unit, nat) csys" where
  "reload_run = \<lparr>authorizer = Reload (example_verifier\<lparr>issuers := Map.empty\<rparr>) broad_policy (example_authorizer True),
     world = 1, creqs = [1 \<mapsto> (example_request, 1, AReplied (Some (Inr ''jwt UA'')))],
     installed = [\<lparr>rs_verifier = example_verifier, rs_policy = example_validated\<rparr>,
       \<lparr>rs_verifier = example_verifier\<lparr>issuers := Map.empty\<rparr>, rs_policy = broad_policy\<rparr>]\<rparr>"

lemma reload_run_reachable: "creach example_jwt example_oidc const_cel (\<lambda>v. v) (example_authorizer True) reload_run"
proof -
  let ?step = "cstep example_jwt example_oidc const_cel (\<lambda>v. v)"
  let ?st = "\<lparr>rs_verifier = example_verifier, rs_policy = example_validated\<rparr>"
  define s0 :: "(string, bool, bool, unit, nat) csys" where
    "s0 = \<lparr>authorizer = example_authorizer True, world = 0, creqs = Map.empty, installed = [?st]\<rparr>"
  define s1 where "s1 = s0\<lparr>creqs := [1 \<mapsto> (example_request, 1, ALoaded ?st)]\<rparr>"
  define s2 where "s2 = s1\<lparr>authorizer := Reload (example_verifier\<lparr>issuers := Map.empty\<rparr>) broad_policy (authorizer s1),
    installed := [?st, \<lparr>rs_verifier = example_verifier\<lparr>issuers := Map.empty\<rparr>, rs_policy = broad_policy\<rparr>]\<rparr>"
  define s3 where "s3 = s2\<lparr>world := 1, creqs := [1 \<mapsto> (example_request, 1, AVerified ?st verified_identity)]\<rparr>"
  have "?step s0 s1"
    using cstep.Load [of s0 1 example_jwt example_oidc const_cel "\<lambda>v. v" example_request]
    by (simp add: s0_def s1_def example_authorizer_def callout_New_def)
  moreover have "?step s1 s2"
    using cstep.Swap [of example_jwt example_oidc const_cel "\<lambda>v. v" s1 "example_verifier\<lparr>issuers := Map.empty\<rparr>" broad_policy]
    by (simp add: s0_def s1_def s2_def)
  moreover have "?step s2 s3"
    using cstep.Check [of s2 1 example_request 1 ?st example_oidc "\<lambda>v. v" 0 "Some verified_identity" 1 example_jwt const_cel]
    by (simp add: s0_def s1_def s2_def s3_def phase_verify_def example_request_def example_token_nonempty example_Verify)
  moreover have "?step s3 reload_run"
    using cstep.Grant [of s3 1 example_request 1 ?st verified_identity example_jwt example_oidc const_cel "\<lambda>v. v" "\<lambda>_. 0" 0]
    by (simp add: s0_def s1_def s2_def s3_def phase_grant_def reload_run_def verified_evaluates example_request_def
        example_jwt_def example_authorizer_def callout_New_def Reload_def userClaims_def)
  ultimately have "?step\<^sup>*\<^sup>* s0 reload_run" by (meson converse_rtranclp_into_rtranclp rtranclp.rtrancl_refl)
  moreover have "cstart (example_authorizer True) s0"
    by (simp add: s0_def cstart_def example_authorizer_def callout_New_def)
  ultimately show ?thesis by (auto simp: creach_def)
qed

theorem reload_is_atomic_witness:
  "\<exists>ctx w i. fst (phase_verify example_oidc (\<lambda>v. v) \<lparr>rs_verifier = example_verifier, rs_policy = example_validated\<rparr> ctx
     example_token w) = Some i"
proof -
  have "creqs reload_run 1 = Some (example_request, 1, AReplied (Some (Inr ''jwt UA'')))" by (simp add: reload_run_def)
  from reload_is_atomic [OF reload_run_reachable this] show ?thesis
    by (auto simp: reload_run_def example_request_def)
qed

end
