(* ===== verification/Watching.thy ===== *)
theory Watching
  imports ServiceProps
begin

text \<open>
  The reload loop of \<open>main.go\<close> (\<open>watchReloads\<close>). The signal channel has one slot: a signal that
  arrives while one is pending is dropped by the runtime. Files change at any time; the counters \<open>edits\<close>, \<open>announced\<close> and
  \<open>attempted\<close> are ghosts that number the changes, and say which was the last one before the latest signal and before the
  latest reload.
\<close>

subsection \<open>Model\<close>

datatype watch_phase = Selecting | ReloadingConfig | Returned

record ('v, 'prg, 'kp, 'n, 'w) wsys =
  w_authorizer :: "('v, 'prg, 'kp, 'n) Authorizer"
  w_world :: 'w
  w_files :: file_system
  hup :: bool
  ctx_done :: bool
  w_phase :: watch_phase
  w_log :: "reload_log list"
  edits :: nat
  announced :: nat
  attempted :: nat

inductive watchReloads ::
    "('prov, 'key, 'v, 'c, 'w) oidc_lib \<Rightarrow> ('env, 'ast, 'prg) cel_lib \<Rightarrow> 'prg Config yaml_lib \<Rightarrow> 'prg Policy yaml_lib \<Rightarrow>
     'cert x509_lib \<Rightarrow> string \<Rightarrow> 'prg Config \<Rightarrow> ('v, 'prg, 'kp, 'n, 'w) wsys \<Rightarrow> ('v, 'prg, 'kp, 'n, 'w) wsys \<Rightarrow> bool"
  for oidc :: "('prov, 'key, 'v, 'c, 'w) oidc_lib" and cel :: "('env, 'ast, 'prg) cel_lib"
  and yaml :: "'prg Config yaml_lib" and pyaml :: "'prg Policy yaml_lib" and x509 :: "'cert x509_lib"
  and path :: string and startup :: "'prg Config" where
  Edit: "watchReloads oidc cel yaml pyaml x509 path startup s
     (s\<lparr>w_files := fs, w_world := w, edits := Suc (edits s)\<rparr>)"
| Signal: "w_phase s \<noteq> Returned \<Longrightarrow>
     watchReloads oidc cel yaml pyaml x509 path startup s (s\<lparr>hup := True, announced := edits s\<rparr>)"
| Cancel: "watchReloads oidc cel yaml pyaml x509 path startup s (s\<lparr>ctx_done := True\<rparr>)"
| Receive: "w_phase s = Selecting \<Longrightarrow> hup s \<Longrightarrow>
     watchReloads oidc cel yaml pyaml x509 path startup s (s\<lparr>hup := False, w_phase := ReloadingConfig\<rparr>)"
| Perform: "w_phase s = ReloadingConfig \<Longrightarrow>
     reloadConfig oidc cel yaml pyaml x509 (w_files s) path startup (w_authorizer s) (w_world s) = (a, w, log) \<Longrightarrow>
     watchReloads oidc cel yaml pyaml x509 path startup s
       (s\<lparr>w_authorizer := a, w_world := w, w_log := w_log s @ log, w_phase := Selecting, attempted := edits s\<rparr>)"
| Return: "w_phase s = Selecting \<Longrightarrow> ctx_done s \<Longrightarrow>
     watchReloads oidc cel yaml pyaml x509 path startup s (s\<lparr>w_phase := Returned\<rparr>)"

definition watch_start :: "('v, 'prg, 'kp, 'n) Authorizer \<Rightarrow> ('v, 'prg, 'kp, 'n, 'w) wsys \<Rightarrow> bool" where
  "watch_start a s \<longleftrightarrow> w_authorizer s = a \<and> \<not> hup s \<and> \<not> ctx_done s \<and> w_phase s = Selecting \<and> w_log s = [] \<and>
     edits s = 0 \<and> announced s = 0 \<and> attempted s = 0"

subsection \<open>No announced change is lost\<close>

lemma reloads_snoc:
  "reloads oidc cel yaml pyaml x509 path startup (rs @ [(fs, w)]) a =
     fst (reloadConfig oidc cel yaml pyaml x509 fs path startup (reloads oidc cel yaml pyaml x509 path startup rs a) w)"
  by (induction oidc cel yaml pyaml x509 path startup rs a rule: reloads.induct) simp_all

definition winv ::
    "('prov, 'key, 'v, 'c, 'w) oidc_lib \<Rightarrow> ('env, 'ast, 'prg) cel_lib \<Rightarrow> 'prg Config yaml_lib \<Rightarrow> 'prg Policy yaml_lib \<Rightarrow>
     'cert x509_lib \<Rightarrow> string \<Rightarrow> 'prg Config \<Rightarrow> ('v, 'prg, 'kp, 'n) Authorizer \<Rightarrow> ('v, 'prg, 'kp, 'n, 'w) wsys \<Rightarrow> bool" where
  "winv oidc cel yaml pyaml x509 path startup a0 s \<longleftrightarrow>
     (\<exists>rs. w_authorizer s = reloads oidc cel yaml pyaml x509 path startup rs a0) \<and>
     announced s \<le> edits s \<and> attempted s \<le> edits s \<and>
     (hup s \<or> w_phase s \<noteq> Selecting \<or> announced s \<le> attempted s)"

lemma winv_step:
  assumes "winv oidc cel yaml pyaml x509 path startup a0 s" and "watchReloads oidc cel yaml pyaml x509 path startup s t"
  shows "winv oidc cel yaml pyaml x509 path startup a0 t"
  using assms(2,1)
proof (induction rule: watchReloads.induct)
  case (Perform s a w log)
  from Perform.prems obtain rs where "w_authorizer s = reloads oidc cel yaml pyaml x509 path startup rs a0"
    by (auto simp: winv_def)
  with Perform.hyps(2) have "a = reloads oidc cel yaml pyaml x509 path startup (rs @ [(w_files s, w_world s)]) a0"
    by (simp add: reloads_snoc)
  with Perform.prems show ?case by (auto simp: winv_def)
qed (auto simp: winv_def)

interpretation watching: invariant_system "watch_start a0" "watchReloads oidc cel yaml pyaml x509 path startup"
  "winv oidc cel yaml pyaml x509 path startup a0"
proof unfold_locales
  show "winv oidc cel yaml pyaml x509 path startup a0 s" if "watch_start a0 s" for s
    using that by (auto simp: winv_def watch_start_def intro: exI [of _ "[]"])
qed (rule winv_step)

lemma winv_run:
  assumes "watch_start a0 s0" and "(watchReloads oidc cel yaml pyaml x509 path startup)\<^sup>*\<^sup>* s0 s"
  shows "winv oidc cel yaml pyaml x509 path startup a0 s"
  using assms by (intro watching.inv_reachable) (auto simp: watching.reachable_def)

text \<open>C23: no announced change of the configuration is lost, although signals that arrive while one is pending are dropped:
  whenever the reload loop waits with no signal pending, its last reload read the files as they were at the latest signal
  or later. The authorizer is at every moment the result of a sequence of reloads of the one the service started with.\<close>

theorem sighup_not_lost:
  assumes "watch_start a0 s0" and "(watchReloads oidc cel yaml pyaml x509 path startup)\<^sup>*\<^sup>* s0 s"
  shows "(w_phase s = Selecting \<and> \<not> hup s \<longrightarrow> announced s \<le> attempted s) \<and>
    (\<exists>rs. w_authorizer s = reloads oidc cel yaml pyaml x509 path startup rs a0)"
  using winv_run [OF assms] by (auto simp: winv_def)

text \<open>A change, two signals of which one is dropped, and one reload.\<close>

definition watch_example :: "(string, bool, bool, unit, nat) wsys" where
  "watch_example = \<lparr>w_authorizer = example_authorizer True, w_world = 0, w_files = (\<lambda>_. Inl ''gone''), hup = False,
     ctx_done = False, w_phase = Selecting, w_log = [], edits = 0, announced = 0, attempted = 0\<rparr>"

definition watch_example_end :: "(string, bool, bool, unit, nat) wsys" where
  "watch_example_end = watch_example\<lparr>w_authorizer := Reload example_verifier example_validated (example_authorizer True),
     w_world := 1, w_files := example_files, w_log := [Reloaded 1 2], edits := 1, announced := 1, attempted := 1\<rparr>"

lemma watch_example_run:
  "(watchReloads example_oidc const_cel example_config_yaml example_yaml example_x509 ''c'' example_loaded)\<^sup>*\<^sup>*
     watch_example watch_example_end"
proof -
  let ?step = "watchReloads example_oidc const_cel example_config_yaml example_yaml example_x509 ''c'' example_loaded"
  define s1 where "s1 = watch_example\<lparr>w_files := example_files, edits := 1\<rparr>"
  define s2 where "s2 = s1\<lparr>hup := True, announced := 1\<rparr>"
  define s3 where "s3 = s2\<lparr>hup := False, w_phase := ReloadingConfig\<rparr>"
  have "?step watch_example s1"
    using watchReloads.Edit [of example_oidc const_cel example_config_yaml example_yaml example_x509 "''c''" example_loaded
      watch_example 0 example_files]
    by (simp add: s1_def watch_example_def)
  moreover have "?step s1 s2" and "?step s2 s2"
    using watchReloads.Signal [of s1 example_oidc const_cel example_config_yaml example_yaml example_x509 "''c''" example_loaded]
      watchReloads.Signal [of s2 example_oidc const_cel example_config_yaml example_yaml example_x509 "''c''" example_loaded]
    by (simp_all add: s1_def s2_def watch_example_def)
  moreover have "?step s2 s3"
    using watchReloads.Receive [of s2 example_oidc const_cel example_config_yaml example_yaml example_x509 "''c''" example_loaded]
    by (simp add: s1_def s2_def s3_def watch_example_def)
  moreover have "?step s3 watch_example_end"
    using watchReloads.Perform [of s3 example_oidc const_cel example_config_yaml example_yaml example_x509 "''c''" example_loaded]
    by (simp add: s1_def s2_def s3_def watch_example_def watch_example_end_def example_reload)
  ultimately show ?thesis by (meson converse_rtranclp_into_rtranclp rtranclp.rtrancl_refl)
qed

theorem sighup_not_lost_witness: "announced watch_example_end \<le> attempted watch_example_end"
proof -
  have "watch_start (example_authorizer True) watch_example" by (simp add: watch_start_def watch_example_def)
  from sighup_not_lost [OF this watch_example_run] show ?thesis by (simp add: watch_example_end_def watch_example_def)
qed

end
