(* ===== verification/GoJsonEnc.thy ===== *)
theory GoJsonEnc
  imports GoText
begin

text \<open>
  The string encoder of \<open>encoding/json\<close> as \<open>Marshal\<close> uses it (HTML escaping on), and that the reader of \<open>GoJson\<close> reads
  back what it writes. Bytes that are not well-formed UTF-8 are replaced, so the round trip is stated for
  ASCII strings, which is all the program ever encodes (tokens, hexadecimal fingerprints, a version tag).
\<close>

definition html_unsafe :: "char \<Rightarrow> bool" where
  "html_unsafe c \<longleftrightarrow> c = CHR ''<'' \<or> c = CHR ''>'' \<or> c = CHR ''&''"

definition ascii_escape :: "char \<Rightarrow> string" where
  "ascii_escape c =
     (if c = CHR 0x22 \<or> c = CHR 0x5C then [CHR 0x5C, c]
      else if c = CHR 0x08 then [CHR 0x5C, CHR ''b'']
      else if c = CHR 0x0C then [CHR 0x5C, CHR ''f'']
      else if c = CHR 0x0A then [CHR 0x5C, CHR ''n'']
      else if c = CHR 0x0D then [CHR 0x5C, CHR ''r'']
      else if c = CHR 0x09 then [CHR 0x5C, CHR ''t'']
      else if byte c < 32 \<or> html_unsafe c
      then [CHR 0x5C, CHR ''u'', CHR ''0'', CHR ''0'', hex_digit (byte c div 16), hex_digit (byte c mod 16)]
      else [c])"

definition line_separator :: "string \<Rightarrow> bool" where
  "line_separator s \<longleftrightarrow> take 3 s = utf8_encode 8232 \<or> take 3 s = utf8_encode 8233"

function json_escape :: "string \<Rightarrow> string" where
  "json_escape s =
     (case s of
        [] \<Rightarrow> []
      | c # cs \<Rightarrow>
          if byte c < 128 then ascii_escape c @ json_escape cs
          else if utf8_len s = 0 then [CHR 0x5C] @ ''ufffd'' @ json_escape cs
          else if line_separator s
          then [CHR 0x5C] @ ''u202'' @ (if take 3 s = utf8_encode 8232 then ''8'' else ''9'') @ json_escape (drop 3 s)
          else take (utf8_len s) s @ json_escape (drop (utf8_len s) s))"
  by pat_completeness auto
termination
  by (relation "measure length") auto

declare json_escape.simps [simp del]

definition json_quote :: "string \<Rightarrow> string" where
  "json_quote s = [CHR 0x22] @ json_escape s @ [CHR 0x22]"

text \<open>An object whose members are strings, as \<open>Marshal\<close> writes a struct with string fields.\<close>

fun json_members :: "(string \<times> string) list \<Rightarrow> string" where
  "json_members [] = []"
| "json_members [(k, v)] = json_quote k @ '':'' @ json_quote v"
| "json_members ((k, v) # kvs) = json_quote k @ '':'' @ json_quote v @ '','' @ json_members kvs"

definition json_Marshal :: "(string \<times> string) list \<Rightarrow> string" where
  "json_Marshal kvs = ''{'' @ json_members kvs @ ''}''"

subsection \<open>Reading back\<close>

definition ascii :: "string \<Rightarrow> bool" where
  "ascii s \<longleftrightarrow> (\<forall>c \<in> set s. byte c < 128)"

lemma ascii_simps [simp]: "ascii []" "ascii (c # s) \<longleftrightarrow> byte c < 128 \<and> ascii s"
  by (auto simp: ascii_def)

lemma json_escape_simps [simp]:
  "json_escape [] = []" "byte c < 128 \<Longrightarrow> json_escape (c # s) = ascii_escape c @ json_escape s"
  by (simp_all add: json_escape.simps)

lemma scan_body_plain:
  "c \<noteq> CHR 0x22 \<Longrightarrow> c \<noteq> CHR 0x5C \<Longrightarrow> \<not> byte c < 32 \<Longrightarrow> scan_body (c # t) = prepend [c] (scan_body t)"
  by (simp add: scan_body.simps)

lemma scan_body_escape:
  "e \<in> set [CHR 0x22, CHR 0x5C, CHR ''/'', CHR ''b'', CHR ''f'', CHR ''n'', CHR ''r'', CHR ''t''] \<Longrightarrow>
   scan_body (CHR 0x5C # e # t) = prepend [CHR 0x5C, e] (scan_body t)"
  by (subst scan_body.simps) auto

lemma scan_body_unicode:
  "hex_value a \<noteq> None \<Longrightarrow> hex_value b \<noteq> None \<Longrightarrow> hex_value c \<noteq> None \<Longrightarrow> hex_value d \<noteq> None \<Longrightarrow>
   scan_body (CHR 0x5C # CHR ''u'' # a # b # c # d # t) = prepend [CHR 0x5C, CHR ''u'', a, b, c, d] (scan_body t)"
  by (subst scan_body.simps) auto

lemma hex_zero: "hex_value CHR ''0'' = Some 0"
  by (simp add: hex_value_def byte_def)

lemma scan_ascii_escape:
  assumes "byte c < 128"
  shows "scan_body (ascii_escape c @ t) = prepend (ascii_escape c) (scan_body t)"
proof -
  have "byte c div 16 < 16" "byte c mod 16 < 16" using assms by auto
  then show ?thesis
    by (auto simp: ascii_escape_def scan_body_plain scan_body_escape scan_body_unicode hex_value_digit hex_zero)
qed

lemma prepend_Some [simp]: "prepend p (Some (b, r)) = Some (p @ b, r)"
  by (simp add: prepend_def)

lemma scan_json_escape: "ascii s \<Longrightarrow> scan_body (json_escape s @ CHR 0x22 # rest) = Some (json_escape s, rest)"
proof (induction s)
  case Nil
  then show ?case by (simp add: scan_body.simps)
next
  case (Cons c s)
  then show ?case by (simp add: scan_ascii_escape)
qed

lemma unquote_plain: "c \<noteq> CHR 0x5C \<Longrightarrow> byte c < 128 \<Longrightarrow> unquote (c # t) = c # unquote t"
  by (simp add: unquote.simps)

lemma unquote_escape: "e \<noteq> CHR ''u'' \<Longrightarrow> unquote (CHR 0x5C # e # t) = escape_byte e # unquote t"
  by (subst unquote.simps) (simp add: getu4_def)

lemma unquote_unicode:
  assumes "byte c < 128"
  shows "unquote (CHR 0x5C # CHR ''u'' # CHR ''0'' # CHR ''0'' # hex_digit (byte c div 16) # hex_digit (byte c mod 16) # t) =
    c # unquote t"
proof -
  have h: "byte c div 16 < 16" "byte c mod 16 < 16" using assms by auto
  have "getu4 (CHR 0x5C # CHR ''u'' # CHR ''0'' # CHR ''0'' # hex_digit (byte c div 16) # hex_digit (byte c mod 16) # t) =
      Some (16 * (byte c div 16) + byte c mod 16)"
    using h by (simp add: getu4_def hex_value_digit hex_zero)
  moreover have "16 * (byte c div 16) + byte c mod 16 = byte c" by simp
  moreover have "char_of (byte c) = c" by (simp add: byte_def)
  ultimately show ?thesis using assms
    by (subst unquote.simps) (simp add: surrogate_def utf8_encode_def)
qed

lemma unquote_ascii_escape: "byte c < 128 \<Longrightarrow> unquote (ascii_escape c @ t) = c # unquote t"
  by (auto simp: ascii_escape_def unquote_plain unquote_escape unquote_unicode escape_byte_def)

lemma unquote_json_escape: "ascii s \<Longrightarrow> unquote (json_escape s) = s"
proof (induction s)
  case Nil
  then show ?case by (simp add: unquote.simps)
next
  case (Cons c s)
  then show ?case by (simp add: unquote_ascii_escape)
qed

lemma skip_ws_simps [simp]: "skip_ws [] = []" "\<not> json_space c \<Longrightarrow> skip_ws (c # s) = c # s"
  by (simp_all add: skip_ws_def)

lemma not_space [simp]:
  "\<not> json_space CHR 0x22" "\<not> json_space CHR '':''" "\<not> json_space CHR '',''" "\<not> json_space CHR ''}''" "\<not> json_space CHR ''{''"
  by (simp_all add: json_space_def)

lemma parse_quoted: "ascii s \<Longrightarrow> parse_value (Suc n) d (json_quote s @ rest) = Some (JStr s, rest)"
  by (simp add: json_quote_def scan_json_escape unquote_json_escape)

lemma parse_json_members:
  assumes "kvs \<noteq> []" and "\<forall>(k, v) \<in> set kvs. ascii k \<and> ascii v" and "length kvs < n"
  shows "parse_members (Suc n) d acc (json_members kvs @ ''}'' @ rest) =
    Some (JObj (rev acc @ map (map_prod id JStr) kvs), rest)"
  using assms
proof (induction kvs arbitrary: n acc rule: json_members.induct)
  case (2 k v)
  then obtain n' where "n = Suc n'" by (cases n) auto
  with 2 show ?case
    by (simp add: json_quote_def scan_json_escape unquote_json_escape)
next
  case (3 k v kv kvs)
  then obtain n' where n: "n = Suc n'" by (cases n) auto
  have "parse_members (Suc n') d ((k, JStr v) # acc) (json_members (kv # kvs) @ ''}'' @ rest) =
      Some (JObj (rev ((k, JStr v) # acc) @ map (map_prod id JStr) (kv # kvs)), rest)"
    using 3 n by (intro "3.IH") auto
  with 3 n show ?case
    by (simp add: json_quote_def scan_json_escape unquote_json_escape del: parse_members.simps(2))
       (simp add: json_quote_def scan_json_escape unquote_json_escape)
qed simp

lemma json_members_length: "length kvs \<le> length (json_members kvs)"
  by (induction kvs rule: json_members.induct) (auto simp: json_quote_def)

lemma json_members_quote: "kvs \<noteq> [] \<Longrightarrow> \<exists>t. json_members kvs = CHR 0x22 # t"
  by (induction kvs rule: json_members.induct) (auto simp: json_quote_def)

lemma Unmarshal_Marshal:
  assumes "kvs \<noteq> []" and "\<forall>(k, v) \<in> set kvs. ascii k \<and> ascii v"
  shows "json_Unmarshal (json_Marshal kvs) = Some (JObj (map (map_prod id JStr) kvs))"
proof -
  let ?s = "json_Marshal kvs"
  obtain t where t: "json_members kvs = CHR 0x22 # t" using json_members_quote [OF assms(1)] by blast
  obtain n where n: "2 * length ?s = Suc n" by (cases "2 * length ?s") (auto simp: json_Marshal_def)
  have "length kvs < n" using json_members_length [of kvs] n by (simp add: json_Marshal_def)
  then have "parse_members (Suc n) (maxNestingDepth - 1) [] (json_members kvs @ ''}'' @ []) =
      Some (JObj (map (map_prod id JStr) kvs), [])"
    using parse_json_members [OF assms, of n "maxNestingDepth - 1" "[]" "[]"] by simp
  then have "parse_value (Suc (Suc n)) maxNestingDepth ?s = Some (JObj (map (map_prod id JStr) kvs), [])"
    using t by (simp add: json_Marshal_def maxNestingDepth_def del: parse_members.simps)
  then show ?thesis using n by (simp add: json_Unmarshal_def del: parse_value.simps)
qed

end
