(* ===== verification/AwsAuth.thy ===== *)
theory AwsAuth
  imports GoJsonEnc "HOL-Library.Word"
begin

text \<open>
  Package \<open>lib/awsauth\<close>: the client library that mints AWS web identity tokens and caches them on disk. The AWS SDK is the
  argument \<open>aws\<close>; its calls act on a world \<open>'w\<close>. The file system is the map from paths to contents and modes. The
  readings of the clock are arguments. The outcome of the system calls of a cache write (which may each fail) is an
  argument too, so that a statement over all outcomes covers every failure.
\<close>

subsection \<open>Configuration\<close>

definition DefaultSigningAlgorithm :: string where "DefaultSigningAlgorithm = ''RS256''"
definition DefaultDuration :: duration where "DefaultDuration = 5 * minute"
definition DefaultFetchTimeout :: duration where "DefaultFetchTimeout = 10 * second"
definition DefaultCacheRefreshBefore :: duration where "DefaultCacheRefreshBefore = 10 * second"
definition minDuration :: duration where "minDuration = 60 * second"
definition maxDuration :: duration where "maxDuration = 3600 * second"
definition maxAudienceLen :: nat where "maxAudienceLen = 1000"

lemmas aws_const_defs = DefaultSigningAlgorithm_def DefaultDuration_def DefaultFetchTimeout_def
  DefaultCacheRefreshBefore_def minDuration_def maxDuration_def maxAudienceLen_def duration_defs

definition supportedSigningAlgorithms :: "string list" where
  "supportedSigningAlgorithms = [''RS256'', ''ES384'']"

record aws_Config =
  Audience :: string
  SigningAlgorithm :: string
  Duration :: duration
  CachePath :: string
  CacheRefreshBefore :: duration

datatype aws_error =
    AudienceIsRequired
  | AudienceTooLong nat
  | UnsupportedSigningAlgorithm string
  | DurationOutOfRange duration
  | DurationNotWholeSeconds duration
  | NegativeCacheRefreshBefore duration
  | LoadAWSConfig string
  | RegionRequired
  | NoCredentialsProvider
  | RetrieveCredentials string
  | STSError string
  | EmptyWebIdentityToken

text \<open>Go's \<open>%\<close> truncates toward zero; a whole number of seconds is one without remainder either way.\<close>

definition aws_validate :: "aws_Config \<Rightarrow> aws_error option" where
  "aws_validate cfg =
     (if Audience cfg = [] then Some AudienceIsRequired
      else if length (Audience cfg) > maxAudienceLen then Some (AudienceTooLong (length (Audience cfg)))
      else if SigningAlgorithm cfg \<noteq> [] \<and> SigningAlgorithm cfg \<notin> set supportedSigningAlgorithms
      then Some (UnsupportedSigningAlgorithm (SigningAlgorithm cfg))
      else if Duration cfg \<noteq> 0 \<and> (Duration cfg < minDuration \<or> Duration cfg > maxDuration)
      then Some (DurationOutOfRange (Duration cfg))
      else if Duration cfg \<noteq> 0 \<and> Duration cfg mod second \<noteq> 0 then Some (DurationNotWholeSeconds (Duration cfg))
      else if CacheRefreshBefore cfg < 0 then Some (NegativeCacheRefreshBefore (CacheRefreshBefore cfg))
      else None)"

subsection \<open>Token sources\<close>

record ('sts, 'prov) TokenSource =
  sts_client :: 'sts
  audience :: string
  signingAlgorithm :: string
  ts_duration :: duration
  cachePath :: string
  cacheRefreshBefore :: duration
  credentials :: "'prov option"
  lastErr :: "aws_error option"
  refreshing :: bool

record GetWebIdentityTokenInput =
  In_Audience :: "string list"
  In_SigningAlgorithm :: string
  In_DurationSeconds :: int

text \<open>
  The AWS calls: the default configuration, the client of a configuration and the provider it signs with, credentials,
  and the token request, whose optional argument is the pinned credentials. A nil output or token is \<open>None\<close>. SHA-256
  is an argument as well.
\<close>

record ('cfg, 'sts, 'prov, 'creds, 'w) aws_lib =
  LoadDefaultConfig :: "time \<Rightarrow> 'w \<Rightarrow> (string + 'cfg) \<times> 'w"
  Region :: "'cfg \<Rightarrow> string"
  sts_NewFromConfig :: "'cfg \<Rightarrow> 'sts"
  client_Credentials :: "'sts \<Rightarrow> 'prov option"
  Retrieve :: "'prov \<Rightarrow> time \<Rightarrow> 'w \<Rightarrow> (string + 'creds) \<times> 'w"
  AccessKeyID :: "'creds \<Rightarrow> string"
  GetWebIdentityToken ::
    "'sts \<Rightarrow> time \<Rightarrow> GetWebIdentityTokenInput \<Rightarrow> 'creds option \<Rightarrow> 'w \<Rightarrow> (string + string option) \<times> 'w"
  Sum256 :: "string \<Rightarrow> string"

definition newWithClient :: "'sts \<Rightarrow> aws_Config \<Rightarrow> aws_error + ('sts, 'prov) TokenSource" where
  "newWithClient c cfg =
     (case aws_validate cfg of
        Some e \<Rightarrow> Inl e
      | None \<Rightarrow>
          Inr \<lparr>sts_client = c, audience = Audience cfg,
               signingAlgorithm = (if SigningAlgorithm cfg = [] then DefaultSigningAlgorithm else SigningAlgorithm cfg),
               ts_duration = (if Duration cfg = 0 then DefaultDuration else Duration cfg),
               cachePath = CachePath cfg,
               cacheRefreshBefore =
                 (if CacheRefreshBefore cfg = 0 then DefaultCacheRefreshBefore else CacheRefreshBefore cfg),
               credentials = None, lastErr = None, refreshing = False\<rparr>)"

definition NewFromAWSConfig ::
    "('cfg, 'sts, 'prov, 'creds, 'w) aws_lib \<Rightarrow> 'cfg \<Rightarrow> aws_Config \<Rightarrow> aws_error + ('sts, 'prov) TokenSource" where
  "NewFromAWSConfig aws awsCfg cfg =
     (case aws_validate cfg of
        Some e \<Rightarrow> Inl e
      | None \<Rightarrow>
          if Region aws awsCfg = [] then Inl RegionRequired
          else (let c = sts_NewFromConfig aws awsCfg
                in case newWithClient c cfg of
                     Inl e \<Rightarrow> Inl e
                   | Inr ts \<Rightarrow> Inr (ts\<lparr>credentials := client_Credentials aws c\<rparr>)))"

definition aws_New ::
    "('cfg, 'sts, 'prov, 'creds, 'w) aws_lib \<Rightarrow> time \<Rightarrow> aws_Config \<Rightarrow> 'w \<Rightarrow> (aws_error + ('sts, 'prov) TokenSource) \<times> 'w" where
  "aws_New aws ctx cfg w =
     (case aws_validate cfg of
        Some e \<Rightarrow> (Inl e, w)
      | None \<Rightarrow>
          (case LoadDefaultConfig aws ctx w of
             (Inl e, w') \<Rightarrow> (Inl (LoadAWSConfig e), w')
           | (Inr awsCfg, w') \<Rightarrow> (NewFromAWSConfig aws awsCfg cfg, w')))"

subsection \<open>Credentials and minting\<close>

definition fingerprint :: "('cfg, 'sts, 'prov, 'creds, 'w) aws_lib \<Rightarrow> 'creds \<Rightarrow> string" where
  "fingerprint aws creds = hex_EncodeToString (take 16 (Sum256 aws (AccessKeyID aws creds)))"

definition pinCredentials ::
    "('cfg, 'sts, 'prov, 'creds, 'w) aws_lib \<Rightarrow> ('sts, 'prov) TokenSource \<Rightarrow> time \<Rightarrow> 'w \<Rightarrow>
     (aws_error + string \<times> 'creds) \<times> 'w" where
  "pinCredentials aws ts ctx w =
     (case credentials ts of
        None \<Rightarrow> (Inl NoCredentialsProvider, w)
      | Some prov \<Rightarrow>
          (case Retrieve aws prov ctx w of
             (Inl e, w') \<Rightarrow> (Inl (RetrieveCredentials e), w')
           | (Inr creds, w') \<Rightarrow> (Inr (fingerprint aws creds, creds), w')))"

text \<open>Conversion to \<open>int32\<close> wraps around; the duration of a token source is positive, so Go's division is \<open>div\<close>.\<close>

definition int32 :: "int \<Rightarrow> int" where
  "int32 x = sint (word_of_int x :: 32 word)"

definition mint_input :: "('sts, 'prov) TokenSource \<Rightarrow> GetWebIdentityTokenInput" where
  "mint_input ts = \<lparr>In_Audience = [audience ts], In_SigningAlgorithm = signingAlgorithm ts,
     In_DurationSeconds = int32 (ts_duration ts div second)\<rparr>"

definition mint ::
    "('cfg, 'sts, 'prov, 'creds, 'w) aws_lib \<Rightarrow> ('sts, 'prov) TokenSource \<Rightarrow> time \<Rightarrow> 'creds option \<Rightarrow> 'w \<Rightarrow>
     (aws_error + string) \<times> 'w" where
  "mint aws ts ctx pinned w =
     (case GetWebIdentityToken aws (sts_client ts) ctx (mint_input ts) pinned w of
        (Inl e, w') \<Rightarrow> (Inl (STSError e), w')
      | (Inr None, w') \<Rightarrow> (Inl EmptyWebIdentityToken, w')
      | (Inr (Some tok), w') \<Rightarrow> (if tok = [] then Inl EmptyWebIdentityToken else Inr tok, w'))"

subsection \<open>Reading a token without verifying it\<close>

definition digits_value :: "string \<Rightarrow> int" where
  "digits_value s = foldl (\<lambda>n c. 10 * n + int (byte c - 48)) 0 s"

text \<open>\<open>strconv.ParseInt\<close> on a JSON number literal: no fraction, no exponent, 64 bits.\<close>

definition parse_int64 :: "string \<Rightarrow> int option" where
  "parse_int64 l =
     (let (neg, ds) = (if l \<noteq> [] \<and> hd l = CHR ''-'' then (True, tl l) else (False, l));
          v = (if neg then - digits_value ds else digits_value ds)
      in if ds \<noteq> [] \<and> list_all json_digit ds \<and> - (2 ^ 63) \<le> v \<and> v < 2 ^ 63 then Some v else None)"

fun int64_field :: "json list \<Rightarrow> int \<Rightarrow> int option" where
  "int64_field [] cur = Some cur"
| "int64_field (JNull # vs) cur = int64_field vs cur"
| "int64_field (JNum l # vs) cur = (case parse_int64 l of None \<Rightarrow> None | Some v \<Rightarrow> int64_field vs v)"
| "int64_field (v # vs) cur = None"

fun string_elems :: "json list \<Rightarrow> string list option" where
  "string_elems [] = Some []"
| "string_elems (JNull # vs) = map_option ((#) []) (string_elems vs)"
| "string_elems (JStr s # vs) = map_option ((#) s) (string_elems vs)"
| "string_elems (v # vs) = None"

text \<open>The raw \<open>aud\<close> member, if any; null decodes into a string (leaving it empty) without error.\<close>

definition parseAudience :: "json option \<Rightarrow> string list" where
  "parseAudience raw =
     (case raw of
        None \<Rightarrow> []
      | Some (JStr s) \<Rightarrow> [s]
      | Some JNull \<Rightarrow> [[]]
      | Some (JArr vs) \<Rightarrow> (case string_elems vs of None \<Rightarrow> [] | Some many \<Rightarrow> many)
      | Some _ \<Rightarrow> [])"

definition last_value :: "json list \<Rightarrow> json option" where
  "last_value vs = (if vs = [] then None else Some (last vs))"

text \<open>\<open>time.Unix\<close> adds the seconds between year 1 and 1970 in 64 bits.\<close>

definition time_Unix :: "int \<Rightarrow> time" where
  "time_Unix sec = (sint (word_of_int (sec + 62135596800) :: 64 word) - 62135596800) * second"

datatype jwt_error = MalformedToken | DecodePayload | ParseClaims | NoExpClaim

definition unverifiedExpiryAudience :: "string \<Rightarrow> jwt_error + time \<times> string list" where
  "unverifiedExpiryAudience token =
     (let parts = strings_Split token CHR ''.''
      in if length parts \<noteq> 3 then Inl MalformedToken
         else case b64_DecodeString (parts ! 1) of
                None \<Rightarrow> Inl DecodePayload
              | Some payload \<Rightarrow>
                  (case (case json_Unmarshal payload of
                           Some (JObj kvs) \<Rightarrow>
                             map_option (\<lambda>e. (e, last_value (field_values ''aud'' kvs))) (int64_field (field_values ''exp'' kvs) 0)
                         | Some JNull \<Rightarrow> Some (0, None)
                         | _ \<Rightarrow> None) of
                     None \<Rightarrow> Inl ParseClaims
                   | Some (expiry, aud) \<Rightarrow>
                       if expiry = 0 then Inl NoExpClaim else Inr (time_Unix expiry, parseAudience aud)))"

subsection \<open>The cache file\<close>

type_synonym files = "string \<rightharpoonup> string \<times> nat"

definition cacheVersion :: string where "cacheVersion = ''awsauth.cache.v2''"

record cacheEntry =
  Version :: string
  Credential :: string
  Entry_Token :: string

definition marshal_entry :: "cacheEntry \<Rightarrow> string" where
  "marshal_entry e = json_Marshal [(''v'', Version e), (''credential'', Credential e), (''token'', Entry_Token e)]"

definition unmarshal_entry :: "string \<Rightarrow> cacheEntry option" where
  "unmarshal_entry b =
     (case json_Unmarshal b of
        Some (JObj kvs) \<Rightarrow>
          (case (string_field (field_values ''v'' kvs) [], string_field (field_values ''credential'' kvs) [],
                 string_field (field_values ''token'' kvs) []) of
             (Some v, Some c, Some t) \<Rightarrow> Some \<lparr>Version = v, Credential = c, Entry_Token = t\<rparr>
           | _ \<Rightarrow> None)
      | Some JNull \<Rightarrow> Some \<lparr>Version = [], Credential = [], Entry_Token = []\<rparr>
      | _ \<Rightarrow> None)"

definition readCache :: "('sts, 'prov) TokenSource \<Rightarrow> string \<Rightarrow> time \<Rightarrow> files \<Rightarrow> (string \<times> time) option" where
  "readCache ts credID t fs =
     (case fs (cachePath ts) of
        None \<Rightarrow> None
      | Some (b, _) \<Rightarrow>
          (case unmarshal_entry b of
             None \<Rightarrow> None
           | Some entry \<Rightarrow>
               if Version entry \<noteq> cacheVersion \<or> Credential entry \<noteq> credID then None
               else let tok = strings_TrimSpace (Entry_Token entry)
                    in if tok = [] then None
                       else case unverifiedExpiryAudience tok of
                              Inl _ \<Rightarrow> None
                            | Inr (expiry, auds) \<Rightarrow>
                                if \<not> t < expiry then None
                                else if audience ts \<notin> set auds then None
                                else Some (tok, expiry)))"

text \<open>How the system calls of one cache write turn out: the random part of the temporary name, and how many bytes a failing write stored.\<close>

record write_outcome =
  mkdir_ok :: bool
  temp_random :: "string option"
  chmod_ok :: bool
  write_short :: "nat option"
  close_ok :: bool
  rename_ok :: bool
  remove_ok :: bool

definition temp_name :: "('sts, 'prov) TokenSource \<Rightarrow> string \<Rightarrow> string" where
  "temp_name ts r =
     (let dir = filepath_Dir (cachePath ts); name = ''.awsauth-'' @ r @ ''.tmp''
      in if strings_HasSuffix dir ''/'' then dir @ name else dir @ ''/'' @ name)"

text \<open>
  The states of the file system another process can see during a write, in order; the last one is the result. The temporary
  file is created with mode 0600 (octal, 384 in decimal), its removal is deferred, and it is renamed over the cache file at
  the end (after which the removal finds nothing). Directories are not part of \<open>files\<close>.
\<close>

definition writeCache_states ::
    "('sts, 'prov) TokenSource \<Rightarrow> string \<Rightarrow> string \<Rightarrow> write_outcome \<Rightarrow> files \<Rightarrow> files list" where
  "writeCache_states ts tok credID out fs =
     (let data = marshal_entry \<lparr>Version = cacheVersion, Credential = credID, Entry_Token = tok\<rparr>
      in if \<not> mkdir_ok out then [fs]
         else case temp_random out of
           None \<Rightarrow> [fs]
         | Some r \<Rightarrow>
             (let tmp = temp_name ts r;
                  created = fs(tmp \<mapsto> ([], 384));
                  removed = (\<lambda>g. if remove_ok out then g(tmp := None) else g)
              in if \<not> chmod_ok out then [fs, created, removed created]
                 else case write_short out of
                   Some n \<Rightarrow>
                     (let partial = fs(tmp \<mapsto> (take n data, 384)) in [fs, created, partial, removed partial])
                 | None \<Rightarrow>
                     (let written = fs(tmp \<mapsto> (data, 384))
                      in if \<not> close_ok out \<or> \<not> rename_ok out then [fs, created, written, removed written]
                         else [fs, created, written, (fs(tmp := None))(cachePath ts \<mapsto> (data, 384))])))"

definition writeCache :: "('sts, 'prov) TokenSource \<Rightarrow> string \<Rightarrow> string \<Rightarrow> write_outcome \<Rightarrow> files \<Rightarrow> files" where
  "writeCache ts tok credID out fs = last (writeCache_states ts tok credID out fs)"

subsection \<open>Getting a token\<close>

text \<open>
  The state the operations of a token source act on: the source, the disk, the world behind the SDK, and the goroutines
  \<open>refreshAsync\<close> has started, each with the point it has reached.
\<close>

datatype 'creds refresh_pc =
    RStart
  | RMint time string 'creds
  | RStore string string
  | RReset

record ('sts, 'prov, 'creds, 'w) aws_state =
  source :: "('sts, 'prov) TokenSource"
  disk :: files
  ext :: 'w
  running :: "'creds refresh_pc list"

definition setLastError ::
    "aws_error option \<Rightarrow> ('sts, 'prov, 'creds, 'w) aws_state \<Rightarrow> ('sts, 'prov, 'creds, 'w) aws_state" where
  "setLastError e s = s\<lparr>source := (source s)\<lparr>lastErr := e\<rparr>\<rparr>"

definition LastError :: "('sts, 'prov, 'creds, 'w) aws_state \<Rightarrow> aws_error option" where
  "LastError s = lastErr (source s)"

text \<open>The critical section of \<open>refreshAsync\<close> and the start of the goroutine.\<close>

definition refreshAsync :: "('sts, 'prov, 'creds, 'w) aws_state \<Rightarrow> ('sts, 'prov, 'creds, 'w) aws_state" where
  "refreshAsync s =
     (if refreshing (source s) then s
      else s\<lparr>source := (source s)\<lparr>refreshing := True\<rparr>, running := running s @ [RStart]\<rparr>)"

text \<open>
  The goroutine, one phase at a time: resolve the credentials under its own deadline, mint, store, and reset the flag in
  the deferred call; \<open>None\<close> is its end.
\<close>

fun refresh_phase ::
    "('cfg, 'sts, 'prov, 'creds, 'w) aws_lib \<Rightarrow> time \<Rightarrow> write_outcome \<Rightarrow> 'creds refresh_pc \<Rightarrow>
     ('sts, 'prov, 'creds, 'w) aws_state \<Rightarrow> 'creds refresh_pc option \<times> ('sts, 'prov, 'creds, 'w) aws_state" where
  "refresh_phase aws t out RStart s =
     (let ctx = t + DefaultFetchTimeout
      in case pinCredentials aws (source s) ctx (ext s) of
           (Inl e, w) \<Rightarrow> (Some RReset, setLastError (Some e) (s\<lparr>ext := w\<rparr>))
         | (Inr (credID, creds), w) \<Rightarrow> (Some (RMint ctx credID creds), s\<lparr>ext := w\<rparr>))"
| "refresh_phase aws t out (RMint ctx credID creds) s =
     (case mint aws (source s) ctx (Some creds) (ext s) of
        (Inl e, w) \<Rightarrow> (Some RReset, setLastError (Some e) (s\<lparr>ext := w\<rparr>))
      | (Inr tok, w) \<Rightarrow> (Some (RStore credID tok), setLastError None (s\<lparr>ext := w\<rparr>)))"
| "refresh_phase aws t out (RStore credID tok) s =
     (Some RReset, s\<lparr>disk := writeCache (source s) tok credID out (disk s)\<rparr>)"
| "refresh_phase aws t out RReset s = (None, s\<lparr>source := (source s)\<lparr>refreshing := False\<rparr>\<rparr>)"

text \<open>
  What one call of \<open>Token\<close> depends on beside the state: the deadline of its context, the clock when the cache is read and
  when the remaining lifetime is computed, and the outcome of the cache write.
\<close>

record aws_call =
  call_ctx :: time
  call_read :: time
  call_until :: time
  call_write :: write_outcome

definition aws_Token ::
    "('cfg, 'sts, 'prov, 'creds, 'w) aws_lib \<Rightarrow> aws_call \<Rightarrow> ('sts, 'prov, 'creds, 'w) aws_state \<Rightarrow>
     (aws_error + string) \<times> ('sts, 'prov, 'creds, 'w) aws_state" where
  "aws_Token aws c s =
     (let ts = source s;
          (pin, w1) = (if cachePath ts = [] then (None, ext s)
                       else case pinCredentials aws ts (call_ctx c) (ext s) of
                              (Inl _, w) \<Rightarrow> (None, w)
                            | (Inr p, w) \<Rightarrow> (Some p, w));
          s1 = s\<lparr>ext := w1\<rparr>
      in case (case pin of None \<Rightarrow> None | Some (credID, _) \<Rightarrow> readCache ts credID (call_read c) (disk s1)) of
           Some (tok, expiry) \<Rightarrow>
             (Inr tok, if expiry - call_until c < cacheRefreshBefore ts then refreshAsync s1 else s1)
         | None \<Rightarrow>
             (case mint aws ts (call_ctx c) (map_option snd pin) (ext s1) of
                (Inl e, w2) \<Rightarrow> (Inl e, s1\<lparr>ext := w2\<rparr>)
              | (Inr tok, w2) \<Rightarrow>
                  (Inr tok,
                   case pin of
                     None \<Rightarrow> s1\<lparr>ext := w2\<rparr>
                   | Some (credID, _) \<Rightarrow>
                       s1\<lparr>ext := w2, disk := writeCache ts tok credID (call_write c) (disk s1)\<rparr>)))"

text \<open>The token handler that \<open>NATSOption\<close> installs; \<open>t\<close> is the clock when the handler runs.\<close>

definition aws_NATSOption ::
    "('cfg, 'sts, 'prov, 'creds, 'w) aws_lib \<Rightarrow> duration \<Rightarrow> time \<times> aws_call \<Rightarrow> ('sts, 'prov, 'creds, 'w) aws_state \<Rightarrow>
     string \<times> ('sts, 'prov, 'creds, 'w) aws_state" where
  "aws_NATSOption aws timeout tc s =
     (let timeout' = (if timeout \<le> 0 then DefaultFetchTimeout else timeout);
          ctx = fst tc + timeout'
      in case aws_Token aws ((snd tc)\<lparr>call_ctx := ctx\<rparr>) s of
           (Inl e, s') \<Rightarrow> ([], setLastError (Some e) s')
         | (Inr tok, s') \<Rightarrow> (tok, setLastError None s'))"

definition DefaultCachePath :: "(string \<Rightarrow> string) \<Rightarrow> string + string \<Rightarrow> string \<Rightarrow> string + string" where
  "DefaultCachePath sha userCacheDir aud =
     (case userCacheDir of
        Inl e \<Rightarrow> Inl e
      | Inr dir \<Rightarrow>
          Inr (filepath_Join [dir, ''nats-oidc-callout'',
            ''awsauth-'' @ hex_EncodeToString (take 8 (sha aud)) @ ''-v2.jwt'']))"

end
