(* ===== verification/TokenHandler.thy ===== *)
theory TokenHandler
  imports Prelude
begin

text \<open>
  The contract the two client libraries share. A token source yields a token or an error and remembers the last error; the
  NATS client asks it through a handler that can only return a string, so a failure is the empty string together with the
  recorded error. \<open>AwsAuthProps\<close> and \<open>K8sAuth\<close> interpret the locale.
\<close>

locale token_source =
  fixes token :: "'c \<Rightarrow> 's \<Rightarrow> ('e + string) \<times> 's"
    and last_error :: "'s \<Rightarrow> 'e option"
    and set_error :: "'e option \<Rightarrow> 's \<Rightarrow> 's"
  assumes token_nonempty: "token c s = (Inr tok, s') \<Longrightarrow> tok \<noteq> []"
    and last_set: "last_error (set_error e s) = e"
begin

definition handler :: "'c \<Rightarrow> 's \<Rightarrow> string \<times> 's" where
  "handler c s =
     (case token c s of
        (Inl e, s') \<Rightarrow> ([], set_error (Some e) s')
      | (Inr tok, s') \<Rightarrow> (tok, set_error None s'))"

lemma handler_Inl: "token c s = (Inl e, s') \<Longrightarrow> handler c s = ([], set_error (Some e) s')"
  and handler_Inr: "token c s = (Inr tok, s') \<Longrightarrow> handler c s = (tok, set_error None s')"
  by (simp_all add: handler_def)

text \<open>The empty answer is unambiguous, and the recorded error explains exactly this call.\<close>

lemma handler_reports:
  "(fst (handler c s) = [] \<longleftrightarrow> last_error (snd (handler c s)) \<noteq> None) \<and>
   last_error (snd (handler c s)) = (case fst (token c s) of Inl e \<Rightarrow> Some e | Inr _ \<Rightarrow> None) \<and>
   (\<forall>tok. fst (token c s) = Inr tok \<longrightarrow> fst (handler c s) = tok)"
proof (cases "token c s")
  case (Pair r s')
  then show ?thesis
    by (cases r) (auto simp: handler_def last_set dest: token_nonempty)
qed

end

end
