(* ===== verification/AwsAuthProps.thy ===== *)
theory AwsAuthProps
  imports AwsAuth TokenHandler
begin

text \<open>
  What the AWS client library guarantees: where a token comes from, that the cache is bound to the credentials that minted
  its token, that a cache write is atomic, what is requested from STS, that at most one background refresh runs, and that the
  handler's empty answer is explained by the recorded error.
\<close>

subsection \<open>The pieces\<close>

lemma pinCredentials_Inr:
  assumes "pinCredentials aws ts ctx w = (Inr (credID, creds), w')"
  shows "\<exists>prov. credentials ts = Some prov \<and> Retrieve aws prov ctx w = (Inr creds, w') \<and> credID = fingerprint aws creds"
  using assms by (auto simp: pinCredentials_def split: option.splits prod.splits sum.splits)

lemma mint_Inr:
  assumes "mint aws ts ctx pinned w = (Inr tok, w')"
  shows "GetWebIdentityToken aws (sts_client ts) ctx (mint_input ts) pinned w = (Inr (Some tok), w')" and "tok \<noteq> []"
  using assms by (auto simp: mint_def split: option.splits prod.splits sum.splits if_splits)

lemma readCache_Some_iff:
  "readCache ts credID t fs = Some (tok, e) \<longleftrightarrow>
     (\<exists>b m entry auds. fs (cachePath ts) = Some (b, m) \<and> unmarshal_entry b = Some entry \<and> Version entry = cacheVersion \<and>
        Credential entry = credID \<and> tok = strings_TrimSpace (Entry_Token entry) \<and> tok \<noteq> [] \<and>
        unverifiedExpiryAudience tok = Inr (e, auds) \<and> t < e \<and> audience ts \<in> set auds)"
  by (auto simp: readCache_def Let_def split: option.splits sum.splits prod.splits if_splits)

lemma setLastError_sel [simp]:
  "LastError (setLastError e s) = e" "disk (setLastError e s) = disk s" "ext (setLastError e s) = ext s"
  "running (setLastError e s) = running s" "source (setLastError e s) = (source s)\<lparr>lastErr := e\<rparr>"
  by (simp_all add: setLastError_def LastError_def)

lemma refreshAsync_sel [simp]:
  "disk (refreshAsync s) = disk s" "ext (refreshAsync s) = ext s" "lastErr (source (refreshAsync s)) = lastErr (source s)"
  by (simp_all add: refreshAsync_def)

lemma refreshAsync_ext: "refreshAsync (s\<lparr>ext := w\<rparr>) = (refreshAsync s)\<lparr>ext := w\<rparr>"
  by (simp add: refreshAsync_def)

text \<open>The three ways a call of \<open>Token\<close> can go.\<close>

lemma Token_cases:
  assumes "aws_Token aws c s = (r, s')"
  obtains (Hit) tok e creds w where "r = Inr tok"
      "pinCredentials aws (source s) (call_ctx c) (ext s) = (Inr (fingerprint aws creds, creds), w)"
      "cachePath (source s) \<noteq> []" "readCache (source s) (fingerprint aws creds) (call_read c) (disk s) = Some (tok, e)"
      "s' = (if e - call_until c < cacheRefreshBefore (source s) then refreshAsync s else s)\<lparr>ext := w\<rparr>"
  | (Failed) e pinned w w' where "r = Inl e" "mint aws (source s) (call_ctx c) pinned w = (Inl e, w')" "s' = s\<lparr>ext := w'\<rparr>"
  | (Minted) tok pinned w w' where "r = Inr tok" "mint aws (source s) (call_ctx c) pinned w = (Inr tok, w')"
      "s' = (case pinned of None \<Rightarrow> s\<lparr>ext := w'\<rparr> | Some creds \<Rightarrow>
         s\<lparr>ext := w', disk := writeCache (source s) tok (fingerprint aws creds) (call_write c) (disk s)\<rparr>)"
      "pinned = None \<or> cachePath (source s) \<noteq> []"
proof -
  define pw where "pw = (if cachePath (source s) = [] then (None, ext s)
    else case pinCredentials aws (source s) (call_ctx c) (ext s) of (Inl _, w) \<Rightarrow> (None, w) | (Inr p, w) \<Rightarrow> (Some p, w))"
  obtain pin w1 where pw: "pw = (pin, w1)" by fastforce
  have pinned: "cachePath (source s) \<noteq> [] \<and> pinCredentials aws (source s) (call_ctx c) (ext s) = (Inr (credID, creds), w1) \<and>
      credID = fingerprint aws creds" if "pin = Some (credID, creds)" for credID creds
    using pw that by (auto simp: pw_def split: if_splits prod.splits sum.splits dest: pinCredentials_Inr)
  show thesis
  proof (cases "case pin of None \<Rightarrow> None | Some (credID, _) \<Rightarrow> readCache (source s) credID (call_read c) (disk s)")
    case (Some hit)
    then obtain credID creds tok e where pin: "pin = Some (credID, creds)" and hit: "hit = (tok, e)"
      and "readCache (source s) credID (call_read c) (disk s) = Some (tok, e)"
      by (cases hit) (auto split: option.splits)
    with assms pw have "r = Inr tok"
      and "s' = (if e - call_until c < cacheRefreshBefore (source s) then refreshAsync s else s)\<lparr>ext := w1\<rparr>"
      by (auto simp: aws_Token_def pw_def Let_def refreshAsync_ext split: prod.splits if_splits)
    then show thesis using Hit pinned [OF pin] \<open>readCache _ _ _ _ = _\<close> by metis
  next
    case None
    obtain res w2 where m: "mint aws (source s) (call_ctx c) (map_option snd pin) w1 = (res, w2)" by fastforce
    have eq: "(r, s') = (case res of Inl e \<Rightarrow> (Inl e, s\<lparr>ext := w2\<rparr>) | Inr tok \<Rightarrow> (Inr tok, case pin of None \<Rightarrow> s\<lparr>ext := w2\<rparr>
        | Some (credID, _) \<Rightarrow> s\<lparr>ext := w2, disk := writeCache (source s) tok credID (call_write c) (disk s)\<rparr>))"
      using assms pw None m by (auto simp: aws_Token_def pw_def Let_def split: prod.splits sum.splits option.splits)
    show thesis
    proof (cases res)
      case (Inl e)
      with eq m show thesis by (intro Failed [of e "map_option snd pin" w1 w2]) simp_all
    next
      case (Inr tok)
      with eq m show thesis
        by (intro Minted [of tok "map_option snd pin" w1 w2])
           (auto split: option.splits dest!: pinned)
    qed
  qed
qed

lemma Token_nonempty: "aws_Token aws c s = (Inr tok, s') \<Longrightarrow> tok \<noteq> []"
  by (elim Token_cases) (auto simp: readCache_Some_iff dest: mint_Inr(2))

subsection \<open>Examples\<close>

text \<open>
  An SDK whose clock-free STS mints one token for the audience \<open>nats\<close>, expiring at second 1000; its token is
  \<open>{"exp":1000,"aud":"nats"}\<close> between two dummy parts. Hashing is the identity.
\<close>

definition example_aws_token :: string where
  "example_aws_token = ''h.eyJleHAiOjEwMDAsImF1ZCI6Im5hdHMifQ.s''"

definition example_aws :: "(string, unit, string, string, nat) aws_lib" where
  "example_aws = \<lparr>LoadDefaultConfig = (\<lambda>_ w. (Inr ''eu-west-1'', w)), Region = id, sts_NewFromConfig = (\<lambda>_. ()),
     client_Credentials = (\<lambda>_. Some ''AKIA''), Retrieve = (\<lambda>p _ w. (Inr p, w)), AccessKeyID = id,
     GetWebIdentityToken = (\<lambda>_ _ _ _ w. (Inr (Some example_aws_token), w + 1)), Sum256 = id\<rparr>"

definition example_aws_config :: aws_Config where
  "example_aws_config = \<lparr>Audience = ''nats'', SigningAlgorithm = [], Duration = 0, CachePath = ''/c/t'', CacheRefreshBefore = 0\<rparr>"

definition example_source :: "(unit, string) TokenSource" where
  "example_source = \<lparr>sts_client = (), audience = ''nats'', signingAlgorithm = ''RS256'', ts_duration = 300 * second,
     cachePath = ''/c/t'', cacheRefreshBefore = 10 * second, credentials = Some ''AKIA'', lastErr = None, refreshing = False\<rparr>"

definition example_cred :: string where
  "example_cred = hex_EncodeToString ''AKIA''"

lemma example_pin:
  "pinCredentials example_aws example_source ctx w = (Inr (example_cred, ''AKIA''), w)"
  "pinCredentials (example_aws\<lparr>GetWebIdentityToken := g\<rparr>) example_source ctx w = (Inr (example_cred, ''AKIA''), w)"
  by (simp_all add: pinCredentials_def example_source_def example_aws_def fingerprint_def example_cred_def)

definition all_ok :: write_outcome where
  "all_ok = \<lparr>mkdir_ok = True, temp_random = Some ''7'', chmod_ok = True, write_short = None, close_ok = True,
     rename_ok = True, remove_ok = True\<rparr>"

definition example_call :: "time \<Rightarrow> aws_call" where
  "example_call t = \<lparr>call_ctx = t + 10 * second, call_read = t, call_until = t, call_write = all_ok\<rparr>"

definition example_start :: "(unit, string, string, nat) aws_state" where
  "example_start = \<lparr>source = example_source, disk = Map.empty, ext = 0, running = []\<rparr>"

lemma example_source_built: "NewFromAWSConfig example_aws ''eu-west-1'' example_aws_config = Inr example_source"
  by code_simp

lemma example_token_claims: "unverifiedExpiryAudience example_aws_token = Inr (1000 * second, [''nats''])"
  by code_simp

lemma example_readCache_empty: "readCache example_source credID t Map.empty = None"
  by (simp add: readCache_def)

lemma example_first_call:
  "aws_Token example_aws (example_call t) example_start =
     (Inr example_aws_token, example_start\<lparr>ext := 1,
        disk := writeCache example_source example_aws_token example_cred all_ok Map.empty\<rparr>)"
proof -
  have "mint example_aws example_source ctx pinned w = (Inr example_aws_token, Suc w)" for ctx pinned w
    by (simp add: mint_def example_aws_def example_aws_token_def)
  moreover have "cachePath example_source \<noteq> []" by (simp add: example_source_def)
  ultimately show ?thesis
    by (simp add: aws_Token_def example_start_def example_pin readCache_def example_call_def Let_def)
qed

subsection \<open>Where a token comes from\<close>

text \<open>C25: a token that Token returns is never empty, and it is one of two things. Either it is read from the cache: then the
  credentials could be resolved, the entry on disk has the current version and carries the fingerprint of exactly these
  credentials, and the token names the audience of the source and has not expired. Or STS has just issued it for this
  audience; and whenever the disk changes, it changes by a cache write of the new token under the fingerprint of the very
  credentials the request was signed with, in a source that caches.\<close>

theorem Token_provenance:
  assumes "aws_Token aws c s = (Inr tok, s')"
  shows "tok \<noteq> [] \<and>
    ((disk s' = disk s \<and>
      (\<exists>prov creds w b m entry e auds. credentials (source s) = Some prov \<and>
         Retrieve aws prov (call_ctx c) (ext s) = (Inr creds, w) \<and>
         disk s (cachePath (source s)) = Some (b, m) \<and> unmarshal_entry b = Some entry \<and> Version entry = cacheVersion \<and>
         Credential entry = fingerprint aws creds \<and> tok = strings_TrimSpace (Entry_Token entry) \<and>
         unverifiedExpiryAudience tok = Inr (e, auds) \<and> call_read c < e \<and> audience (source s) \<in> set auds)) \<or>
     (\<exists>pinned w. fst (GetWebIdentityToken aws (sts_client (source s)) (call_ctx c) (mint_input (source s)) pinned w) = Inr (Some tok) \<and>
        (disk s' \<noteq> disk s \<longrightarrow> cachePath (source s) \<noteq> [] \<and> (\<exists>creds. pinned = Some creds \<and>
           disk s' = writeCache (source s) tok (fingerprint aws creds) (call_write c) (disk s)))))"
  using assms
proof (cases rule: Token_cases)
  case (Hit tok e creds w)
  then show ?thesis using pinCredentials_Inr [OF Hit(2)] by (auto simp: readCache_Some_iff)
next
  case (Minted tok pinned w w')
  then show ?thesis using mint_Inr [OF Minted(2)] by (cases pinned) (auto intro!: exI [of _ pinned] exI [of _ w])
qed simp

subsection \<open>The cache file\<close>

definition write_succeeds :: "write_outcome \<Rightarrow> bool" where
  "write_succeeds out \<longleftrightarrow> mkdir_ok out \<and> temp_random out \<noteq> None \<and> chmod_ok out \<and> write_short out = None \<and> close_ok out \<and> rename_ok out"

definition envelope :: "string \<Rightarrow> string \<Rightarrow> string" where
  "envelope credID tok = marshal_entry \<lparr>Version = cacheVersion, Credential = credID, Entry_Token = tok\<rparr>"

lemma writeCache_success: "write_succeeds out \<Longrightarrow> writeCache ts tok credID out fs (cachePath ts) = Some (envelope credID tok, 384)"
  by (auto simp: write_succeeds_def writeCache_def writeCache_states_def Let_def envelope_def)

lemma ascii_cacheVersion: "ascii cacheVersion"
  by code_simp

lemma unmarshal_envelope:
  assumes "ascii credID" and "ascii tok"
  shows "unmarshal_entry (envelope credID tok) = Some \<lparr>Version = cacheVersion, Credential = credID, Entry_Token = tok\<rparr>"
proof -
  let ?kvs = "[(''v'', cacheVersion), (''credential'', credID), (''token'', tok)]"
  have "ascii ''v''" "ascii ''credential''" "ascii ''token''" by code_simp+
  with assms ascii_cacheVersion have "json_Unmarshal (json_Marshal ?kvs) = Some (JObj (map (map_prod id JStr) ?kvs))"
    by (intro Unmarshal_Marshal) auto
  moreover have "field_values ''v'' (map (map_prod id JStr) ?kvs) = [JStr cacheVersion]"
    and "field_values ''credential'' (map (map_prod id JStr) ?kvs) = [JStr credID]"
    and "field_values ''token'' (map (map_prod id JStr) ?kvs) = [JStr tok]"
    by (simp_all add: field_values_def names_field_def byte_def)
  ultimately show ?thesis by (simp add: unmarshal_entry_def envelope_def marshal_entry_def)
qed

text \<open>C26: the cache file round-trips and is bound to its credentials. After a write that succeeds, a read by a source with the
  same path gives exactly this token with its expiry, trimmed, when the reader's credential fingerprint is the writer's and
  the token names the reader's audience and has not expired; in every other case, other credentials in particular, it is a
  miss. (Tokens and fingerprints are ASCII.)\<close>

theorem cache_roundtrip:
  assumes "write_succeeds out" and "ascii tok" and "ascii credID" and "cachePath ts' = cachePath ts"
  shows "readCache ts' credID' t (writeCache ts tok credID out fs) = Some (tok', e) \<longleftrightarrow>
    credID' = credID \<and> tok' = strings_TrimSpace tok \<and> tok' \<noteq> [] \<and> t < e \<and>
    (\<exists>auds. unverifiedExpiryAudience tok' = Inr (e, auds) \<and> audience ts' \<in> set auds)"
  using writeCache_success [OF assms(1), of ts tok credID fs] unmarshal_envelope [OF assms(3,2)] assms(4)
  by (auto simp: readCache_Some_iff)

lemma example_token_trimmed: "strings_TrimSpace example_aws_token = example_aws_token"
  by code_simp

theorem cache_roundtrip_witness:
  "readCache example_source example_cred (500 * second)
     (writeCache example_source example_aws_token example_cred all_ok Map.empty) =
     Some (example_aws_token, 1000 * second)"
proof -
  have "write_succeeds all_ok" by (simp add: write_succeeds_def all_ok_def)
  moreover have "ascii example_aws_token" "ascii example_cred" by code_simp+
  moreover have "example_aws_token \<noteq> []" by (simp add: example_aws_token_def)
  moreover have "(500 :: int) * second < 1000 * second" by (simp add: second_def)
  ultimately show ?thesis
    by (subst cache_roundtrip)
       (simp_all only: example_token_trimmed example_token_claims, simp_all add: example_source_def)
qed

text \<open>C29: a cache write is atomic. Whatever system call fails, another process that opens the cache file at any moment of the
  write finds the old file or the complete new entry with owner-only permissions, never a partial one; no other file
  changes but the temporary one; and if the removal of the temporary file works, the write leaves the disk as it was
  or with the new entry installed, and nothing else. The temporary file is new (it is opened exclusively) and is
  not the cache file itself.\<close>

theorem cache_write_is_atomic:
  assumes "\<And>r. temp_random out = Some r \<Longrightarrow> fs (temp_name ts r) = None \<and> temp_name ts r \<noteq> cachePath ts"
  shows "(\<forall>g \<in> set (writeCache_states ts tok credID out fs).
      g (cachePath ts) \<in> {fs (cachePath ts), Some (envelope credID tok, 384)} \<and>
      (\<forall>p. p \<noteq> cachePath ts \<and> (\<forall>r. temp_random out = Some r \<longrightarrow> p \<noteq> temp_name ts r) \<longrightarrow> g p = fs p)) \<and>
    (remove_ok out \<longrightarrow> writeCache ts tok credID out fs \<in> {fs, fs(cachePath ts \<mapsto> (envelope credID tok, 384))})"
proof (cases "temp_random out")
  case None
  then show ?thesis by (auto simp: writeCache_def writeCache_states_def Let_def)
next
  case (Some r)
  have "fs(temp_name ts r := None) = fs" using assms [OF Some] by auto
  with assms [OF Some] Some show ?thesis
    by (auto simp: writeCache_def writeCache_states_def Let_def envelope_def split: option.splits)
qed

theorem cache_write_is_atomic_witness:
  "writeCache example_source example_aws_token ''id'' (all_ok\<lparr>write_short := Some 3\<rparr>) [''/c/t'' \<mapsto> (''old'', 384)]
     (''/c/t'') \<in> {Some (''old'', 384), Some (envelope ''id'' example_aws_token, 384)}"
proof -
  have "temp_name example_source ''7'' = ''/c/.awsauth-7.tmp''" by code_simp
  then have "([''/c/t'' \<mapsto> (''old'', 384)] :: files) (temp_name example_source ''7'') = None \<and>
      temp_name example_source ''7'' \<noteq> cachePath example_source"
    by (simp add: example_source_def)
  then have "\<forall>g \<in> set (writeCache_states example_source example_aws_token ''id'' (all_ok\<lparr>write_short := Some 3\<rparr>)
      [''/c/t'' \<mapsto> (''old'', 384)]). g (''/c/t'') \<in> {Some (''old'', 384), Some (envelope ''id'' example_aws_token, 384)}"
    using cache_write_is_atomic [of "all_ok\<lparr>write_short := Some 3\<rparr>" "[''/c/t'' \<mapsto> (''old'', 384)]" example_source
      example_aws_token "''id''"]
    by (simp add: all_ok_def example_source_def)
  then show ?thesis by (simp add: writeCache_def writeCache_states_def all_ok_def Let_def)
qed

subsection \<open>Running a token source\<close>

text \<open>What construction establishes and every operation keeps.\<close>

definition source_ok :: "('sts, 'prov) TokenSource \<Rightarrow> bool" where
  "source_ok ts \<longleftrightarrow> audience ts \<noteq> [] \<and> length (audience ts) \<le> maxAudienceLen \<and>
     signingAlgorithm ts \<in> set supportedSigningAlgorithms \<and>
     minDuration \<le> ts_duration ts \<and> ts_duration ts \<le> maxDuration \<and> ts_duration ts mod second = 0 \<and> 0 < cacheRefreshBefore ts"

definition same_config :: "('sts, 'prov) TokenSource \<Rightarrow> ('sts, 'prov) TokenSource \<Rightarrow> bool" where
  "same_config ts ts' \<longleftrightarrow> ts'\<lparr>lastErr := lastErr ts, refreshing := refreshing ts\<rparr> = ts"

lemma source_ok_same: "same_config ts ts' \<Longrightarrow> source_ok ts' = source_ok ts"
  by (cases ts; cases ts') (auto simp: same_config_def source_ok_def)

lemma same_config_refl [simp]: "same_config ts ts"
  by (simp add: same_config_def)

lemma same_config_trans: "same_config a b \<Longrightarrow> same_config b c \<Longrightarrow> same_config a c"
  by (cases a; cases b; cases c) (auto simp: same_config_def)

lemma same_config_update [simp]: "same_config ts (ts\<lparr>lastErr := e\<rparr>)" "same_config ts (ts\<lparr>refreshing := b\<rparr>)"
  by (simp_all add: same_config_def)

lemma newWithClient_ok:
  fixes ts :: "('sts, 'prov) TokenSource"
  assumes "newWithClient c cfg = Inr ts"
  shows "source_ok ts"
proof -
  have "aws_validate cfg = None"
    using assms by (auto simp: newWithClient_def split: option.splits)
  with assms show ?thesis
    by (auto simp: newWithClient_def source_ok_def aws_validate_def aws_const_defs supportedSigningAlgorithms_def
        split: if_splits)
qed

text \<open>
  Calls of \<open>Token\<close> and of the handler, in any order, interleaved with the phases of the background goroutines and with
  anything other processes do to the disk and AWS does on its side.
\<close>

inductive astep ::
    "('cfg, 'sts, 'prov, 'creds, 'w) aws_lib \<Rightarrow> ('sts, 'prov, 'creds, 'w) aws_state \<Rightarrow> ('sts, 'prov, 'creds, 'w) aws_state \<Rightarrow> bool"
  for aws :: "('cfg, 'sts, 'prov, 'creds, 'w) aws_lib" where
  Ask: "aws_Token aws c s = (r, s') \<Longrightarrow> astep aws s s'"
| Connect: "aws_NATSOption aws timeout tc s = (tok, s') \<Longrightarrow> astep aws s s'"
| Phase: "i < length (running s) \<Longrightarrow> refresh_phase aws t out (running s ! i) s = (pc, s') \<Longrightarrow>
     astep aws s (s'\<lparr>running := (case pc of None \<Rightarrow> take i (running s') @ drop (Suc i) (running s')
        | Some p \<Rightarrow> (running s')[i := p])\<rparr>)"
| Others: "astep aws s (s\<lparr>disk := fs, ext := w\<rparr>)"

definition astart :: "('sts, 'prov) TokenSource \<Rightarrow> ('sts, 'prov, 'creds, 'w) aws_state \<Rightarrow> bool" where
  "astart ts s \<longleftrightarrow> source s = ts \<and> \<not> refreshing ts \<and> running s = []"

definition ainv :: "('sts, 'prov) TokenSource \<Rightarrow> ('sts, 'prov, 'creds, 'w) aws_state \<Rightarrow> bool" where
  "ainv ts s \<longleftrightarrow> same_config ts (source s) \<and> length (running s) = (if refreshing (source s) then 1 else 0)"

lemma ainv_refreshAsync: "ainv ts s \<Longrightarrow> ainv ts (refreshAsync s)"
  by (auto simp: ainv_def refreshAsync_def intro: same_config_trans)

lemma ainv_setLastError [simp]: "ainv ts s \<Longrightarrow> ainv ts (setLastError e s)"
  by (auto simp: ainv_def intro: same_config_trans)

lemma ainv_env [simp]: "ainv ts (s\<lparr>ext := w\<rparr>) = ainv ts s" "ainv ts (s\<lparr>disk := fs\<rparr>) = ainv ts s"
  by (simp_all add: ainv_def)

lemma ainv_Token: "ainv ts s \<Longrightarrow> aws_Token aws c s = (r, s') \<Longrightarrow> ainv ts s'"
  by (erule Token_cases) (auto simp: ainv_refreshAsync split: option.splits)

lemma refresh_phase_continues:
  assumes "refresh_phase aws t out pc s = (Some pc', s')"
  shows "running s' = running s \<and> refreshing (source s') = refreshing (source s) \<and> same_config (source s) (source s')"
  using assms
  by (cases pc) (auto simp: Let_def split: prod.splits sum.splits intro: same_config_trans)

lemma refresh_phase_ends:
  "refresh_phase aws t out pc s = (None, s') \<Longrightarrow> pc = RReset \<and> s' = s\<lparr>source := (source s)\<lparr>refreshing := False\<rparr>\<rparr>"
  by (cases pc) (auto simp: Let_def split: prod.splits sum.splits)

lemma ainv_step: "ainv ts s \<Longrightarrow> astep aws s t \<Longrightarrow> ainv ts t"
proof (rotate_tac, induction rule: astep.induct)
  case (Connect timeout tc s tok s')
  then show ?case
    by (auto simp: aws_NATSOption_def Let_def split: prod.splits sum.splits dest: ainv_Token)
next
  case (Phase i s t out pc s')
  then have "length (running s) = 1" "i = 0" "refreshing (source s)" by (auto simp: ainv_def split: if_splits)
  with Phase show ?case
    by (cases pc) (auto simp: ainv_def dest!: refresh_phase_continues refresh_phase_ends intro: same_config_trans)
qed (auto dest: ainv_Token)

interpretation aws_runs: invariant_system "astart ts" "astep aws" "ainv ts"
proof unfold_locales
  show "ainv ts s" if "astart ts s" for s using that by (auto simp: astart_def ainv_def)
qed (rule ainv_step)

lemma ainv_run: "astart ts s0 \<Longrightarrow> (astep aws)\<^sup>*\<^sup>* s0 s \<Longrightarrow> ainv ts s"
  by (rule aws_runs.inv_reachable) (auto simp: aws_runs.reachable_def)

lemma NewFromAWSConfig_Inr:
  assumes "NewFromAWSConfig aws awsCfg cfg = Inr ts"
  shows "source_ok ts" and "\<not> refreshing ts" and "audience ts = Audience cfg"
    and "ts_duration ts = (if Duration cfg = 0 then DefaultDuration else Duration cfg)"
proof -
  obtain c t where new: "newWithClient c cfg = Inr t" and ts: "ts = t\<lparr>credentials := client_Credentials aws c\<rparr>"
    using assms by (auto simp: NewFromAWSConfig_def Let_def split: option.splits if_splits sum.splits)
  show "source_ok ts" using newWithClient_ok [OF new] by (simp add: ts source_ok_def)
  show "\<not> refreshing ts" and "audience ts = Audience cfg"
    and "ts_duration ts = (if Duration cfg = 0 then DefaultDuration else Duration cfg)"
    using new by (auto simp: ts newWithClient_def split: option.splits)
qed

text \<open>C30: whatever callers, reconnects, other processes and AWS do, a token source runs at most one background refresh at a time,
  and its flag says whether one is running.\<close>

theorem single_background_refresh:
  assumes "NewFromAWSConfig aws awsCfg cfg = Inr ts" and "source s0 = ts" and "running s0 = []" and "(astep aws)\<^sup>*\<^sup>* s0 s"
  shows "length (running s) \<le> 1 \<and> (refreshing (source s) \<longleftrightarrow> running s \<noteq> [])"
proof -
  have "ainv ts s" using assms NewFromAWSConfig_Inr(2) [OF assms(1)] by (intro ainv_run) (auto simp: astart_def)
  then show ?thesis by (auto simp: ainv_def split: if_splits)
qed

text \<open>A state with a cached token that expires in five seconds, and the state after two calls.\<close>

definition example_cached :: "(unit, string, string, nat) aws_state" where
  "example_cached = example_start\<lparr>
     disk := writeCache example_source example_aws_token example_cred all_ok Map.empty\<rparr>"

lemma example_readCache:
  "readCache example_source example_cred (995 * second) (disk example_cached) =
     Some (example_aws_token, 1000 * second)"
proof -
  have "disk example_cached (cachePath example_source) = Some (envelope example_cred example_aws_token, 384)"
    by (simp add: example_cached_def writeCache_success write_succeeds_def all_ok_def)
  moreover have "unmarshal_entry (envelope example_cred example_aws_token) =
      Some \<lparr>Version = cacheVersion, Credential = example_cred, Entry_Token = example_aws_token\<rparr>"
    by (rule unmarshal_envelope) code_simp+
  moreover have "audience example_source = ''nats''" "example_aws_token \<noteq> []" "(995 :: int) * second < 1000 * second"
    by (simp_all add: example_source_def example_aws_token_def second_def)
  ultimately show ?thesis by (auto simp: readCache_Some_iff example_token_trimmed example_token_claims)
qed

lemma example_hits:
  assumes "call_read c = 995 * second" and "call_until c = 995 * second"
  shows "aws_Token example_aws c example_cached = (Inr example_aws_token, refreshAsync example_cached)"
    and "aws_Token (example_aws\<lparr>GetWebIdentityToken := g\<rparr>) c example_cached = (Inr example_aws_token, refreshAsync example_cached)"
proof -
  have "source example_cached = example_source" "cachePath example_source \<noteq> []"
    by (simp_all add: example_cached_def example_start_def example_source_def)
  moreover have "1000 * second - 995 * second < cacheRefreshBefore example_source"
    by (simp add: example_source_def second_def)
  ultimately show "aws_Token example_aws c example_cached = (Inr example_aws_token, refreshAsync example_cached)"
    and "aws_Token (example_aws\<lparr>GetWebIdentityToken := g\<rparr>) c example_cached = (Inr example_aws_token, refreshAsync example_cached)"
    using assms by (simp_all add: aws_Token_def Let_def example_pin example_readCache)
qed

lemma example_call_times: "call_read (example_call t) = t" "call_until (example_call t) = t"
  by (simp_all add: example_call_def)

lemmas example_hit = example_hits [OF example_call_times]

theorem single_background_refresh_witness:
  "length (running (refreshAsync example_cached)) \<le> 1 \<and>
   (refreshing (source (refreshAsync example_cached)) \<longleftrightarrow> running (refreshAsync example_cached) \<noteq> [])"
  using single_background_refresh [OF example_source_built, of example_cached "refreshAsync example_cached"]
    astep.Ask [OF example_hit(1)]
  by (auto simp: example_cached_def example_start_def)

text \<open>With STS down, the cached token is still served, and only because its entry carries the right fingerprint.\<close>

theorem Token_provenance_witness:
  "\<exists>b m entry. disk example_cached ''/c/t'' = Some (b, m) \<and> unmarshal_entry b = Some entry \<and>
     Credential entry = example_cred \<and> example_aws_token = strings_TrimSpace (Entry_Token entry)"
proof -
  let ?down = "example_aws\<lparr>GetWebIdentityToken := (\<lambda>_ _ _ _ w. (Inl ''down'', w))\<rparr>"
  have "Retrieve ?down p ctx w = (Inr p, w)" and "fingerprint ?down ''AKIA'' = example_cred" for p ctx w
    by (simp_all add: example_aws_def fingerprint_def example_cred_def)
  then show ?thesis
    using Token_provenance [OF example_hit(2) [of "\<lambda>_ _ _ _ w. (Inl ''down'', w)"]]
    by (auto simp: example_cached_def example_start_def example_source_def)
qed

lemma mint_input_ok:
  assumes "source_ok ts"
  shows "In_DurationSeconds (mint_input ts) = ts_duration ts div second"
    and "60 \<le> In_DurationSeconds (mint_input ts)" and "In_DurationSeconds (mint_input ts) \<le> 3600"
    and "In_DurationSeconds (mint_input ts) * second = ts_duration ts"
proof -
  have dur: "60 * second \<le> ts_duration ts" "ts_duration ts \<le> 3600 * second" "ts_duration ts mod second = 0"
    using assms by (auto simp: source_ok_def minDuration_def maxDuration_def)
  then have range: "60 \<le> ts_duration ts div second" "ts_duration ts div second \<le> 3600"
    by (auto simp: second_def)
  then show eq: "In_DurationSeconds (mint_input ts) = ts_duration ts div second"
    by (simp add: mint_input_def int32_def sint_sbintrunc' signed_take_bit_int_eq_self)
  from range show "60 \<le> In_DurationSeconds (mint_input ts)" "In_DurationSeconds (mint_input ts) \<le> 3600" by (simp_all add: eq)
  from dur show "In_DurationSeconds (mint_input ts) * second = ts_duration ts"
    by (simp add: eq mult.commute minus_mod_eq_mult_div [symmetric] second_def)
qed

text \<open>C31: a token source that construction accepts is well-formed, and stays so through any run: its configuration never changes,
  and every request it sends to STS is for the configured audience, with a supported signing algorithm and a lifetime
  of 60 to 3600 seconds that is the configured one (five minutes by default); the conversion to 32 bits loses nothing.\<close>

theorem sources_stay_wellformed:
  assumes "NewFromAWSConfig aws awsCfg cfg = Inr ts" and "source s0 = ts" and "running s0 = []" and "(astep aws)\<^sup>*\<^sup>* s0 s"
  shows "same_config ts (source s) \<and> source_ok (source s) \<and> In_Audience (mint_input (source s)) = [Audience cfg] \<and>
    In_SigningAlgorithm (mint_input (source s)) \<in> {''RS256'', ''ES384''} \<and>
    60 \<le> In_DurationSeconds (mint_input (source s)) \<and> In_DurationSeconds (mint_input (source s)) \<le> 3600 \<and>
    In_DurationSeconds (mint_input (source s)) * second = (if Duration cfg = 0 then 5 * minute else Duration cfg)"
proof -
  note new = NewFromAWSConfig_Inr [OF assms(1)]
  have "ainv ts s" using assms new(2) by (intro ainv_run) (auto simp: astart_def)
  then have same: "same_config ts (source s)" by (simp add: ainv_def)
  then have fields: "audience (source s) = audience ts" "ts_duration (source s) = ts_duration ts"
    by (auto simp: same_config_def) (metis TokenSource.select_convs TokenSource.surjective TokenSource.update_convs)+
  from same new have ok: "source_ok (source s)" by (simp add: source_ok_same)
  then have "In_SigningAlgorithm (mint_input (source s)) \<in> {''RS256'', ''ES384''}"
    by (auto simp: source_ok_def mint_input_def supportedSigningAlgorithms_def)
  moreover have "In_Audience (mint_input (source s)) = [Audience cfg]" by (simp add: mint_input_def fields new)
  ultimately show ?thesis using same ok mint_input_ok [OF ok] fields new by (simp add: DefaultDuration_def)
qed

theorem sources_stay_wellformed_witness:
  "In_DurationSeconds (mint_input (source (refreshAsync example_cached))) * second = 5 * minute"
proof -
  have "astep example_aws example_cached (refreshAsync example_cached)" by (rule astep.Ask [OF example_hit(1)])
  then have "(astep example_aws)\<^sup>*\<^sup>* example_cached (refreshAsync example_cached)" by simp
  from sources_stay_wellformed [OF example_source_built _ _ this] show ?thesis
    by (simp add: example_cached_def example_start_def example_aws_config_def)
qed

subsection \<open>Background refreshes end\<close>

text \<open>
  A goroutine run phase by phase, each at its time and with its write outcome, and after whatever the rest of the program and
  other processes have done to the state since the phase before.
\<close>

fun refresh_run ::
    "('cfg, 'sts, 'prov, 'creds, 'w) aws_lib \<Rightarrow> (time \<times> write_outcome \<times> (('sts, 'prov, 'creds, 'w) aws_state \<Rightarrow> ('sts, 'prov, 'creds, 'w) aws_state)) list \<Rightarrow>
     'creds refresh_pc option \<Rightarrow>
     ('sts, 'prov, 'creds, 'w) aws_state \<Rightarrow> 'creds refresh_pc option \<times> ('sts, 'prov, 'creds, 'w) aws_state" where
  "refresh_run aws env None s = (None, s)"
| "refresh_run aws [] pc s = (pc, s)"
| "refresh_run aws ((t, out, others) # env) (Some pc) s =
     (case refresh_phase aws t out pc (others s) of (pc', s') \<Rightarrow> refresh_run aws env pc' s')"

fun phases_left :: "'creds refresh_pc \<Rightarrow> nat" where
  "phases_left RStart = 4"
| "phases_left (RMint _ _ _) = 3"
| "phases_left (RStore _ _) = 2"
| "phases_left RReset = 1"

lemma phases_left_decreases: "refresh_phase aws t out pc s = (Some pc', s') \<Longrightarrow> phases_left pc' < phases_left pc"
  by (cases pc) (auto simp: Let_def split: prod.splits sum.splits)

lemma refresh_run_ends:
  "phases_left pc \<le> length env \<Longrightarrow> \<exists>s'. refresh_run aws env (Some pc) s = (None, s') \<and> \<not> refreshing (source s')"
proof (induction env arbitrary: pc s)
  case Nil
  then show ?case by (cases pc) auto
next
  case (Cons e env)
  obtain t out f where e: "e = (t, out, f)" by (cases e) auto
  obtain pc' s' where step: "refresh_phase aws t out pc (f s) = (pc', s')" by fastforce
  show ?case
  proof (cases pc')
    case None
    with step e show ?thesis using refresh_phase_ends [of aws t out pc "f s" s'] by auto
  next
    case (Some p)
    with step e Cons.prems Cons.IH [of p s'] phases_left_decreases [of aws t out pc "f s" p s'] show ?thesis by auto
  qed
qed

text \<open>C33: a background refresh ends. Whatever AWS answers, whichever system call fails and whatever other callers and processes do
  in between, the goroutine runs through at most four phases and then the flag is clear again, and the next refresh can start: a failed one never blocks it.\<close>

theorem background_refresh_ends:
  assumes "4 \<le> length env"
  shows "\<exists>s'. refresh_run aws env (Some RStart) (refreshAsync s) = (None, s') \<and> \<not> refreshing (source s') \<and>
    running (refreshAsync s') = running s' @ [RStart]"
proof -
  obtain s' where "refresh_run aws env (Some RStart) (refreshAsync s) = (None, s')" and "\<not> refreshing (source s')"
    using refresh_run_ends [of RStart env aws "refreshAsync s"] assms by auto
  moreover from this(2) have "running (refreshAsync s') = running s' @ [RStart]" by (simp add: refreshAsync_def)
  ultimately show ?thesis by blast
qed

theorem background_refresh_ends_witness:
  "\<exists>s'. refresh_run example_aws (replicate 4 (0, all_ok, id)) (Some RStart) (refreshAsync example_cached) = (None, s') \<and>
     \<not> refreshing (source s')"
proof -
  have "4 \<le> length (replicate 4 (0 :: time, all_ok, id))" by simp
  from background_refresh_ends [OF this, of example_aws example_cached] show ?thesis by blast
qed

subsection \<open>The NATS token handler\<close>

interpretation aws_source: token_source
  "\<lambda>tc. aws_Token aws ((snd tc)\<lparr>call_ctx := fst tc + (if timeout \<le> 0 then DefaultFetchTimeout else timeout)\<rparr>)"
  LastError setLastError
  by unfold_locales (auto dest: Token_nonempty)

lemma aws_NATSOption_handler:
  "aws_NATSOption aws timeout = token_source.handler
     (\<lambda>tc. aws_Token aws ((snd tc)\<lparr>call_ctx := fst tc + (if timeout \<le> 0 then DefaultFetchTimeout else timeout)\<rparr>)) setLastError"
  by (intro HOL.ext) (simp add: aws_NATSOption_def aws_source.handler_def Let_def)

text \<open>C34: the token handler that NATSOption installs cannot return an error, but nothing is lost: it answers the empty token
  exactly when an error is recorded, the recorded error is that of this very fetch, which is bounded by the timeout (or
  by ten seconds when the timeout is not positive), and otherwise it answers the token fetched.\<close>

theorem aws_handler_reports:
  "\<exists>ctx. ctx = fst tc + (if timeout \<le> 0 then 10 * second else timeout) \<and>
     (fst (aws_NATSOption aws timeout tc s) = [] \<longleftrightarrow> LastError (snd (aws_NATSOption aws timeout tc s)) \<noteq> None) \<and>
     (case fst (aws_Token aws ((snd tc)\<lparr>call_ctx := ctx\<rparr>) s) of
        Inl e \<Rightarrow> LastError (snd (aws_NATSOption aws timeout tc s)) = Some e
      | Inr tok \<Rightarrow> fst (aws_NATSOption aws timeout tc s) = tok)"
  using aws_source.handler_reports [where aws = aws and timeout = timeout and c = tc and s = s]
  by (auto simp: aws_NATSOption_handler DefaultFetchTimeout_def split: sum.splits if_splits)

text \<open>With a cache, a (re)connect within the lifetime of the cached token does not ask STS: the answer is the same whatever STS does.\<close>

lemma cached_token_reused:
  "fst (aws_NATSOption (example_aws\<lparr>GetWebIdentityToken := g\<rparr>) timeout (t, example_call (995 * second)) example_cached) =
     example_aws_token"
proof -
  have "call_read ((example_call (995 * second))\<lparr>call_ctx := ctx\<rparr>) = 995 * second"
    and "call_until ((example_call (995 * second))\<lparr>call_ctx := ctx\<rparr>) = 995 * second" for ctx
    by (simp_all add: example_call_def)
  from example_hits(2) [OF this] show ?thesis by (simp add: aws_NATSOption_def Let_def)
qed

subsection \<open>Earlier versions\<close>

lemma Split_append2: "c \<notin> set u \<Longrightarrow> c \<notin> set v \<Longrightarrow> strings_Split (u @ c # v @ c # s) c = u # v # strings_Split s c"
  by (simp add: Split_append)

lemma envelope_split:
  "\<exists>rest. envelope credID tok = [CHR ''{'', CHR 0x22] @ ''v'' @ [CHR 0x22] @ '':'' @ [CHR 0x22] @ ''awsauth.cache.v2'' @ rest"
proof -
  have "json_quote ''v'' = [CHR 0x22] @ ''v'' @ [CHR 0x22]" by code_simp
  moreover have "json_quote cacheVersion = [CHR 0x22] @ ''awsauth.cache.v2'' @ [CHR 0x22]" by code_simp
  ultimately show ?thesis by (simp add: envelope_def marshal_entry_def json_Marshal_def)
qed

text \<open>The version tag of the cache file keeps its promise: a reader that expects a bare token, as earlier versions of the
  library did, rejects every envelope, whatever token and fingerprint it holds.\<close>

theorem envelope_is_no_token: "\<exists>e. unverifiedExpiryAudience (envelope credID tok) = Inl e"
proof -
  let ?pre = "[CHR ''{'', CHR 0x22] @ ''v'' @ [CHR 0x22] @ '':'' @ [CHR 0x22] @ ''awsauth''"
  obtain rest where "envelope credID tok = ?pre @ CHR ''.'' # ''cache'' @ CHR ''.'' # ''v2'' @ rest"
    using envelope_split [of credID tok] by auto
  moreover have "CHR ''.'' \<notin> set ?pre" "CHR ''.'' \<notin> set ''cache''" by simp_all
  ultimately have "strings_Split (envelope credID tok) CHR ''.'' = ?pre # ''cache'' # strings_Split (''v2'' @ rest) CHR ''.''"
    by (metis Split_append2)
  moreover have "b64_DecodeString ''cache'' = None" by code_simp
  ultimately show ?thesis by (simp add: unverifiedExpiryAudience_def Let_def)
qed

end
