(* ===== verification/K8sAuth.thy ===== *)
theory K8sAuth
  imports GoText TokenHandler
begin

text \<open>
  Package \<open>lib/k8sauth\<close>: the client library that reads a projected service-account token from disk on every connect. Reading a
  file is a function of the path at the time of the call; a context is the error \<open>ctx.Err\<close> gives, if any.
\<close>

definition DefaultServiceAccountTokenPath :: string where
  "DefaultServiceAccountTokenPath = ''/var/run/secrets/kubernetes.io/serviceaccount/token''"

record k8s_Config =
  TokenPath :: string

datatype k8s_error =
    TokenPathRequired
  | ContextError string
  | ReadTokenFile string string
  | EmptyTokenFile string

record k8s_TokenSource =
  ts_path :: string
  k8s_lastErr :: "k8s_error option"

definition k8s_New :: "k8s_Config \<Rightarrow> k8s_error + k8s_TokenSource" where
  "k8s_New cfg =
     (if TokenPath cfg = [] then Inl TokenPathRequired else Inr \<lparr>ts_path = TokenPath cfg, k8s_lastErr = None\<rparr>)"

definition k8s_Token :: "k8s_TokenSource \<Rightarrow> string option \<Rightarrow> (string \<Rightarrow> string + string) \<Rightarrow> k8s_error + string" where
  "k8s_Token ts ctx ReadFile =
     (case ctx of
        Some err \<Rightarrow> Inl (ContextError err)
      | None \<Rightarrow>
          (case ReadFile (ts_path ts) of
             Inl err \<Rightarrow> Inl (ReadTokenFile (ts_path ts) err)
           | Inr b \<Rightarrow>
               let tok = strings_TrimSpace b
               in if tok = [] then Inl (EmptyTokenFile (ts_path ts)) else Inr tok))"

definition k8s_setLastError :: "k8s_error option \<Rightarrow> k8s_TokenSource \<Rightarrow> k8s_TokenSource" where
  "k8s_setLastError e ts = ts\<lparr>k8s_lastErr := e\<rparr>"

definition k8s_LastError :: "k8s_TokenSource \<Rightarrow> k8s_error option" where
  "k8s_LastError ts = k8s_lastErr ts"

text \<open>The handler \<open>NATSOption\<close> installs; the background context never errs.\<close>

definition k8s_NATSOption :: "(string \<Rightarrow> string + string) \<Rightarrow> k8s_TokenSource \<Rightarrow> string \<times> k8s_TokenSource" where
  "k8s_NATSOption ReadFile ts =
     (case k8s_Token ts None ReadFile of
        Inl e \<Rightarrow> ([], k8s_setLastError (Some e) ts)
      | Inr tok \<Rightarrow> (tok, k8s_setLastError None ts))"

subsection \<open>Properties\<close>

lemma k8s_Token_Inr:
  assumes "k8s_Token ts ctx ReadFile = Inr tok"
  shows "\<exists>b. ReadFile (ts_path ts) = Inr b \<and> tok = strings_TrimSpace b \<and> tok \<noteq> [] \<and> ctx = None"
  using assms by (auto simp: k8s_Token_def Let_def split: option.splits sum.splits if_splits)

interpretation k8s_source: token_source "\<lambda>ReadFile ts. (k8s_Token ts None ReadFile, ts)" k8s_LastError k8s_setLastError
  by unfold_locales (auto dest: k8s_Token_Inr simp: k8s_LastError_def k8s_setLastError_def)

lemma k8s_NATSOption_handler:
  "k8s_NATSOption = token_source.handler (\<lambda>ReadFile ts. (k8s_Token ts None ReadFile, ts)) k8s_setLastError"
  by (intro ext) (simp add: k8s_NATSOption_def k8s_source.handler_def split: sum.splits)

text \<open>C35: the Kubernetes handler answers the current content of the token file, trimmed, so that what it answers neither starts nor
  ends with white space; it answers the empty token exactly when an error is recorded, and it records an error exactly
  when the file cannot be read or holds nothing but white space. Earlier answers have no influence.\<close>

theorem k8s_handler_serves_current_file:
  assumes "k8s_NATSOption ReadFile ts = (tok, ts')"
  shows "ts_path ts' = ts_path ts \<and> (tok = [] \<longleftrightarrow> k8s_LastError ts' \<noteq> None) \<and>
    \<not> starts_with_space tok \<and> \<not> ends_with_space tok \<and>
    (case ReadFile (ts_path ts) of
       Inl err \<Rightarrow> k8s_LastError ts' = Some (ReadTokenFile (ts_path ts) err)
     | Inr b \<Rightarrow> tok = strings_TrimSpace b \<and> k8s_LastError ts' = (if tok = [] then Some (EmptyTokenFile (ts_path ts)) else None))"
proof -
  have "tok = [] \<longleftrightarrow> k8s_LastError ts' \<noteq> None"
    using k8s_source.handler_reports [of ReadFile ts] assms by (simp add: k8s_NATSOption_handler)
  moreover have "\<not> starts_with_space []" "\<not> ends_with_space []" by code_simp+
  ultimately show ?thesis
    using assms TrimSpace_starts TrimSpace_ends
    by (auto simp: k8s_NATSOption_def k8s_Token_def k8s_setLastError_def k8s_LastError_def Let_def
        split: sum.splits if_splits)
qed

theorem k8s_handler_serves_current_file_witness:
  "k8s_LastError (snd (k8s_NATSOption (\<lambda>_. Inr '' '') \<lparr>ts_path = ''/t'', k8s_lastErr = None\<rparr>)) = Some (EmptyTokenFile ''/t'')"
proof -
  have "k8s_NATSOption (\<lambda>_. Inr '' '') \<lparr>ts_path = ''/t'', k8s_lastErr = None\<rparr> =
      ([], \<lparr>ts_path = ''/t'', k8s_lastErr = Some (EmptyTokenFile ''/t'')\<rparr>)"
    by code_simp
  from k8s_handler_serves_current_file [OF this] show ?thesis
    by (simp add: \<open>k8s_NATSOption _ _ = _\<close>)
qed

end
