(* ===== verification/K8sClient.thy ===== *)
theory K8sClient
  imports K8sAuth GoFlag
begin

text \<open>
  \<open>test/k8s/client\<close>: the job that connects with a projected token and expects to be let in or to be refused. nats.go is the
  argument \<open>lib\<close>; its calls act on the world \<open>'w\<close>. The token handler and the reading of files are those of \<open>K8sAuth\<close>.
\<close>

subsection \<open>Model\<close>

datatype client_option = TokenHandlerOpt "(string \<Rightarrow> string + string) \<Rightarrow> string \<times> k8s_TokenSource" | MaxReconnectsOpt int | TimeoutOpt duration

datatype connect_error = ErrAuthorization | OtherConnectError string

record ('nc, 'w) client_lib =
  client_Connect :: "string \<Rightarrow> client_option list \<Rightarrow> 'w \<Rightarrow> (connect_error + 'nc) \<times> 'w"
  client_Publish :: "'nc \<Rightarrow> string \<Rightarrow> string \<Rightarrow> 'w \<Rightarrow> string option \<times> 'w"
  client_Flush :: "'nc \<Rightarrow> 'w \<Rightarrow> string option \<times> 'w"
  client_Close :: "'nc \<Rightarrow> 'w \<Rightarrow> 'w"

datatype client_error =
    TokenSourceError k8s_error
  | ConnectFailed connect_error
  | ConnectedButExpectedDenial
  | PublishFailed string
  | FlushFailed string

datatype client_output = DENIED_AS_EXPECTED | PUBLISH_OK

definition client_run ::
    "('nc, 'w) client_lib \<Rightarrow> (string \<Rightarrow> string + string) \<Rightarrow> string \<Rightarrow> string \<Rightarrow> string \<Rightarrow> string \<Rightarrow> 'w \<Rightarrow>
     (client_error + client_output) \<times> 'w" where
  "client_run lib ReadFile url tokenPath subject expect w =
     (case k8s_New \<lparr>TokenPath = tokenPath\<rparr> of
        Inl e \<Rightarrow> (Inl (TokenSourceError e), w)
      | Inr ts \<Rightarrow>
        (case k8s_Token ts None ReadFile of
           Inl e \<Rightarrow> (Inl (TokenSourceError e), w)
         | Inr _ \<Rightarrow>
           (case client_Connect lib url [TokenHandlerOpt (\<lambda>rf. k8s_NATSOption rf ts), MaxReconnectsOpt 0, TimeoutOpt (5 * second)] w of
              (Inl e, w1) \<Rightarrow>
                if expect = ''deny'' \<and> e = ErrAuthorization then (Inr DENIED_AS_EXPECTED, w1) else (Inl (ConnectFailed e), w1)
            | (Inr nc, w1) \<Rightarrow>
                if expect = ''deny'' then (Inl ConnectedButExpectedDenial, client_Close lib nc w1)
                else (case client_Publish lib nc subject ''hello from k8s e2e'' w1 of
                  (Some e, w2) \<Rightarrow> (Inl (PublishFailed e), client_Close lib nc w2)
                | (None, w2) \<Rightarrow>
                  (case client_Flush lib nc w2 of
                     (Some e, w3) \<Rightarrow> (Inl (FlushFailed e), client_Close lib nc w3)
                   | (None, w3) \<Rightarrow> (Inr PUBLISH_OK, client_Close lib nc w3))))))"

text \<open>\<open>main\<close> on the arguments of the process: the exit code; \<open>log.Fatalf\<close> exits with 1.\<close>

definition client_flags :: flag_set where
  "client_flags =
     [(''url'', FlagString ''nats://nats:4222''), (''token-path'', FlagString ''/var/run/secrets/nats/token''),
      (''subject'', FlagString ''app.test''), (''expect'', FlagString ''allow'')]"

definition client_main :: "('nc, 'w) client_lib \<Rightarrow> (string \<Rightarrow> string + string) \<Rightarrow> string list \<Rightarrow> 'w \<Rightarrow> nat \<times> 'w" where
  "client_main lib ReadFile args w =
     (case flag_Parse client_flags args of
        Inl e \<Rightarrow> (flag_exit e, w)
      | Inr (fl, _) \<Rightarrow>
          let url = flag_string fl ''url''; tokenPath = flag_string fl ''token-path'';
              subject = flag_string fl ''subject''; expect = flag_string fl ''expect''
          in if expect \<noteq> ''allow'' \<and> expect \<noteq> ''deny'' then (1, w)
             else (case client_run lib ReadFile url tokenPath subject expect w of
                     (Inl _, w') \<Rightarrow> (1, w')
                   | (Inr _, w') \<Rightarrow> (0, w')))"

subsection \<open>What a passing job shows\<close>

text \<open>
  The deny job passes only if the token could be read and the server refused the connection as unauthorized: no transport or
  token problem passes for a denial. The allow job passes only if the message was published and flushed, and then
  the connection is closed.
\<close>

theorem client_job_passes_iff:
  assumes "flag_Parse client_flags args = Inr (fl, rest)" and "tokenPath = flag_string fl ''token-path''"
    and "expect = flag_string fl ''expect''" and "url = flag_string fl ''url''" and
    "opts = [TokenHandlerOpt (\<lambda>rf. k8s_NATSOption rf \<lparr>ts_path = tokenPath, k8s_lastErr = None\<rparr>), MaxReconnectsOpt 0, TimeoutOpt (5 * second)]"
  shows "fst (client_main lib ReadFile args w) = 0 \<longleftrightarrow>
    tokenPath \<noteq> [] \<and> (\<exists>b. ReadFile tokenPath = Inr b \<and> strings_TrimSpace b \<noteq> []) \<and>
    (expect = ''deny'' \<and> fst (client_Connect lib url opts w) = Inl ErrAuthorization \<or>
     expect = ''allow'' \<and>
       (\<exists>nc w1 w2 w3. client_Connect lib url opts w = (Inr nc, w1) \<and>
          client_Publish lib nc (flag_string fl ''subject'') ''hello from k8s e2e'' w1 = (None, w2) \<and>
          client_Flush lib nc w2 = (None, w3) \<and> snd (client_main lib ReadFile args w) = client_Close lib nc w3))"
proof -
  let ?run = "client_run lib ReadFile url tokenPath (flag_string fl ''subject'') expect w"
  have m: "client_main lib ReadFile args w =
      (if expect \<noteq> ''allow'' \<and> expect \<noteq> ''deny'' then (1, w)
       else case ?run of (Inl _, w') \<Rightarrow> (1, w') | (Inr _, w') \<Rightarrow> (0, w'))"
    using assms(1-4) by (simp add: client_main_def)
  show ?thesis
  proof (cases "tokenPath \<noteq> [] \<and> (\<exists>b. ReadFile tokenPath = Inr b \<and> strings_TrimSpace b \<noteq> [])")
    case False
    then have "fst (client_main lib ReadFile args w) \<noteq> 0"
      by (auto simp: m client_run_def k8s_New_def k8s_Token_def Let_def split: sum.splits)
    with False show ?thesis by blast
  next
    case True
    then obtain tok where "k8s_Token \<lparr>ts_path = tokenPath, k8s_lastErr = None\<rparr> None ReadFile = Inr tok"
      by (auto simp: k8s_Token_def)
    with True have run: "?run =
       (case client_Connect lib url opts w of
          (Inl e, w1) \<Rightarrow>
            if expect = ''deny'' \<and> e = ErrAuthorization then (Inr DENIED_AS_EXPECTED, w1) else (Inl (ConnectFailed e), w1)
        | (Inr nc, w1) \<Rightarrow>
            if expect = ''deny'' then (Inl ConnectedButExpectedDenial, client_Close lib nc w1)
            else (case client_Publish lib nc (flag_string fl ''subject'') ''hello from k8s e2e'' w1 of
              (Some e, w2) \<Rightarrow> (Inl (PublishFailed e), client_Close lib nc w2)
            | (None, w2) \<Rightarrow>
              (case client_Flush lib nc w2 of
                 (Some e, w3) \<Rightarrow> (Inl (FlushFailed e), client_Close lib nc w3)
               | (None, w3) \<Rightarrow> (Inr PUBLISH_OK, client_Close lib nc w3))))"
      by (simp add: client_run_def k8s_New_def assms(5))
    obtain res w1 where c: "client_Connect lib url opts w = (res, w1)" by fastforce
    show ?thesis
    proof (cases res)
      case (Inl e)
      with True c show ?thesis by (auto simp: m run)
    next
      case (Inr nc)
      with True c show ?thesis by (auto simp: m run split: option.splits prod.splits)
    qed
  qed
qed

end
