(* ===== verification/GoJsonTree.thy ===== *)
theory GoJsonTree
  imports GoJsonEnc "HOL-Library.List_Lexorder" "HOL-Library.Char_ord"
begin

text \<open>
  \<open>json.Marshal\<close> on values of type \<open>any\<close>: trees whose maps are written in the order of their keys, and whose numbers are
  literals that must be valid. The reader of \<open>GoJson\<close> reads back what it writes, for ASCII strings and within the
  reader's nesting limit.
\<close>

subsection \<open>Model\<close>

text \<open>The members of every map in the order of their keys; an empty number literal is a zero.\<close>

primrec json_sorted :: "json \<Rightarrow> json" where
  "json_sorted JNull = JNull"
| "json_sorted (JBool b) = JBool b"
| "json_sorted (JNum l) = JNum (if l = [] then ''0'' else l)"
| "json_sorted (JStr s) = JStr s"
| "json_sorted (JArr xs) = JArr (map json_sorted xs)"
| "json_sorted (JObj kvs) = JObj (sort_key fst (map (map_prod id json_sorted) kvs))"

definition json_member :: "string \<times> string \<Rightarrow> string" where
  "json_member kt = json_quote (fst kt) @ '':'' @ snd kt"

primrec json_text :: "json \<Rightarrow> string" where
  "json_text JNull = ''null''"
| "json_text (JBool b) = (if b then ''true'' else ''false'')"
| "json_text (JNum l) = l"
| "json_text (JStr s) = json_quote s"
| "json_text (JArr xs) = ''['' @ strings_Join (map json_text xs) '','' @ '']''"
| "json_text (JObj kvs) = ''{'' @ strings_Join (map json_member (map (map_prod id json_text) kvs)) '','' @ ''}''"

definition isValidNumber :: "string \<Rightarrow> bool" where
  "isValidNumber l \<longleftrightarrow> json_number l = Some (l, [])"

primrec json_numbers :: "json \<Rightarrow> string list" where
  "json_numbers JNull = []"
| "json_numbers (JBool b) = []"
| "json_numbers (JNum l) = [l]"
| "json_numbers (JStr s) = []"
| "json_numbers (JArr xs) = concat (map json_numbers xs)"
| "json_numbers (JObj kvs) = concat (map snd (map (map_prod id json_numbers) kvs))"

definition json_Marshal_any :: "json \<Rightarrow> string option" where
  "json_Marshal_any v =
     (if list_all isValidNumber (json_numbers (json_sorted v)) then Some (json_text (json_sorted v)) else None)"

subsection \<open>Reading back\<close>

primrec json_strings :: "json \<Rightarrow> string list" where
  "json_strings JNull = []"
| "json_strings (JBool b) = []"
| "json_strings (JNum l) = []"
| "json_strings (JStr s) = [s]"
| "json_strings (JArr xs) = concat (map json_strings xs)"
| "json_strings (JObj kvs) = concat (map (\<lambda>kt. fst kt # snd kt) (map (map_prod id json_strings) kvs))"

primrec json_depth :: "json \<Rightarrow> nat" where
  "json_depth JNull = 0"
| "json_depth (JBool b) = 0"
| "json_depth (JNum l) = 0"
| "json_depth (JStr s) = 0"
| "json_depth (JArr xs) = Suc (foldr max (map json_depth xs) 0)"
| "json_depth (JObj kvs) = Suc (foldr max (map snd (map (map_prod id json_depth) kvs)) 0)"

definition plain :: "json \<Rightarrow> bool" where
  "plain v \<longleftrightarrow> list_all ascii (json_strings v) \<and> list_all isValidNumber (json_numbers v)"

lemma foldr_max_ge: "x \<in> set xs \<Longrightarrow> (x :: nat) \<le> foldr max xs 0"
  by (induction xs) auto

lemma plain_simps [simp]:
  "plain JNull" "plain (JBool b)" "plain (JNum l) \<longleftrightarrow> isValidNumber l" "plain (JStr s) \<longleftrightarrow> ascii s"
  "plain (JArr xs) \<longleftrightarrow> (\<forall>x \<in> set xs. plain x)"
  "plain (JObj kvs) \<longleftrightarrow> (\<forall>(k, v) \<in> set kvs. ascii k \<and> plain v)"
  by (auto simp: plain_def list_all_iff)

text \<open>What may follow a number: nothing that continues it.\<close>

definition delim :: "string \<Rightarrow> bool" where
  "delim rest \<longleftrightarrow> (\<forall>c t. rest = c # t \<longrightarrow> \<not> json_digit c \<and> c \<notin> set ''.eE+-'')"

lemma delim_simps [simp]:
  "delim []" "delim (CHR '','' # t)" "delim (CHR ''}'' # t)" "delim (CHR '']'' # t)" "delim (CHR 0x0A # t)"
  by (simp_all add: delim_def json_digit_def byte_def)

lemma digits_of_delim:
  "delim rest \<Longrightarrow> digits_of (s @ rest) = (fst (digits_of s), snd (digits_of s) @ rest)"
  by (cases rest; induction s) (auto simp: digits_of_def delim_def)

lemma digits_of_Nil [simp]: "digits_of [] = ([], [])"
  by (simp add: digits_of_def)

lemma sign_part_delim:
  "delim rest \<Longrightarrow> set sg \<subseteq> set ''+-'' \<Longrightarrow> sign_part sg (s @ rest) = (fst (sign_part sg s), snd (sign_part sg s) @ rest)"
  by (cases s; cases rest) (auto simp: sign_part_def delim_def)

lemma int_part_delim:
  assumes "delim rest" and "int_part s = Some (ip, u)"
  shows "int_part (s @ rest) = Some (ip, u @ rest)"
proof (cases s)
  case (Cons c t)
  with assms digits_of_delim [OF assms(1), of "c # t"] show ?thesis by (auto simp: int_part_def split: if_splits)
qed (use assms(2) in \<open>simp add: int_part_def\<close>)

lemma frac_part_delim:
  "delim rest \<Longrightarrow> frac_part s = Some (fp, u) \<Longrightarrow> frac_part (s @ rest) = Some (fp, u @ rest)"
  by (cases s; cases rest) (auto simp: frac_part_def digits_of_delim delim_def split: if_splits)

lemma exp_part_delim:
  assumes "delim rest" and "exp_part s = Some (ep, u)"
  shows "exp_part (s @ rest) = Some (ep, u @ rest)"
proof (cases s)
  case (Cons c t)
  with assms sign_part_delim [OF assms(1), of "''+-''" t] show ?thesis
    by (auto simp: exp_part_def digits_of_delim split: if_splits prod.splits)
qed (use assms in \<open>cases rest; auto simp: exp_part_def delim_def\<close>)

lemma json_number_delim:
  assumes "delim rest" and "json_number s = Some (l, u)"
  shows "json_number (s @ rest) = Some (l, u @ rest)"
proof -
  from assms(2) obtain ip s2 fp s3 ep where i: "int_part (snd (sign_part ''-'' s)) = Some (ip, s2)"
    and f: "frac_part s2 = Some (fp, s3)" and e: "exp_part s3 = Some (ep, u)"
    and l: "l = fst (sign_part ''-'' s) @ ip @ fp @ ep"
    by (auto simp: json_number_def split: prod.splits option.splits)
  have "sign_part ''-'' (s @ rest) = (fst (sign_part ''-'' s), snd (sign_part ''-'' s) @ rest)"
    using assms(1) by (intro sign_part_delim) auto
  with int_part_delim [OF assms(1) i] frac_part_delim [OF assms(1) f] exp_part_delim [OF assms(1) e] l
  show ?thesis by (simp add: json_number_def)
qed

lemma json_number_start: "json_number s = Some (l, u) \<Longrightarrow> \<exists>c t. s = c # t \<and> (c = CHR ''-'' \<or> json_digit c)"
  by (cases s)
     (auto simp: json_number_def sign_part_def int_part_def digits_of_def json_digit_def byte_def
       split: if_splits prod.splits option.splits)

text \<open>What the reader does with enough fuel.\<close>

definition reads :: "(nat \<Rightarrow> 'a option) \<Rightarrow> 'a \<Rightarrow> bool" where
  "reads p x \<longleftrightarrow> (\<exists>N. \<forall>n \<ge> N. p n = Some x)"

lemma reads_Suc: "reads (\<lambda>n. p (Suc n)) x \<Longrightarrow> reads p x"
  unfolding reads_def by (metis Suc_le_D Suc_le_mono)

lemma reads_bind:
  assumes "reads p x" and "reads (\<lambda>n. f n x) y"
  shows "reads (\<lambda>n. case p n of None \<Rightarrow> None | Some x \<Rightarrow> f n x) y"
proof -
  from assms obtain M N where "\<forall>n \<ge> M. p n = Some x" "\<forall>n \<ge> N. f n x = Some y" unfolding reads_def by auto
  then have "\<forall>n \<ge> max M N. (case p n of None \<Rightarrow> None | Some x \<Rightarrow> f n x) = Some y" by simp
  then show ?thesis unfolding reads_def by blast
qed

lemma reads_const [simp]: "reads (\<lambda>n. Some x) x"
  by (simp add: reads_def)

lemma reads_string: "ascii s \<Longrightarrow> reads (\<lambda>n. parse_value n d (json_quote s @ rest)) (JStr s, rest)"
  by (rule reads_Suc) (simp add: parse_quoted del: parse_value.simps)

lemma reads_number:
  assumes "isValidNumber l" and "delim rest"
  shows "reads (\<lambda>n. parse_value n d (l @ rest)) (JNum l, rest)"
proof -
  have l: "json_number l = Some (l, [])" using assms(1) by (simp add: isValidNumber_def)
  from json_number_start [OF l] obtain c t where s: "l = c # t" "c = CHR ''-'' \<or> json_digit c" by blast
  from json_number_delim [OF assms(2) l] s have "json_number (c # t @ rest) = Some (l, rest)" by simp
  moreover from s(2) have "\<not> json_space c" "c \<notin> {CHR ''{'', CHR ''['', CHR 0x22, CHR ''t'', CHR ''f'', CHR ''n''}"
    by (auto simp: json_space_def json_digit_def byte_def)
  ultimately show ?thesis using s(1) by - (rule reads_Suc, simp)
qed

lemma json_text_start: "plain v \<Longrightarrow> \<exists>c t. json_text v = c # t \<and> \<not> json_space c \<and> c \<noteq> CHR '']''"
proof (cases v)
  case (JNum l)
  then show "plain v \<Longrightarrow> ?thesis"
    by (auto simp: isValidNumber_def json_space_def json_digit_def byte_def dest!: json_number_start)
qed (auto simp: json_space_def json_quote_def)

lemma reads_elems:
  assumes "xs \<noteq> []" and "\<forall>x \<in> set xs. \<forall>rest. delim rest \<longrightarrow> reads (\<lambda>n. parse_value n d (json_text x @ rest)) (x, rest)"
  shows "reads (\<lambda>n. parse_elems n d acc (strings_Join (map json_text xs) '','' @ CHR '']'' # rest)) (JArr (rev acc @ xs), rest)"
  using assms
proof (induction xs arbitrary: acc rule: list_nonempty_induct)
  case (single x)
  then have "reads (\<lambda>n. parse_value n d (json_text x @ CHR '']'' # rest)) (x, CHR '']'' # rest)" by simp
  then show ?case by - (rule reads_Suc, auto intro!: reads_bind simp: json_space_def)
next
  case (cons x xs)
  then obtain y ys where xs: "xs = y # ys" by (cases xs) auto
  let ?s = "strings_Join (map json_text xs) '','' @ CHR '']'' # rest"
  have "reads (\<lambda>n. parse_value n d (json_text x @ CHR '','' # ?s)) (x, CHR '','' # ?s)" using cons.prems by simp
  moreover have "reads (\<lambda>n. parse_elems n d (x # acc) ?s) (JArr (rev acc @ x # xs), rest)"
    using cons.IH [of "x # acc"] cons.prems by simp
  ultimately show ?case using xs by - (rule reads_Suc, auto intro!: reads_bind simp: json_space_def)
qed

lemma reads_member_last:
  assumes "ascii k" and "reads (\<lambda>n. parse_value n d (T @ CHR ''}'' # rest)) (v, CHR ''}'' # rest)"
  shows "reads (\<lambda>n. parse_members n d acc (json_member (k, T) @ CHR ''}'' # rest)) (JObj (rev acc @ [(k, v)]), rest)"
  using assms by - (rule reads_Suc, auto intro!: reads_bind
    simp: json_member_def json_quote_def scan_json_escape unquote_json_escape)

lemma reads_member_more:
  assumes "ascii k" and "reads (\<lambda>n. parse_value n d (T @ CHR '','' # s)) (v, CHR '','' # s)"
    and "reads (\<lambda>n. parse_members n d ((k, v) # acc) s) r"
  shows "reads (\<lambda>n. parse_members n d acc (json_member (k, T) @ CHR '','' # s)) r"
  using assms by - (rule reads_Suc, auto intro!: reads_bind
    simp: json_member_def json_quote_def scan_json_escape unquote_json_escape)

lemma reads_members:
  assumes "kvs \<noteq> []"
    and "\<forall>(k, v) \<in> set kvs. ascii k \<and> (\<forall>rest. delim rest \<longrightarrow> reads (\<lambda>n. parse_value n d (json_text v @ rest)) (v, rest))"
  shows "reads (\<lambda>n. parse_members n d acc
      (strings_Join (map json_member (map (map_prod id json_text) kvs)) '','' @ CHR ''}'' # rest)) (JObj (rev acc @ kvs), rest)"
  using assms
proof (induction kvs arbitrary: acc rule: list_nonempty_induct)
  case (single kv)
  obtain k v where kv: "kv = (k, v)" by (cases kv)
  with single have "ascii k" "reads (\<lambda>n. parse_value n d (json_text v @ CHR ''}'' # rest)) (v, CHR ''}'' # rest)" by auto
  from reads_member_last [OF this] show ?case by (simp add: kv)
next
  case (cons kv kvs)
  obtain k v where kv: "kv = (k, v)" by (cases kv)
  define s where "s = strings_Join (map json_member (map (map_prod id json_text) kvs)) '','' @ CHR ''}'' # rest"
  have "ascii k" "reads (\<lambda>n. parse_value n d (json_text v @ CHR '','' # s)) (v, CHR '','' # s)"
    using cons.prems kv by auto
  moreover have "reads (\<lambda>n. parse_members n d ((k, v) # acc) s) (JObj (rev ((k, v) # acc) @ kvs), rest)"
    unfolding s_def using cons.IH [of "(k, v) # acc"] cons.prems by (simp add: id_def)
  ultimately have "reads (\<lambda>n. parse_members n d acc (json_member (k, json_text v) @ CHR '','' # s))
      (JObj (rev ((k, v) # acc) @ kvs), rest)"
    by (rule reads_member_more)
  moreover have "strings_Join (map json_member (map (map_prod id json_text) (kv # kvs))) '','' @ CHR ''}'' # rest =
      json_member (k, json_text v) @ CHR '','' # s"
    using cons.hyps by (cases kvs) (simp_all add: kv s_def)
  ultimately show ?case by (simp only: kv rev.simps append_assoc append.simps)
qed

lemma reads_text:
  "plain v \<Longrightarrow> json_depth v \<le> d \<Longrightarrow> delim rest \<Longrightarrow> reads (\<lambda>n. parse_value n d (json_text v @ rest)) (v, rest)"
proof (induction v arbitrary: d rest)
  case (JStr s)
  then show ?case by (simp add: reads_string del: parse_value.simps)
next
  case (JNum l)
  then show ?case by (simp add: reads_number del: parse_value.simps)
next
  case (JArr xs)
  then obtain e where d: "d = Suc e" by (cases d) auto
  show ?case
  proof (cases "xs = []")
    case False
    have "json_depth x \<le> e" if "x \<in> set xs" for x
      using JArr.prems(2) foldr_max_ge [of "json_depth x" "map json_depth xs"] that d by simp
    with JArr have "\<forall>x \<in> set xs. \<forall>rest. delim rest \<longrightarrow> reads (\<lambda>n. parse_value n e (json_text x @ rest)) (x, rest)" by simp
    from reads_elems [OF False this, of "[]"]
    have "reads (\<lambda>n. parse_elems n e [] (strings_Join (map json_text xs) '','' @ CHR '']'' # rest)) (JArr xs, rest)" by simp
    moreover obtain x ys where "xs = x # ys" using False by (cases xs) auto
    with json_text_start [of x] JArr.prems(1) obtain c t where
      "strings_Join (map json_text xs) '','' = c # t" "\<not> json_space c" "c \<noteq> CHR '']''"
      by (cases ys) auto
    ultimately show ?thesis using d by - (rule reads_Suc, simp add: json_space_def)
  qed (use d in \<open>auto intro!: reads_Suc [of "\<lambda>n. parse_value n _ _"] simp: json_space_def\<close>)
next
  case (JObj kvs)
  then obtain e where d: "d = Suc e" by (cases d) auto
  let ?s = "strings_Join (map json_member (map (map_prod id json_text) kvs)) '',''"
  show ?case
  proof (cases "kvs = []")
    case False
    have "json_depth v \<le> e" if "(k, v) \<in> set kvs" for k v
      using JObj.prems(2) foldr_max_ge [of "json_depth v" "map snd (map (map_prod id json_depth) kvs)"] that d
      by (force simp: image_image)
    with JObj have "\<forall>(k, v) \<in> set kvs. ascii k \<and>
        (\<forall>rest. delim rest \<longrightarrow> reads (\<lambda>n. parse_value n e (json_text v @ rest)) (v, rest))" by fastforce
    from reads_members [OF False this, of "[]"]
    have "reads (\<lambda>n. parse_members n e [] (?s @ CHR ''}'' # rest)) (JObj kvs, rest)" by simp
    moreover obtain kv ys where "kvs = kv # ys" using False by (cases kvs) auto
    then obtain t where "?s = CHR 0x22 # t"
      by (cases ys) (auto simp: json_member_def json_quote_def)
    ultimately show ?thesis using d by - (rule reads_Suc, simp)
  qed (use d in \<open>auto intro!: reads_Suc [of "\<lambda>n. parse_value n _ _"]\<close>)
qed (auto intro!: reads_Suc [of "\<lambda>n. parse_value n _ _"] simp: json_space_def)

lemma parse_text:
  assumes "plain v" and "json_depth v \<le> maxNestingDepth" and "delim rest" and "s = json_text v @ rest"
  shows "parse_value (Suc (2 * length s)) maxNestingDepth s = Some (v, rest)"
proof -
  from reads_text [OF assms(1-3)] obtain N where N: "\<forall>n \<ge> N. parse_value n maxNestingDepth s = Some (v, rest)"
    unfolding reads_def assms(4) by blast
  have "parse_value (Suc (2 * length s)) maxNestingDepth s = parse_value (max N (Suc (2 * length s))) maxNestingDepth s"
    using parse_fuel [of "Suc (2 * length s)"] by (metis lessI max.strict_coboundedI2)
  with N show ?thesis by simp
qed

text \<open>Both readers get back the tree; the streaming one also from the output of \<open>Encoder.Encode\<close>, which adds a newline.\<close>

lemma Unmarshal_text: "plain v \<Longrightarrow> json_depth v \<le> maxNestingDepth \<Longrightarrow> json_Unmarshal (json_text v) = Some v"
  using parse_text [of v "[]" "json_text v"] by (simp add: json_Unmarshal_def del: parse_value.simps)

lemma Unmarshal_text_newline:
  "plain v \<Longrightarrow> json_depth v \<le> maxNestingDepth \<Longrightarrow> json_Unmarshal (json_text v @ [CHR 0x0A]) = Some v"
  using parse_text [of v "[CHR 0x0A]" "json_text v @ [CHR 0x0A]"]
  by (simp add: json_Unmarshal_def skip_ws_def json_space_def del: parse_value.simps)

lemma Decode_text: "plain v \<Longrightarrow> json_depth v \<le> maxNestingDepth \<Longrightarrow> json_Decode (json_text v) = Some v"
  using parse_text [of v "[]" "json_text v"] by (simp add: json_Decode_def del: parse_value.simps)

subsection \<open>Sorted maps\<close>

primrec maps_distinct :: "json \<Rightarrow> bool" where
  "maps_distinct JNull = True"
| "maps_distinct (JBool b) = True"
| "maps_distinct (JNum l) = True"
| "maps_distinct (JStr s) = True"
| "maps_distinct (JArr xs) = list_all id (map maps_distinct xs)"
| "maps_distinct (JObj kvs) =
     (distinct (map fst kvs) \<and> list_all snd (map (map_prod id maps_distinct) kvs))"

lemma update_new: "k \<notin> fst ` set m \<Longrightarrow> AList.update k v m = m @ [(k, v)]"
  by (induction m) auto

lemma go_dedup_distinct_id: "distinct (map fst kvs) \<Longrightarrow> go_dedup kvs = kvs"
proof (induction kvs rule: rev_induct)
  case (snoc kv kvs)
  then show ?case by (cases kv) (simp add: go_dedup_def update_new)
qed (simp add: go_dedup_def)

lemma go_any_distinct: "maps_distinct v \<Longrightarrow> go_any v = v"
proof (induction v)
  case (JArr xs)
  then show ?case by (auto simp: list_all_iff map_idI)
next
  case (JObj kvs)
  then have "map (map_prod id go_any) kvs = kvs" by (fastforce simp: list_all_iff intro!: map_idI)
  with JObj.prems show ?case by (simp add: go_dedup_distinct_id)
qed simp_all

lemma sort_key_fst_distinct: "distinct (map fst kvs) \<Longrightarrow> distinct (map fst (sort_key fst kvs))"
  by (simp add: distinct_map)

lemma json_sorted_distinct: "maps_distinct v \<Longrightarrow> maps_distinct (json_sorted v)"
proof (induction v)
  case (JObj kvs)
  have "distinct (map fst (map (map_prod id json_sorted) kvs))" using JObj.prems by (simp add: comp_def)
  with JObj show ?case by (fastforce simp: list_all_iff intro!: sort_key_fst_distinct)
qed (auto simp: list_all_iff)

lemma foldr_max_le_iff: "foldr max xs 0 \<le> (d :: nat) \<longleftrightarrow> (\<forall>x \<in> set xs. x \<le> d)"
  by (induction xs) auto

lemma json_sorted_depth: "json_depth (json_sorted v) \<le> json_depth v"
proof (induction v)
  case (JArr xs)
  then show ?case by (fastforce simp: foldr_max_le_iff intro: le_trans foldr_max_ge)
next
  case (JObj kvs)
  have "json_depth (json_sorted v) \<le> foldr max (map snd (map (map_prod id json_depth) kvs)) 0" if "(k, v) \<in> set kvs" for k v
  proof -
    from JObj that have "json_depth (json_sorted v) \<le> json_depth v" by fastforce
    also from that have "json_depth v \<in> set (map snd (map (map_prod id json_depth) kvs))" by force
    then have "json_depth v \<le> foldr max (map snd (map (map_prod id json_depth) kvs)) 0" by (rule foldr_max_ge)
    finally show ?thesis .
  qed
  then show ?case by (auto simp: foldr_max_le_iff)
qed simp_all

lemma json_sorted_plain: "plain v \<Longrightarrow> plain (json_sorted v)"
proof (induction v)
  case (JNum l)
  then show ?case by (auto simp: isValidNumber_def dest!: json_number_start)
qed fastforce+

lemma Marshal_any_plain:
  assumes "plain v"
  shows "json_Marshal_any v = Some (json_text (json_sorted v))"
  using json_sorted_plain [OF assms] by (simp add: json_Marshal_any_def plain_def)

end
