(* ===== verification/MockOIDC.thy ===== *)
theory MockOIDC
  imports GoJsonTree Verifier "HOL-Library.Word"
begin

text \<open>
  Package \<open>internal/mockoidc\<close>: the identity provider the tests run against. It serves a discovery document and its
  public keys, and mints tokens. RSA and SHA-256 are the argument \<open>rsa\<close>; its calls draw on the random source, the
  world \<open>'w\<close>. A call of \<open>t.Fatalf\<close> ends the test: it is the \<open>Inl\<close> result. A value of type \<open>any\<close> is a JSON tree,
  its numbers as the literals the encoder writes.

  The blocking of JWKS requests (\<open>HoldJWKS\<close>) is a step relation: channels are addresses, a gate is open or closed, and
  every held request is a handler with a position.
\<close>

subsection \<open>Keys\<close>

record ('priv, 'w) rsa_lib =
  GenerateKey :: "nat \<Rightarrow> 'w \<Rightarrow> (string + 'priv) \<times> 'w"
  rsa_N :: "'priv \<Rightarrow> nat"
  rsa_E :: "'priv \<Rightarrow> int"
  SignPKCS1v15 :: "'priv \<Rightarrow> string \<Rightarrow> 'w \<Rightarrow> (string + string) \<times> 'w"
  sha256_Sum256 :: "string \<Rightarrow> string"

record 'priv key =
  key_kid :: string
  key_priv :: 'priv

record 'priv Server =
  httpSrv_URL :: string
  srv_keys :: "'priv key list"
  jwksRequests :: int
  jwksGate :: "nat option"
  jwksEntered :: "nat option"

datatype fatal =
    GenerateRSAKey string
  | NoKeyWithKid string
  | MarshalSegment
  | SignToken string
  | IndexOutOfRange

definition addKeyLocked :: "('priv, 'w) rsa_lib \<Rightarrow> string \<Rightarrow> 'priv Server \<Rightarrow> 'w \<Rightarrow> (fatal + 'priv Server) \<times> 'w" where
  "addKeyLocked rsa kid s w =
     (case GenerateKey rsa 2048 w of
        (Inl e, w') \<Rightarrow> (Inl (GenerateRSAKey e), w')
      | (Inr priv, w') \<Rightarrow> (Inr (s\<lparr>srv_keys := srv_keys s @ [\<lparr>key_kid = kid, key_priv = priv\<rparr>]\<rparr>), w'))"

text \<open>\<open>url\<close> is the address the test server listens on.\<close>

definition mock_New :: "('priv, 'w) rsa_lib \<Rightarrow> string \<Rightarrow> 'w \<Rightarrow> (fatal + 'priv Server) \<times> 'w" where
  "mock_New rsa url w =
     (case addKeyLocked rsa ''key-1''
         \<lparr>httpSrv_URL = [], srv_keys = [], jwksRequests = 0, jwksGate = None, jwksEntered = None\<rparr> w of
        (Inl e, w') \<Rightarrow> (Inl e, w')
      | (Inr s, w') \<Rightarrow> (Inr (s\<lparr>httpSrv_URL := url\<rparr>), w'))"

text \<open>The routes of its mux: patterns without a trailing slash match their own path only.\<close>

datatype endpoint = DiscoveryEndpoint | JWKSEndpoint

definition mock_routes :: "string \<rightharpoonup> endpoint" where
  "mock_routes = [''/.well-known/openid-configuration'' \<mapsto> DiscoveryEndpoint, ''/.well-known/jwks.json'' \<mapsto> JWKSEndpoint]"

definition mock_Issuer :: "'priv Server \<Rightarrow> string" where
  "mock_Issuer s = httpSrv_URL s"

definition AddKey :: "('priv, 'w) rsa_lib \<Rightarrow> string \<Rightarrow> 'priv Server \<Rightarrow> 'w \<Rightarrow> (fatal + 'priv Server \<times> string) \<times> 'w" where
  "AddKey rsa kid s w =
     (case addKeyLocked rsa kid s w of
        (Inl e, w') \<Rightarrow> (Inl e, w')
      | (Inr s', w') \<Rightarrow> (Inr (s', kid), w'))"

text \<open>The loop of \<open>SetDefaultKey\<close>: the index of the first key with the kid.\<close>

fun kid_index :: "string \<Rightarrow> nat \<Rightarrow> 'priv key list \<Rightarrow> nat option" where
  "kid_index kid i [] = None"
| "kid_index kid i (k # ks) = (if key_kid k = kid then Some i else kid_index kid (Suc i) ks)"

definition SetDefaultKey :: "string \<Rightarrow> 'priv Server \<Rightarrow> 'priv Server" where
  "SetDefaultKey kid s =
     (case kid_index kid 0 (srv_keys s) of
        None \<Rightarrow> s
      | Some i \<Rightarrow> s\<lparr>srv_keys := (srv_keys s)[0 := srv_keys s ! i, i := srv_keys s ! 0]\<rparr>)"

fun findKey :: "'priv key list \<Rightarrow> string \<Rightarrow> fatal + 'priv key" where
  "findKey [] kid = Inl (NoKeyWithKid kid)"
| "findKey (k # ks) kid = (if key_kid k = kid then Inr k else findKey ks kid)"

subsection \<open>Tokens\<close>

text \<open>A nil slice is \<open>None\<close>: it is written as null.\<close>

record TokenOptions =
  TO_Subject :: string
  TO_Audience :: "string list option"
  AWSAccount :: string
  OrgID :: string
  PrincipalTags :: go_map
  TO_IssuedAt :: time
  TO_NotBefore :: time
  TO_Expiry :: time
  ExtraClaims :: "(string \<times> json) list"
  IssuerOverride :: string
  KidOverride :: string
  SignWithKid :: string

definition strconvI :: "int \<Rightarrow> string" where
  "strconvI n = (if n < 0 then CHR ''-'' # itoa (nat (- n)) else itoa (nat n))"

text \<open>\<open>time.UnixNano\<close> is computed in an \<open>int64\<close>, which wraps.\<close>

definition Time_UnixNano :: "time \<Rightarrow> int" where
  "Time_UnixNano t = signed_take_bit 63 t"

definition encodeSegment :: "json \<Rightarrow> fatal + string" where
  "encodeSegment v =
     (case json_Marshal_any v of
        None \<Rightarrow> Inl MarshalSegment
      | Some data \<Rightarrow> Inr (b64_EncodeToString data))"

definition namespace_claims :: "TokenOptions \<Rightarrow> (string \<times> json) list" where
  "namespace_claims opts =
     (if AWSAccount opts \<noteq> [] then [(''aws_account'', JStr (AWSAccount opts))] else []) @
     (if OrgID opts \<noteq> [] then [(''org_id'', JStr (OrgID opts))] else []) @
     (if length (PrincipalTags opts) > 0
      then [(''principal_tags'', JObj (map (map_prod id JStr) (PrincipalTags opts)))] else [])"

definition mint_claims :: "string \<Rightarrow> time \<Rightarrow> TokenOptions \<Rightarrow> (string \<times> json) list" where
  "mint_claims url now opts =
     (let iat = (if Time_IsZero (TO_IssuedAt opts) then now else TO_IssuedAt opts);
          exp = (if Time_IsZero (TO_Expiry opts) then now + 5 * minute else TO_Expiry opts);
          iss = (if IssuerOverride opts \<noteq> [] then IssuerOverride opts else url);
          aud = (case TO_Audience opts of None \<Rightarrow> JNull | Some auds \<Rightarrow> JArr (map JStr auds));
          claims = ExtraClaims opts;
          claims = AList.update ''iss'' (JStr iss) claims;
          claims = AList.update ''sub'' (JStr (TO_Subject opts)) claims;
          claims = AList.update ''aud'' aud claims;
          claims = AList.update ''iat'' (JNum (strconvI (Time_Unix iat))) claims;
          claims = AList.update ''exp'' (JNum (strconvI (Time_Unix exp))) claims;
          claims = AList.update ''jti'' (JStr (TO_Subject opts @ ''-'' @ strconvI (Time_UnixNano iat))) claims;
          claims = (if \<not> Time_IsZero (TO_NotBefore opts)
                    then AList.update ''nbf'' (JNum (strconvI (Time_Unix (TO_NotBefore opts)))) claims else claims);
          ns = namespace_claims opts
      in if length ns > 0 then AList.update Namespace (JObj ns) claims else claims)"

definition mint_header :: "string \<Rightarrow> json" where
  "mint_header kid = JObj [(''alg'', JStr ''RS256''), (''typ'', JStr ''JWT''), (''kid'', JStr kid)]"

definition mint_signer :: "'priv Server \<Rightarrow> TokenOptions \<Rightarrow> fatal + 'priv key" where
  "mint_signer s opts =
     (case srv_keys s of
        [] \<Rightarrow> Inl IndexOutOfRange
      | k # _ \<Rightarrow> if SignWithKid opts \<noteq> [] then findKey (srv_keys s) (SignWithKid opts) else Inr k)"

definition Mint ::
    "('priv, 'w) rsa_lib \<Rightarrow> time \<Rightarrow> TokenOptions \<Rightarrow> 'priv Server \<Rightarrow> 'w \<Rightarrow> (fatal + string) \<times> 'w" where
  "Mint rsa now opts s w =
     (case mint_signer s opts of
        Inl e \<Rightarrow> (Inl e, w)
      | Inr signer \<Rightarrow>
          (let kid = (if KidOverride opts \<noteq> [] then KidOverride opts else key_kid signer)
           in case encodeSegment (mint_header kid) of
                Inl e \<Rightarrow> (Inl e, w)
              | Inr h \<Rightarrow>
                  (case encodeSegment (JObj (mint_claims (httpSrv_URL s) now opts)) of
                     Inl e \<Rightarrow> (Inl e, w)
                   | Inr c \<Rightarrow>
                       (let signingInput = h @ ''.'' @ c
                        in case SignPKCS1v15 rsa (key_priv signer) (sha256_Sum256 rsa signingInput) w of
                             (Inl e, w') \<Rightarrow> (Inl (SignToken e), w')
                           | (Inr sig, w') \<Rightarrow> (Inr (signingInput @ ''.'' @ b64_EncodeToString sig), w')))))"

subsection \<open>Documents\<close>

text \<open>\<open>Encoder.Encode\<close> writes nothing when the value cannot be encoded; its error is ignored.\<close>

record json_response = http_response +
  ContentType :: string

definition writeJSON :: "json \<Rightarrow> json_response" where
  "writeJSON v =
     \<lparr>StatusCode = 200, Body = (case json_Marshal_any v of None \<Rightarrow> [] | Some text \<Rightarrow> text @ [CHR 0x0A]),
      ContentType = ''application/json''\<rparr>"

definition handleDiscovery :: "'priv Server \<Rightarrow> json_response" where
  "handleDiscovery s =
     writeJSON (JObj [
       (''issuer'', JStr (httpSrv_URL s)),
       (''jwks_uri'', JStr (httpSrv_URL s @ ''/.well-known/jwks.json'')),
       (''authorization_endpoint'', JStr (httpSrv_URL s @ ''/authorize'')),
       (''token_endpoint'', JStr (httpSrv_URL s @ ''/token'')),
       (''response_types_supported'', JArr [JStr ''id_token'']),
       (''subject_types_supported'', JArr [JStr ''public'']),
       (''id_token_signing_alg_values_supported'', JArr [JStr ''RS256'', JStr ''ES384''])])"

text \<open>\<open>binary.BigEndian.PutUint64\<close> on eight bytes, and the loop that drops leading zero bytes.\<close>

definition PutUint64 :: "64 word \<Rightarrow> string" where
  "PutUint64 v = map (\<lambda>i. char_of (unat (drop_bit (56 - 8 * i) v) mod 256)) [0..<8]"

fun strip_zeros :: "string \<Rightarrow> string" where
  "strip_zeros b = (if length b > 1 \<and> b ! 0 = CHR 0x00 then strip_zeros (tl b) else b)"

declare strip_zeros.simps [simp del]

definition encodeExponent :: "int \<Rightarrow> string" where
  "encodeExponent e = strip_zeros (PutUint64 (word_of_int e))"

text \<open>\<open>big.Int.Bytes\<close>: big-endian, without leading zeros.\<close>

fun big_Bytes :: "nat \<Rightarrow> string" where
  "big_Bytes n = (if n = 0 then [] else big_Bytes (n div 256) @ [char_of (n mod 256)])"

declare big_Bytes.simps [simp del]

definition jwk :: "('priv, 'w) rsa_lib \<Rightarrow> 'priv key \<Rightarrow> json" where
  "jwk rsa k =
     JObj [(''kty'', JStr ''RSA''), (''use'', JStr ''sig''), (''alg'', JStr ''RS256''), (''kid'', JStr (key_kid k)),
       (''n'', JStr (b64_EncodeToString (big_Bytes (rsa_N rsa (key_priv k))))),
       (''e'', JStr (b64_EncodeToString (encodeExponent (rsa_E rsa (key_priv k)))))]"

text \<open>The last part of \<open>handleJWKS\<close>, once the request is past the gate.\<close>

definition jwks_answer :: "('priv, 'w) rsa_lib \<Rightarrow> 'priv Server \<Rightarrow> json_response" where
  "jwks_answer rsa s = writeJSON (JObj [(''keys'', JArr (map (jwk rsa) (srv_keys s)))])"

definition JWKSRequests :: "'priv Server \<Rightarrow> int" where
  "JWKSRequests s = jwksRequests s"

subsection \<open>Holding JWKS requests\<close>

text \<open>
  Where a call of \<open>handleJWKS\<close> is. A handler that was stopped at a gate keeps the gate's address behind it, which only
  records history. \<open>handleJWKS_look\<close> reads gate and channel in one critical section; the answer is a later one.
\<close>

datatype jwks_pc =
    Looking
  | Entering nat "nat option"
  | AtGate nat
  | Serving "nat option"
  | Answered "nat option" json_response
  | ClientGone

definition handleJWKS_count :: "'priv Server \<Rightarrow> 'priv Server" where
  "handleJWKS_count s = s\<lparr>jwksRequests := jwksRequests s + 1\<rparr>"

definition handleJWKS_look :: "'priv Server \<Rightarrow> jwks_pc" where
  "handleJWKS_look s = (case jwksGate s of None \<Rightarrow> Serving None | Some g \<Rightarrow> Entering g (jwksEntered s))"

text \<open>The send to \<open>entered\<close> that does not block: dropped when 64 values are waiting, or on a nil channel.\<close>

definition entered_send :: "nat option \<Rightarrow> (nat \<rightharpoonup> nat) \<Rightarrow> (nat \<rightharpoonup> nat)" where
  "entered_send e chans =
     (case e of
        None \<Rightarrow> chans
      | Some c \<Rightarrow>
          (case chans c of
             None \<Rightarrow> chans
           | Some n \<Rightarrow> if n < 64 then chans(c \<mapsto> Suc n) else chans))"

text \<open>The critical sections of \<open>HoldJWKS\<close>, on freshly made channels, and of the release function it returns.\<close>

definition HoldJWKS :: "nat \<Rightarrow> nat \<Rightarrow> 'priv Server \<Rightarrow> 'priv Server" where
  "HoldJWKS gate entered s = s\<lparr>jwksGate := Some gate, jwksEntered := Some entered\<rparr>"

definition release_clear :: "'priv Server \<Rightarrow> 'priv Server" where
  "release_clear s = s\<lparr>jwksGate := None\<rparr>"

text \<open>The \<open>sync.Once\<close> of a hold: not run, between its two effects, done.\<close>

datatype hold = Armed | Clearing | Released

record 'priv msys =
  server :: "'priv Server"
  gate_closed :: "nat \<rightharpoonup> bool"
  entered_chan :: "nat \<rightharpoonup> nat"
  holds :: "nat \<rightharpoonup> hold"
  handlers :: "nat \<rightharpoonup> jwks_pc"

inductive mstep :: "('priv, 'w) rsa_lib \<Rightarrow> 'priv msys \<Rightarrow> 'priv msys \<Rightarrow> bool" for rsa :: "('priv, 'w) rsa_lib" where
  Arrive: "handlers s q = None \<Longrightarrow>
     mstep rsa s (s\<lparr>server := handleJWKS_count (server s), handlers := (handlers s)(q \<mapsto> Looking)\<rparr>)"
| Look: "handlers s q = Some Looking \<Longrightarrow>
     mstep rsa s (s\<lparr>handlers := (handlers s)(q \<mapsto> handleJWKS_look (server s))\<rparr>)"
| Enter: "handlers s q = Some (Entering g e) \<Longrightarrow>
     mstep rsa s (s\<lparr>entered_chan := entered_send e (entered_chan s), handlers := (handlers s)(q \<mapsto> AtGate g)\<rparr>)"
| Pass: "handlers s q = Some (AtGate g) \<Longrightarrow> gate_closed s g = Some True \<Longrightarrow>
     mstep rsa s (s\<lparr>handlers := (handlers s)(q \<mapsto> Serving (Some g))\<rparr>)"
| Leave: "handlers s q = Some (AtGate g) \<Longrightarrow> mstep rsa s (s\<lparr>handlers := (handlers s)(q \<mapsto> ClientGone)\<rparr>)"
| Answer: "handlers s q = Some (Serving g) \<Longrightarrow>
     mstep rsa s (s\<lparr>handlers := (handlers s)(q \<mapsto> Answered g (jwks_answer rsa (server s)))\<rparr>)"
| Hold: "holds s g = None \<Longrightarrow> gate_closed s g = None \<Longrightarrow> entered_chan s c = None \<Longrightarrow>
     mstep rsa s (s\<lparr>server := HoldJWKS g c (server s), gate_closed := (gate_closed s)(g \<mapsto> False),
       entered_chan := (entered_chan s)(c \<mapsto> 0), holds := (holds s)(g \<mapsto> Armed)\<rparr>)"
| Clear: "holds s g = Some Armed \<Longrightarrow>
     mstep rsa s (s\<lparr>server := release_clear (server s), holds := (holds s)(g \<mapsto> Clearing)\<rparr>)"
| Close: "holds s g = Some Clearing \<Longrightarrow>
     mstep rsa s (s\<lparr>gate_closed := (gate_closed s)(g \<mapsto> True), holds := (holds s)(g \<mapsto> Released)\<rparr>)"
| Receive: "entered_chan s c = Some (Suc n) \<Longrightarrow> mstep rsa s (s\<lparr>entered_chan := (entered_chan s)(c \<mapsto> n)\<rparr>)"
| Added: "AddKey rsa kid (server s) w = (Inr (srv, kid), w') \<Longrightarrow> mstep rsa s (s\<lparr>server := srv\<rparr>)"
| Rotated: "mstep rsa s (s\<lparr>server := SetDefaultKey kid (server s)\<rparr>)"

text \<open>The server as \<open>New\<close> returns it, before any request.\<close>

definition mock_start :: "('priv, 'w) rsa_lib \<Rightarrow> 'priv msys \<Rightarrow> bool" where
  "mock_start rsa s \<longleftrightarrow> (\<exists>url w srv w'. mock_New rsa url w = (Inr srv, w') \<and>
     s = \<lparr>server = srv, gate_closed = Map.empty, entered_chan = Map.empty, holds = Map.empty, handlers = Map.empty\<rparr>)"

end
