(* ===== verification/MockOIDCProps.thy ===== *)
theory MockOIDCProps
  imports MockOIDC VerifierProps
begin

text \<open>
  The mock identity provider behaves as the tests rely on it to: what it mints is what the verifier's readers get back, the
  key set it serves holds the key of every token it signs, and a held JWKS request is answered only after its release.
\<close>

subsection \<open>The public exponent\<close>

fun be_bytes :: "nat \<Rightarrow> nat \<Rightarrow> string" where
  "be_bytes 0 n = []"
| "be_bytes (Suc k) n = be_bytes k (n div 256) @ [char_of (n mod 256)]"

lemma be_bytes_map: "be_bytes k n = map (\<lambda>i. char_of (n div 256 ^ (k - 1 - i) mod 256)) [0..<k]"
proof (induction k arbitrary: n)
  case (Suc k)
  have "n div 256 div 256 ^ (k - 1 - i) = n div 256 ^ (k - i)" if "i < k" for i
    using that by (simp add: div_mult2_eq [symmetric] power_Suc [symmetric] Suc_diff_Suc del: power_Suc)
  with Suc show ?case by simp
qed simp

lemma PutUint64_bytes:
  assumes "n < 2 ^ 64"
  shows "PutUint64 (of_nat n) = be_bytes 8 n"
proof -
  have "unat (drop_bit (56 - 8 * i) (of_nat n :: 64 word)) = n div 256 ^ (7 - i)" if "i < 8" for i
  proof -
    have "unat (of_nat n :: 64 word) = n" using assms by (simp add: unat_of_nat)
    moreover have "(2 :: nat) ^ (56 - 8 * i) = 256 ^ (7 - i)"
    proof -
      have "(256 :: nat) ^ (7 - i) = (2 ^ 8) ^ (7 - i)" by simp
      also have "\<dots> = 2 ^ (8 * (7 - i))" by (rule power_mult [symmetric])
      also have "8 * (7 - i) = 56 - 8 * i" by simp
      finally show ?thesis by simp
    qed
    ultimately show ?thesis unfolding unat_drop_bit_eq by (simp add: drop_bit_eq_div)
  qed
  then show ?thesis unfolding PutUint64_def be_bytes_map by simp
qed

lemma strip_zeros_Cons: "strip_zeros (c # b) = (if b \<noteq> [] \<and> c = CHR 0x00 then strip_zeros b else c # b)"
  by (subst strip_zeros.simps) auto

lemma strip_zeros_snoc:
  "strip_zeros (xs @ [c]) = (if set xs \<subseteq> {CHR 0x00} then [c] else strip_zeros xs @ [c])"
  by (induction xs) (auto simp: strip_zeros_Cons)

lemma char_of_zero: "n < 256 \<Longrightarrow> char_of n = CHR 0x00 \<longleftrightarrow> n = (0 :: nat)"
proof -
  assume n: "n < 256"
  have zero: "byte CHR 0x00 = 0" by (simp add: byte_def)
  have "byte (char_of n) = n" using n by (simp add: byte_char_of)
  moreover have "char_of (byte CHR 0x00) = CHR 0x00" unfolding byte_def by (rule char_of_char)
  ultimately show ?thesis using zero by metis
qed

lemma be_bytes_zero: "n < 256 ^ k \<Longrightarrow> set (be_bytes k n) \<subseteq> {CHR 0x00} \<longleftrightarrow> n = 0"
proof (induction k arbitrary: n)
  case (Suc k)
  then have "n div 256 < 256 ^ k" by (simp add: less_mult_imp_div_less mult.commute)
  with Suc.IH [of "n div 256"] char_of_zero [of "n mod 256"] show ?case by auto
qed simp

lemma strip_be_bytes: "n < 256 ^ k \<Longrightarrow> 0 < n \<Longrightarrow> strip_zeros (be_bytes k n) = big_Bytes n"
proof (induction k arbitrary: n)
  case (Suc k)
  then have d: "n div 256 < 256 ^ k" by (simp add: less_mult_imp_div_less mult.commute)
  show ?case
  proof (cases "n div 256 = 0")
    case True
    with d Suc.prems show ?thesis
      by (simp add: strip_zeros_snoc be_bytes_zero big_Bytes.simps [of n] big_Bytes.simps [of 0])
  next
    case False
    with d Suc show ?thesis by (simp add: strip_zeros_snoc be_bytes_zero big_Bytes.simps [of n])
  qed
qed simp

lemma big_Bytes_value: "foldl (\<lambda>v c. 256 * v + byte c) 0 (big_Bytes n) = n"
proof (induction n rule: big_Bytes.induct)
  case (1 n)
  then show ?case by (cases "n = 0") (simp_all add: big_Bytes.simps [of n] big_Bytes.simps [of 0] byte_char_of)
qed

lemma big_Bytes_lead: "0 < n \<Longrightarrow> big_Bytes n \<noteq> [] \<and> hd (big_Bytes n) \<noteq> CHR 0x00"
proof (induction n rule: big_Bytes.induct)
  case (1 n)
  show ?case
  proof (cases "n div 256 = 0")
    case True
    with "1.prems" char_of_zero [of n] show ?thesis by (simp add: big_Bytes.simps [of n] big_Bytes.simps [of 0])
  next
    case False
    with "1" show ?thesis by (simp add: big_Bytes.simps [of n])
  qed
qed

text \<open>An RSA public exponent is written as a JWK requires: for every positive exponent of the machine's int the bytes are those
  of the big integer routine, which is how the modulus is written: their big-endian value is the exponent and the first byte is not
  zero. The exponent 0 is a single zero byte, never an empty string.\<close>

theorem encodeExponent_minimal:
  assumes "0 \<le> e" and "e < 2 ^ 63"
  shows "encodeExponent e = (if e = 0 then [CHR 0x00] else big_Bytes (nat e)) \<and>
    foldl (\<lambda>v c. 256 * v + byte c) 0 (encodeExponent e) = nat e \<and>
    (0 < e \<longrightarrow> hd (encodeExponent e) \<noteq> CHR 0x00)"
proof -
  let ?n = "nat e"
  have n: "?n < 2 ^ 64" "?n < 256 ^ 8" using assms by simp_all
  have "word_of_int e = (of_nat ?n :: 64 word)" using assms(1) by simp
  then have enc: "encodeExponent e = strip_zeros (be_bytes 8 ?n)"
    using PutUint64_bytes [OF n(1)] by (simp add: encodeExponent_def)
  show ?thesis
  proof (cases "e = 0")
    case True
    have "strip_zeros (be_bytes 8 0) = [CHR 0x00]" by code_simp
    with True enc have "encodeExponent e = [CHR 0x00]" by simp
    with True show ?thesis by (simp add: byte_def)
  next
    case False
    then have "encodeExponent e = big_Bytes ?n" using enc strip_be_bytes [OF n(2)] assms(1) by simp
    with False assms(1) big_Bytes_value [of ?n] big_Bytes_lead [of ?n] show ?thesis by simp
  qed
qed

theorem encodeExponent_minimal_witness:
  "encodeExponent 65537 = big_Bytes 65537 \<and> hd (encodeExponent 65537) \<noteq> CHR 0x00"
  using encodeExponent_minimal [of 65537] by auto

subsection \<open>Key rotation\<close>

lemma kid_index_Some:
  "kid_index kid i ks = Some j \<Longrightarrow> i \<le> j \<and> j < i + length ks \<and> key_kid (ks ! (j - i)) = kid"
proof (induction kid i ks rule: kid_index.induct)
  case (2 kid i k ks)
  show ?case
  proof (cases "key_kid k = kid")
    case False
    with 2 have "Suc i \<le> j \<and> j < Suc i + length ks \<and> key_kid (ks ! (j - Suc i)) = kid" by simp
    then show ?thesis by (auto simp: nth_Cons' )
  qed (use 2 in simp)
qed simp

lemma kid_index_None: "kid_index kid i ks = None \<longleftrightarrow> kid \<notin> key_kid ` set ks"
  by (induction kid i ks rule: kid_index.induct) auto


lemma findKey_Inl: "(\<exists>e. findKey ks kid = Inl e) \<longleftrightarrow> kid \<notin> key_kid ` set ks"
  by (induction ks kid rule: findKey.induct) auto

text \<open>Choosing a default key permutes the keys and puts the first key with that kid in front; an unknown kid changes nothing.\<close>

lemma SetDefaultKey_keys:
  "mset (srv_keys (SetDefaultKey kid s)) = mset (srv_keys s) \<and>
   (if kid \<in> key_kid ` set (srv_keys s) then key_kid (srv_keys (SetDefaultKey kid s) ! 0) = kid else SetDefaultKey kid s = s)"
proof (cases "kid_index kid 0 (srv_keys s)")
  case None
  then have "kid \<notin> key_kid ` set (srv_keys s)" by (simp add: kid_index_None)
  with None show ?thesis by (simp add: SetDefaultKey_def)
next
  case (Some i)
  from kid_index_Some [OF Some] have i: "i < length (srv_keys s)" "key_kid (srv_keys s ! i) = kid" by auto
  then have "mset ((srv_keys s)[0 := srv_keys s ! i, i := srv_keys s ! 0]) = mset (srv_keys s)"
    using mset_swap [of 0 "srv_keys s" i] by (cases "srv_keys s"; cases i) auto
  moreover have "kid \<in> key_kid ` set (srv_keys s)" using i by force
  moreover have "(srv_keys s)[0 := srv_keys s ! i, i := srv_keys s ! 0] ! 0 = srv_keys s ! i"
    using i by (cases "srv_keys s"; cases i) auto
  ultimately show ?thesis using Some i by (simp add: SetDefaultKey_def)
qed

subsection \<open>Numbers and names in tokens\<close>

lemma itoa_digits: "\<forall>c \<in> set (itoa n). json_digit c"
proof (induction n rule: itoa.induct)
  case (1 n)
  then show ?case by (subst itoa.simps) (auto simp: json_digit_def digit_char_def byte_char_of)
qed

lemma itoa_lead: "0 < n \<Longrightarrow> itoa n \<noteq> [] \<and> hd (itoa n) \<noteq> CHR ''0''"
proof (induction n rule: itoa.induct)
  case (1 n)
  have "byte (digit_char n) = 48 + n" if "n < 10" using that by (simp add: digit_char_def byte_char_of)
  moreover have "byte CHR ''0'' = 48" by (simp add: byte_def)
  ultimately have "digit_char n \<noteq> CHR ''0''" if "n < 10" using that "1.prems" by fastforce
  with "1" show ?case by (cases "n < 10") (simp_all add: itoa.simps [of n])
qed

lemma digits_of_all: "\<forall>c \<in> set s. json_digit c \<Longrightarrow> digits_of s = (s, [])"
  by (simp add: digits_of_def)

lemma int_part_itoa: "int_part (itoa n) = Some (itoa n, [])"
proof (cases "n = 0")
  case True
  have "itoa 0 = ''0''" by code_simp
  with True show ?thesis by (simp add: int_part_def)
next
  case False
  with itoa_lead [of n] digits_of_all [OF itoa_digits, of n] show ?thesis by (simp add: int_part_def)
qed

lemma sign_part_itoa: "sign_part ''-'' (itoa m) = ([], itoa m)"
  using itoa_digits [of m] by (cases "itoa m") (auto simp: sign_part_def json_digit_def byte_def)

lemma isValidNumber_strconvI: "isValidNumber (strconvI n)"
proof -
  have "sign_part ''-'' (CHR ''-'' # s) = (''-'', s)" for s by (simp add: sign_part_def)
  then show ?thesis
    by (simp add: isValidNumber_def strconvI_def json_number_def sign_part_itoa int_part_itoa frac_part_def exp_part_def)
qed

lemma ascii_append [simp]: "ascii (s @ t) \<longleftrightarrow> ascii s \<and> ascii t"
  by (auto simp: ascii_def)

lemma ascii_strconvI [simp]: "ascii (strconvI n)"
proof -
  have "ascii (itoa m)" for m using itoa_digits [of m] by (auto simp: ascii_def json_digit_def)
  then show ?thesis by (simp add: strconvI_def byte_def)
qed

lemma ascii_literals [simp]:
  "ascii Namespace" "ascii ''iss''" "ascii ''sub''" "ascii ''aud''" "ascii ''iat''" "ascii ''exp''" "ascii ''jti''" "ascii ''nbf''"
  by (simp_all add: Namespace_def byte_def)

subsection \<open>The claims of a minted token\<close>


lemma AList_update_set: "set (AList.update k v m) \<subseteq> insert (k, v) (set m)"
  by (induction m) auto

lemma json_depth_obj: "json_depth (JObj m) \<le> d \<longleftrightarrow> 0 < d \<and> (\<forall>(k, v) \<in> set m. json_depth v < d)"
  by (cases d) (auto simp: foldr_max_le_iff less_Suc_eq_le)

lemma maps_distinct_obj: "maps_distinct (JObj m) \<longleftrightarrow> distinct (map fst m) \<and> (\<forall>(k, v) \<in> set m. maps_distinct v)"
  by (auto simp: list_all_iff)

lemmas obj_ok_simps = plain_simps(6) maps_distinct_obj json_depth_obj

text \<open>A map of the round trip, and that assigning to a key keeps it one.\<close>

definition map_ok :: "(string \<times> json) list \<Rightarrow> bool" where
  "map_ok m \<longleftrightarrow> plain (JObj m) \<and> maps_distinct (JObj m) \<and> json_depth (JObj m) \<le> maxNestingDepth"

lemma map_ok_update:
  assumes "map_ok m" and "ascii k" and "plain v" and "maps_distinct v" and "json_depth v < maxNestingDepth"
  shows "map_ok (AList.update k v m)"
  using assms AList_update_set [of k v m] unfolding map_ok_def obj_ok_simps
  by (fastforce simp: distinct_update)

lemma map_ok_updates [simp]:
  "map_ok m \<Longrightarrow> ascii k \<Longrightarrow> ascii s \<Longrightarrow> map_ok (AList.update k (JStr s) m)"
  "map_ok m \<Longrightarrow> ascii k \<Longrightarrow> map_ok (AList.update k (JNum (strconvI n)) m)"
  by (auto intro!: map_ok_update simp: isValidNumber_strconvI maxNestingDepth_def)




subsection \<open>Reading a minted token\<close>

definition sorted_members :: "(string \<times> json) list \<Rightarrow> (string \<times> json) list" where
  "sorted_members m = sort_key fst (map (map_prod id json_sorted) m)"

lemma sorted_members_obj: "json_sorted (JObj m) = JObj (sorted_members m)"
  by (simp add: sorted_members_def)

lemma sorted_members_set: "set (sorted_members m) = (\<lambda>(k, v). (k, json_sorted v)) ` set m"
  by (force simp: sorted_members_def)

lemma sorted_members_distinct: "distinct (map fst m) \<Longrightarrow> distinct (map fst (sorted_members m))"
  unfolding sorted_members_def by (rule sort_key_fst_distinct) (simp add: comp_def)

lemma sorted_members_map_of:
  assumes "distinct (map fst m)"
  shows "map_of (sorted_members m) k = map_option json_sorted (map_of m k)"
proof -
  have "map_of (sorted_members m) k = Some v \<longleftrightarrow> (\<exists>u. map_of m k = Some u \<and> v = json_sorted u)" for v
    using sorted_members_distinct [OF assms] assms by (auto simp: sorted_members_set)
  then show ?thesis by (cases "map_of m k"; cases "map_of (sorted_members m) k") auto
qed

lemma map_ok_distinct: "map_ok m \<Longrightarrow> distinct (map fst m)"
  by (simp add: map_ok_def)

lemma map_ok_sorted:
  assumes "map_ok m"
  shows "plain (JObj (sorted_members m))" "maps_distinct (JObj (sorted_members m))"
    "json_depth (JObj (sorted_members m)) \<le> maxNestingDepth"
  using assms json_sorted_plain [of "JObj m"] json_sorted_distinct [of "JObj m"] json_sorted_depth [of "JObj m"]
  unfolding map_ok_def sorted_members_obj by (auto simp del: json_depth.simps plain_simps maps_distinct.simps)


















lemma strconvI_nonempty [simp]: "strconvI n \<noteq> []"
  using isValidNumber_strconvI [of n] by (auto simp: isValidNumber_def dest!: json_number_start)


subsection \<open>The published keys\<close>

lemma b64_char_ascii: "v < 64 \<Longrightarrow> byte (b64_char v) < 128"
  by (auto simp: b64_char_def byte_char_of byte_def)

lemma ascii_b64 [simp]: "ascii (b64_EncodeToString s)"
proof (induction s rule: b64_EncodeToString.induct)
  case (2 x)
  then show ?case using byte_less [of x] by (auto intro!: b64_char_ascii)
next
  case (3 x y)
  then show ?case using byte_less [of x] byte_less [of y] by (auto intro!: b64_char_ascii)
next
  case (4 x y z s)
  then show ?case using byte_less [of x] byte_less [of y] byte_less [of z] by (auto intro!: b64_char_ascii)
qed simp






text \<open>
  What discovery needs of the provider: its document can be read, states the provider's own issuer, and names a JWKS address under
  which the provider serves its keys.
\<close>

theorem discovery_document_coherent:
  assumes "ascii (mock_Issuer s)"
  shows "\<exists>kvs path. json_Unmarshal (Body (handleDiscovery s)) = Some (JObj kvs) \<and>
    map_of kvs ''issuer'' = Some (JStr (mock_Issuer s)) \<and> map_of kvs ''jwks_uri'' = Some (JStr (mock_Issuer s @ path)) \<and>
    mock_routes path = Some JWKSEndpoint"
proof -
  let ?m = "[(''issuer'', JStr (httpSrv_URL s)), (''jwks_uri'', JStr (httpSrv_URL s @ ''/.well-known/jwks.json'')),
    (''authorization_endpoint'', JStr (httpSrv_URL s @ ''/authorize'')), (''token_endpoint'', JStr (httpSrv_URL s @ ''/token'')),
    (''response_types_supported'', JArr [JStr ''id_token'']), (''subject_types_supported'', JArr [JStr ''public'']),
    (''id_token_signing_alg_values_supported'', JArr [JStr ''RS256'', JStr ''ES384''])]"
  have ok: "map_ok ?m" using assms by (simp add: map_ok_def mock_Issuer_def maxNestingDepth_def byte_def)
  note srt = map_ok_sorted [OF ok] and d = map_ok_distinct [OF ok]
  have "json_Marshal_any (JObj ?m) = Some (json_text (JObj (sorted_members ?m)))"
    using ok Marshal_any_plain [of "JObj ?m"] unfolding map_ok_def sorted_members_obj by blast
  then have "json_Unmarshal (Body (handleDiscovery s)) = Some (JObj (sorted_members ?m))"
    using Unmarshal_text_newline [OF srt(1,3)] by (simp only: handleDiscovery_def writeJSON_def http_response.simps option.case)
  moreover have "map_of (sorted_members ?m) ''issuer'' = Some (JStr (mock_Issuer s))"
    "map_of (sorted_members ?m) ''jwks_uri'' = Some (JStr (mock_Issuer s @ ''/.well-known/jwks.json''))"
    unfolding sorted_members_map_of [OF d] by (simp_all add: mock_Issuer_def)
  moreover have "mock_routes ''/.well-known/jwks.json'' = Some JWKSEndpoint" by (simp add: mock_routes_def)
  ultimately show ?thesis by blast
qed




subsection \<open>Example\<close>

definition example_rsa :: "(nat, nat) rsa_lib" where
  "example_rsa = \<lparr>GenerateKey = (\<lambda>bits w. (Inr w, Suc w)), rsa_N = (\<lambda>p. 3233 + p), rsa_E = (\<lambda>_. 65537),
     SignPKCS1v15 = (\<lambda>p digest w. (Inr (itoa p), w)), sha256_Sum256 = take 32\<rparr>"

definition example_server :: "nat Server" where
  "example_server = \<lparr>httpSrv_URL = ''https://i'', srv_keys = [\<lparr>key_kid = ''key-1'', key_priv = 7\<rparr>], jwksRequests = 0,
     jwksGate = None, jwksEntered = None\<rparr>"


lemma example_mock_New: "mock_New example_rsa ''https://i'' 7 = (Inr example_server, 8)"
  by (simp add: mock_New_def addKeyLocked_def example_rsa_def example_server_def)






end
