(* ===== verification/MockOIDCHold.thy ===== *)
theory MockOIDCHold
  imports MockOIDCProps
begin

text \<open>The mock provider's holds: counted requests, no answer before the release, and no request stuck behind a release.\<close>

definition gates_ok :: "'priv msys \<Rightarrow> bool" where
  "gates_ok s \<longleftrightarrow> (\<forall>g. gate_closed s g = map_option (\<lambda>h. h = Released) (holds s g)) \<and>
     (\<forall>g. jwksGate (server s) = Some g \<longrightarrow> holds s g = Some Armed)"

definition pc_gate_ok :: "(nat \<rightharpoonup> hold) \<Rightarrow> jwks_pc \<Rightarrow> bool" where
  "pc_gate_ok hs pc \<longleftrightarrow>
     (case pc of
        Entering g _ \<Rightarrow> hs g \<noteq> None
      | AtGate g \<Rightarrow> hs g \<noteq> None
      | Serving (Some g) \<Rightarrow> hs g = Some Released
      | Answered (Some g) _ \<Rightarrow> hs g = Some Released
      | _ \<Rightarrow> True)"

definition handlers_ok :: "'priv msys \<Rightarrow> bool" where
  "handlers_ok s \<longleftrightarrow> (\<forall>q pc. handlers s q = Some pc \<longrightarrow> pc_gate_ok (holds s) pc)"

definition counts_ok :: "'priv msys \<Rightarrow> bool" where
  "counts_ok s \<longleftrightarrow> finite (dom (handlers s)) \<and> jwksRequests (server s) = int (card (dom (handlers s))) \<and>
     (\<forall>c n. entered_chan s c = Some n \<longrightarrow> n \<le> 64)"

definition minv :: "'priv msys \<Rightarrow> bool" where
  "minv s \<longleftrightarrow> gates_ok s \<and> handlers_ok s \<and> counts_ok s \<and> srv_keys (server s) \<noteq> []"

lemma server_frames [simp]:
  "jwksGate (handleJWKS_count srv) = jwksGate srv" "srv_keys (handleJWKS_count srv) = srv_keys srv"
  "jwksRequests (handleJWKS_count srv) = jwksRequests srv + 1"
  "jwksGate (SetDefaultKey kid srv) = jwksGate srv" "jwksRequests (SetDefaultKey kid srv) = jwksRequests srv"
  "jwksRequests (HoldJWKS g c srv) = jwksRequests srv" "srv_keys (HoldJWKS g c srv) = srv_keys srv"
  "jwksGate (HoldJWKS g c srv) = Some g"
  "jwksRequests (release_clear srv) = jwksRequests srv" "srv_keys (release_clear srv) = srv_keys srv"
  "jwksGate (release_clear srv) = None"
  by (simp_all add: handleJWKS_count_def SetDefaultKey_def HoldJWKS_def release_clear_def split: option.split)

lemma SetDefaultKey_nonempty [simp]: "srv_keys (SetDefaultKey kid srv) = [] \<longleftrightarrow> srv_keys srv = []"
  using SetDefaultKey_keys [of kid srv] by (metis mset_zero_iff)

lemma AddKey_Inr:
  assumes "AddKey rsa kid srv w = (Inr (srv', kid'), w')"
  shows "kid' = kid \<and> (\<exists>priv. srv' = srv\<lparr>srv_keys := srv_keys srv @ [\<lparr>key_kid = kid, key_priv = priv\<rparr>]\<rparr>)"
  using assms by (auto simp: AddKey_def addKeyLocked_def split: sum.splits prod.splits)

lemma pc_gate_simps [simp]:
  "pc_gate_ok hs Looking" "pc_gate_ok hs ClientGone" "pc_gate_ok hs (Serving None)" "pc_gate_ok hs (Answered None r)"
  "pc_gate_ok hs (Entering g e) \<longleftrightarrow> hs g \<noteq> None" "pc_gate_ok hs (AtGate g) \<longleftrightarrow> hs g \<noteq> None"
  "pc_gate_ok hs (Serving (Some g)) \<longleftrightarrow> hs g = Some Released" "pc_gate_ok hs (Answered (Some g) r) \<longleftrightarrow> hs g = Some Released"
  by (simp_all add: pc_gate_ok_def)

lemma handlers_okD: "handlers_ok s \<Longrightarrow> handlers s q = Some pc \<Longrightarrow> pc_gate_ok (holds s) pc"
  by (simp add: handlers_ok_def)

lemma handlers_set:
  "handlers_ok s \<Longrightarrow> pc_gate_ok (holds s) pc \<Longrightarrow> holds t = holds s \<Longrightarrow> handlers t = (handlers s)(q \<mapsto> pc) \<Longrightarrow> handlers_ok t"
  by (simp add: handlers_ok_def)

lemma pc_gate_update: "pc_gate_ok hs pc \<Longrightarrow> hs g \<noteq> Some Released \<Longrightarrow> pc_gate_ok (hs(g \<mapsto> h)) pc"
  by (auto simp: pc_gate_ok_def split: jwks_pc.splits option.splits)

lemma handlers_update:
  "handlers_ok s \<Longrightarrow> holds s g \<noteq> Some Released \<Longrightarrow> handlers t = handlers s \<Longrightarrow> holds t = (holds s)(g \<mapsto> h) \<Longrightarrow> handlers_ok t"
  by (simp add: handlers_ok_def pc_gate_update)

lemma gates_step: "mstep rsa s t \<Longrightarrow> gates_ok s \<Longrightarrow> gates_ok t"
  by (induction rule: mstep.induct) (auto simp: gates_ok_def dest!: AddKey_Inr)

lemma handlers_step:
  assumes "mstep rsa s t" and "gates_ok s" and "handlers_ok s"
  shows "handlers_ok t"
  using assms
proof (induction rule: mstep.induct)
  case (Hold s g c)
  then show ?case by (elim handlers_update [of _ g]) simp_all
next
  case (Clear s g)
  then show ?case by (elim handlers_update [of _ g]) simp_all
next
  case (Close s g)
  then show ?case by (elim handlers_update [of _ g]) simp_all
next
  case (Look s q)
  then have "pc_gate_ok (holds s) (handleJWKS_look (server s))"
    by (auto simp: handleJWKS_look_def gates_ok_def split: option.split)
  with Look show ?case by (elim handlers_set) simp_all
next
  case (Enter s q g e)
  from handlers_okD [OF Enter(3,1)] Enter show ?case by (elim handlers_set) simp_all
next
  case (Pass s q g)
  then have "holds s g = Some Released" by (auto simp: gates_ok_def)
  with Pass show ?case by (elim handlers_set) simp_all
next
  case (Answer s q g)
  from handlers_okD [OF Answer(3,1)] Answer show ?case by (elim handlers_set) (cases g, simp_all)
next
  case (Arrive s q)
  then show ?case by (elim handlers_set [of _ Looking]) simp_all
next
  case (Leave s q g)
  then show ?case by (elim handlers_set [of _ ClientGone]) simp_all
qed (simp_all add: handlers_ok_def)

lemma counts_step: "mstep rsa s t \<Longrightarrow> counts_ok s \<Longrightarrow> counts_ok t"
proof (induction rule: mstep.induct)
  case (Receive s c n)
  then have "Suc n \<le> 64" unfolding counts_ok_def by blast
  with Receive show ?case by (simp add: counts_ok_def)
qed (auto simp: counts_ok_def entered_send_def insert_absorb domIff split: option.splits if_splits dest!: AddKey_Inr)

lemma keys_step_nonempty: "mstep rsa s t \<Longrightarrow> srv_keys (server s) \<noteq> [] \<Longrightarrow> srv_keys (server t) \<noteq> []"
  by (induction rule: mstep.induct) (auto dest!: AddKey_Inr)

lemma minv_step: "minv s \<Longrightarrow> mstep rsa s t \<Longrightarrow> minv t"
  unfolding minv_def using gates_step handlers_step counts_step keys_step_nonempty by blast

lemma minv_start: "mock_start rsa s \<Longrightarrow> minv s"
  by (auto simp: mock_start_def minv_def gates_ok_def handlers_ok_def counts_ok_def mock_New_def addKeyLocked_def
      split: sum.splits prod.splits)

interpretation mock: invariant_system "mock_start rsa" "mstep rsa" minv for rsa
  by unfold_locales (auto intro: minv_start minv_step)

lemma mock_inv: "mock_start rsa s0 \<Longrightarrow> (mstep rsa)\<^sup>*\<^sup>* s0 s \<Longrightarrow> minv s"
  by (intro mock.inv_reachable) (auto simp: mock.reachable_def)

subsection \<open>Held requests are answered after the release\<close>

definition answerable :: "('priv, 'w) rsa_lib \<Rightarrow> nat \<Rightarrow> 'priv msys \<Rightarrow> bool" where
  "answerable rsa q s \<longleftrightarrow> (\<exists>t g r. (mstep rsa)\<^sup>*\<^sup>* s t \<and> handlers t q = Some (Answered g r))"

lemma answerable_back: "mstep rsa s t \<Longrightarrow> answerable rsa q t \<Longrightarrow> answerable rsa q s"
  unfolding answerable_def by (meson converse_rtranclp_into_rtranclp)

lemma answerable_Serving: "handlers s q = Some (Serving g) \<Longrightarrow> answerable rsa q s"
  by (rule answerable_back [OF mstep.Answer]) (auto simp: answerable_def)

lemma answerable_closed:
  "handlers s q = Some (AtGate g) \<Longrightarrow> gate_closed s g = Some True \<Longrightarrow> answerable rsa q s"
  by (rule answerable_back [OF mstep.Pass]) (auto intro: answerable_Serving)

lemma answerable_AtGate:
  assumes "gates_ok s" and "handlers s q = Some (AtGate g)" and "holds s g = Some h"
  shows "answerable rsa q s"
proof -
  have clearing: "answerable rsa q t" if "handlers t q = Some (AtGate g)" and "holds t g = Some Clearing" for t
    using that by (intro answerable_back [OF mstep.Close [of t g]] answerable_closed [of _ _ g]) simp_all
  show ?thesis
  proof (cases h)
    case Armed
    with assms show ?thesis by (intro answerable_back [OF mstep.Clear [of s g]] clearing) simp_all
  next
    case Released
    with assms show ?thesis by (intro answerable_closed) (auto simp: gates_ok_def)
  qed (use assms clearing in simp)
qed

lemma answerable_Entering:
  assumes "gates_ok s" and "handlers s q = Some (Entering g e)" and "holds s g = Some h"
  shows "answerable rsa q s"
proof (rule answerable_back [OF mstep.Enter [OF assms(2)]])
  show "answerable rsa q (s\<lparr>entered_chan := entered_send e (entered_chan s), handlers := (handlers s)(q \<mapsto> AtGate g)\<rparr>)"
    using assms by (intro answerable_AtGate [of _ _ g h]) (simp_all add: gates_ok_def)
qed

lemma answerable_Looking:
  assumes "gates_ok s" and "handlers s q = Some Looking"
  shows "answerable rsa q s"
proof (rule answerable_back [OF mstep.Look [OF assms(2)]])
  let ?t = "s\<lparr>handlers := (handlers s)(q \<mapsto> handleJWKS_look (server s))\<rparr>"
  show "answerable rsa q ?t"
  proof (cases "jwksGate (server s)")
    case None
    then show ?thesis by (intro answerable_Serving [of _ _ None]) (simp add: handleJWKS_look_def)
  next
    case (Some g)
    with assms(1) show ?thesis
      by (intro answerable_Entering [of _ _ g "jwksEntered (server s)" Armed]) (auto simp: handleJWKS_look_def gates_ok_def)
  qed
qed

text \<open>C38: the requests of the JWKS endpoint, however they interleave with holds, releases and key rotation: the counter is the
  number of requests that arrived; a request that was stopped at a gate is answered only once that hold is released; and a
  request whose client is still there can always be brought to its answer, so no release is lost.\<close>

theorem held_requests:
  assumes "mock_start rsa s0" and "(mstep rsa)\<^sup>*\<^sup>* s0 s"
  shows "JWKSRequests (server s) = int (card (dom (handlers s))) \<and>
    (\<forall>q g r. handlers s q = Some (Answered (Some g) r) \<longrightarrow> holds s g = Some Released) \<and>
    (\<forall>q pc. handlers s q = Some pc \<and> pc \<noteq> ClientGone \<longrightarrow>
       (\<exists>t g r. (mstep rsa)\<^sup>*\<^sup>* s t \<and> handlers t q = Some (Answered g r)))"
proof (intro conjI allI impI)
  note inv = mock_inv [OF assms]
  show "JWKSRequests (server s) = int (card (dom (handlers s)))"
    using inv by (simp add: minv_def counts_ok_def JWKSRequests_def)
  show "holds s g = Some Released" if "handlers s q = Some (Answered (Some g) r)" for q g r
    using inv that by (fastforce simp: minv_def handlers_ok_def pc_gate_ok_def)
  show "\<exists>t g r. (mstep rsa)\<^sup>*\<^sup>* s t \<and> handlers t q = Some (Answered g r)"
    if pc: "handlers s q = Some pc \<and> pc \<noteq> ClientGone" for q pc
  proof -
    from inv have g: "gates_ok s" and h: "pc_gate_ok (holds s) pc" using pc by (auto simp: minv_def handlers_ok_def)
    have "answerable rsa q s"
    proof (cases pc)
      case (Answered g r)
      with pc show ?thesis unfolding answerable_def by blast
    qed (use pc g h in \<open>auto simp: pc_gate_ok_def intro: answerable_Serving answerable_AtGate answerable_Entering answerable_Looking\<close>)
    then show ?thesis by (simp add: answerable_def)
  qed
qed

subsection \<open>Example\<close>

definition example_msys :: "nat msys" where
  "example_msys = \<lparr>server = example_server, gate_closed = Map.empty, entered_chan = Map.empty, holds = Map.empty,
     handlers = Map.empty\<rparr>"

lemma example_mock_start: "mock_start example_rsa example_msys"
  using example_mock_New by (auto simp: mock_start_def example_msys_def)

text \<open>One request is held, released and answered.\<close>

definition held_state :: "nat msys" where
  "held_state = \<lparr>server = release_clear (HoldJWKS 1 2 (handleJWKS_count example_server)), gate_closed = [1 \<mapsto> True],
     entered_chan = [2 \<mapsto> 1], holds = [1 \<mapsto> Released],
     handlers = [0 \<mapsto> Answered (Some 1) (jwks_answer example_rsa example_server)]\<rparr>"

lemma jwks_answer_keys: "srv_keys s = srv_keys s' \<Longrightarrow> jwks_answer rsa s = jwks_answer rsa s'"
  by (simp add: jwks_answer_def)

lemmas mock_run_simps = example_msys_def handleJWKS_look_def entered_send_def example_server_def HoldJWKS_def release_clear_def
  handleJWKS_count_def

lemma held_state_reached: "(mstep example_rsa)\<^sup>*\<^sup>* example_msys held_state"
proof -
  define s1 where "s1 = example_msys\<lparr>server := HoldJWKS 1 2 example_server, gate_closed := [1 \<mapsto> False], entered_chan := [2 \<mapsto> 0],
    holds := [1 \<mapsto> Armed]\<rparr>"
  define s2 where "s2 = s1\<lparr>server := handleJWKS_count (server s1), handlers := [0 \<mapsto> Looking]\<rparr>"
  define s3 where "s3 = s2\<lparr>handlers := [0 \<mapsto> Entering 1 (Some 2)]\<rparr>"
  define s4 where "s4 = s3\<lparr>entered_chan := [2 \<mapsto> 1], handlers := [0 \<mapsto> AtGate 1]\<rparr>"
  define s5 where "s5 = s4\<lparr>server := release_clear (server s4), holds := [1 \<mapsto> Clearing]\<rparr>"
  define s6 where "s6 = s5\<lparr>gate_closed := [1 \<mapsto> True], holds := [1 \<mapsto> Released]\<rparr>"
  define s7 where "s7 = s6\<lparr>handlers := [0 \<mapsto> Serving (Some 1)]\<rparr>"
  note defs = s1_def s2_def s3_def s4_def s5_def s6_def s7_def mock_run_simps
  have "mstep example_rsa example_msys s1"
    using mstep.Hold [of example_msys 1 2 example_rsa] by (simp add: defs)
  moreover have "mstep example_rsa s1 s2" using mstep.Arrive [of s1 0 example_rsa] by (simp add: defs)
  moreover have "mstep example_rsa s2 s3" using mstep.Look [of s2 0 example_rsa] by (simp add: defs)
  moreover have "mstep example_rsa s3 s4" using mstep.Enter [of s3 0 1 "Some 2" example_rsa] by (simp add: defs)
  moreover have "mstep example_rsa s4 s5" using mstep.Clear [of s4 1 example_rsa] by (simp add: defs)
  moreover have "mstep example_rsa s5 s6" using mstep.Close [of s5 1 example_rsa] by (simp add: defs)
  moreover have "mstep example_rsa s6 s7" using mstep.Pass [of s6 0 1 example_rsa] by (simp add: defs)
  moreover have "jwks_answer example_rsa (server s7) = jwks_answer example_rsa example_server"
    by (rule jwks_answer_keys) (simp add: defs)
  then have "mstep example_rsa s7 held_state"
    using mstep.Answer [of s7 0 "Some 1" example_rsa] by (simp add: defs held_state_def)
  ultimately show ?thesis by (meson converse_rtranclp_into_rtranclp rtranclp.rtrancl_refl)
qed

theorem held_requests_witness: "JWKSRequests (server held_state) = 1 \<and> holds held_state 1 = Some Released"
  using held_requests [OF example_mock_start held_state_reached] by (simp add: held_state_def)

text \<open>
  Releasing an older hold clears the gate of a newer one: a request that arrives then is answered although the newer hold was
  never released.
\<close>

lemma old_release_lifts_hold:
  "\<exists>s r. (mstep example_rsa)\<^sup>*\<^sup>* example_msys s \<and> holds s 2 = Some Armed \<and> handlers s 0 = Some (Answered None r)"
proof -
  define s1 where "s1 = example_msys\<lparr>server := HoldJWKS 1 1 example_server, gate_closed := [1 \<mapsto> False], entered_chan := [1 \<mapsto> 0],
    holds := [1 \<mapsto> Armed]\<rparr>"
  define s2 where "s2 = s1\<lparr>server := HoldJWKS 2 2 (server s1), gate_closed := [1 \<mapsto> False, 2 \<mapsto> False],
    entered_chan := [1 \<mapsto> 0, 2 \<mapsto> 0], holds := [1 \<mapsto> Armed, 2 \<mapsto> Armed]\<rparr>"
  define s3 where "s3 = s2\<lparr>server := release_clear (server s2), holds := [1 \<mapsto> Clearing, 2 \<mapsto> Armed]\<rparr>"
  define s4 where "s4 = s3\<lparr>server := handleJWKS_count (server s3), handlers := [0 \<mapsto> Looking]\<rparr>"
  define s5 where "s5 = s4\<lparr>handlers := [0 \<mapsto> Serving None]\<rparr>"
  define s6 where "s6 = s5\<lparr>handlers := [0 \<mapsto> Answered None (jwks_answer example_rsa (server s5))]\<rparr>"
  note defs = s1_def s2_def s3_def s4_def s5_def mock_run_simps
  have "mstep example_rsa example_msys s1" using mstep.Hold [of example_msys 1 1 example_rsa] by (simp add: defs)
  moreover have "mstep example_rsa s1 s2" using mstep.Hold [of s1 2 2 example_rsa] by (simp add: defs)
  moreover have "mstep example_rsa s2 s3" using mstep.Clear [of s2 1 example_rsa] by (simp add: defs fun_upd_twist)
  moreover have "mstep example_rsa s3 s4" using mstep.Arrive [of s3 0 example_rsa] by (simp add: defs)
  moreover have "mstep example_rsa s4 s5" using mstep.Look [of s4 0 example_rsa] by (simp add: defs)
  moreover have "mstep example_rsa s5 s6" using mstep.Answer [of s5 0 None example_rsa] by (simp add: s6_def) (simp add: defs)
  ultimately have "(mstep example_rsa)\<^sup>*\<^sup>* example_msys s6" by (meson converse_rtranclp_into_rtranclp rtranclp.rtrancl_refl)
  moreover have "holds s6 2 = Some Armed" by (simp add: s6_def defs)
  ultimately show ?thesis by (auto simp: s6_def)
qed

end
